(* ===== verification/Prelude.thy ===== *)
theory Prelude
  imports Complex_Main "HOL-Library.Word" "HOL-Library.List_Lexorder" "HOL-Library.Char_ord"
begin

text \<open>
  What every component shares: the names of the machine types, saturating arithmetic on
  \<open>u64\<close>, the collections of facts the component proofs use, and generic lemmas on lists
  (splitting at separators, ascending spans, eviction from the front of a queue).
  A Rust \<open>String\<close>, \<open>&str\<close> or \<open>Vec<u8>\<close> is a HOL \<open>string\<close>: the list of its bytes,
  one \<open>char\<close> per byte. \<open>usize\<close> lengths and indices are \<open>nat\<close>.
\<close>

named_theorems laws \<open>the laws a component's interface promises\<close>
named_theorems spans \<open>facts about byte spans: bounds, order, disjointness\<close>
named_theorems frame \<open>which parts of a state an operation leaves alone\<close>

type_synonym u64 = "64 word"
type_synonym u32 = "32 word"
type_synonym i64 = int

text \<open>The message of a boxed error.\<close>
type_synonym hr_error = string

section \<open>Saturating arithmetic on u64\<close>

definition saturating_add :: "u64 \<Rightarrow> u64 \<Rightarrow> u64" where
  "saturating_add a b = (if unat a + unat b < 2 ^ 64 then a + b else - 1)"

definition saturating_sub :: "u64 \<Rightarrow> u64 \<Rightarrow> u64" where
  "saturating_sub a b = (if b \<le> a then a - b else 0)"

lemma unat_u64_max: "unat (- 1 :: u64) = 18446744073709551615"
  by (simp add: unsigned_minus_1_eq_mask mask_eq_exp_minus_1)

lemma unat_plus_one: "(n :: u64) \<noteq> - 1 \<Longrightarrow> unat (n + 1) = unat n + 1"
  by (metis Suc_eq_plus1 add.commute add_eq_0_iff unatSuc)

lemma unat_saturating_add: "unat (saturating_add a b) = min (unat a + unat b) (2 ^ 64 - 1)"
proof (cases "unat a + unat b < 2 ^ 64")
  case True
  then show ?thesis
    by (simp add: saturating_add_def unat_word_ariths)
next
  case False
  then show ?thesis
    by (simp add: saturating_add_def unat_u64_max)
qed

lemma unat_saturating_sub: "unat (saturating_sub a b) = unat a - unat b"
  by (auto simp: saturating_sub_def unat_sub word_le_nat_alt)

lemma saturating_add_eq_0 [simp]: "saturating_add a b = 0 \<longleftrightarrow> a = 0 \<and> b = 0"
proof -
  have "saturating_add a b = 0 \<longleftrightarrow> unat (saturating_add a b) = 0"
    by (simp add: unat_eq_zero)
  also have "\<dots> \<longleftrightarrow> unat a = 0 \<and> unat b = 0"
    by (auto simp: unat_saturating_add)
  finally show ?thesis by (simp add: unat_eq_zero)
qed

section \<open>Splitting a list at separators\<close>

text \<open>Rust's \<open>split\<close>: \<open>n\<close> separators give \<open>n + 1\<close> parts.\<close>

fun split_on :: "('a \<Rightarrow> bool) \<Rightarrow> 'a list \<Rightarrow> 'a list list" where
  "split_on P [] = [[]]"
| "split_on P (x # xs) =
     (if P x then [] # split_on P xs
      else (case split_on P xs of [] \<Rightarrow> [[x]] | p # ps \<Rightarrow> (x # p) # ps))"

lemma split_on_nonempty [simp]: "split_on P xs \<noteq> []"
  by (induction xs) (auto split: list.splits)

lemma split_on_length: "length (split_on P xs) = Suc (length (filter P xs))"
  by (induction xs) (auto split: list.splits)

lemma split_on_no_sep: "\<forall>x \<in> set xs. \<not> P x \<Longrightarrow> split_on P xs = [xs]"
  by (induction xs) auto

lemma split_on_parts: "p \<in> set (split_on P xs) \<Longrightarrow> x \<in> set p \<Longrightarrow> x \<in> set xs \<and> \<not> P x"
proof (induction xs arbitrary: p)
  case Nil
  then show ?case by simp
next
  case (Cons y ys)
  then show ?case by (fastforce split: if_splits list.splits)
qed

lemma split_on_append_sep:
  assumes "P c"
  shows "split_on P (xs @ c # ys) = split_on P xs @ split_on P ys"
  using assms by (induction xs) (auto split: list.splits)

section \<open>Queues bounded by eviction from the front\<close>

text \<open>\<open>while q.len() > max { q.pop_front() }\<close>\<close>

fun evict_front :: "nat \<Rightarrow> 'a list \<Rightarrow> 'a list" where
  "evict_front n [] = []"
| "evict_front n (x # xs) = (if length (x # xs) > n then evict_front n xs else x # xs)"

lemma evict_front_drop: "evict_front n xs = drop (length xs - n) xs"
  by (induction xs) (auto simp: Suc_diff_le)

lemma evict_front_length: "length (evict_front n xs) = min n (length xs)"
  by (simp add: evict_front_drop)

lemma evict_front_subset: "set (evict_front n xs) \<subseteq> set xs"
  by (simp add: evict_front_drop set_drop_subset)

lemma evict_front_keeps: "length ys < n \<Longrightarrow> \<exists>xs'. evict_front n (xs @ x # ys) = xs' @ x # ys"
  by (simp add: evict_front_drop)

lemma evict_front_snoc:
  assumes "0 < n"
  shows "evict_front n (xs @ [x]) = evict_front (n - 1) xs @ [x]"
  using assms by (auto simp: evict_front_drop)

section \<open>Ascending families of spans\<close>

text \<open>
  Parents in ascending order, each with children in ascending order inside it: all the
  children in one ascending list. \<open>lo\<close> and \<open>hi\<close> read a span's bounds.
\<close>

definition ascending :: "('a \<Rightarrow> nat) \<Rightarrow> ('a \<Rightarrow> nat) \<Rightarrow> 'a list \<Rightarrow> bool" where
  "ascending lo hi xs \<longleftrightarrow> sorted_wrt (\<lambda>a b. hi a \<le> lo b) xs \<and> (\<forall>a \<in> set xs. lo a \<le> hi a)"

lemma ascending_Nil [simp]: "ascending lo hi []"
  by (simp add: ascending_def)

lemma ascending_single [simp]: "ascending lo hi [a] \<longleftrightarrow> lo a \<le> hi a"
  by (simp add: ascending_def)

lemma ascending_append:
  assumes "ascending lo hi xs" "ascending lo hi ys"
    and "\<And>x y. x \<in> set xs \<Longrightarrow> y \<in> set ys \<Longrightarrow> hi x \<le> lo y"
  shows "ascending lo hi (xs @ ys)"
  using assms by (auto simp: ascending_def sorted_wrt_append)

lemma ascending_filter: "ascending lo hi xs \<Longrightarrow> ascending lo hi (filter P xs)"
  by (auto simp: ascending_def sorted_wrt_filter)

lemma ascending_concat:
  assumes "ascending plo phi ps"
    and "\<And>p. p \<in> set ps \<Longrightarrow> ascending lo hi (f p)"
    and "\<And>p c. p \<in> set ps \<Longrightarrow> c \<in> set (f p) \<Longrightarrow> plo p \<le> lo c \<and> hi c \<le> phi p"
  shows "ascending lo hi (concat (map f ps))"
  using assms
proof (induction ps)
  case Nil
  then show ?case by simp
next
  case (Cons p ps)
  from Cons.prems(1) have tail: "ascending plo phi ps"
    and before: "\<And>q. q \<in> set ps \<Longrightarrow> phi p \<le> plo q"
    by (auto simp: ascending_def)
  have "ascending lo hi (concat (map f ps))"
    using tail Cons.prems(2,3) by (intro Cons.IH) auto
  moreover have "hi c \<le> lo d" if c: "c \<in> set (f p)" and d: "d \<in> set (concat (map f ps))" for c d
  proof -
    from d obtain q where q: "q \<in> set ps" "d \<in> set (f q)" by auto
    have "hi c \<le> phi p" using Cons.prems(3)[of p c] c by simp
    also have "phi p \<le> plo q" using before q(1) .
    also have "plo q \<le> lo d" using Cons.prems(3)[of q d] q by simp
    finally show ?thesis .
  qed
  ultimately show ?case
    using Cons.prems(2)[of p] by (auto intro!: ascending_append)
qed

end
