(* ===== verification/Rust_Text.thy ===== *)
theory Rust_Text
  imports Prelude
begin

text \<open>
  The operations of Rust's \<open>str\<close> and \<open>[u8]\<close> the program uses, on byte lists: UTF-8
  validity and characters, white space and trimming, searching, splitting, ASCII case,
  hexadecimal rendering. A character is the list of its UTF-8 bytes, so that the
  characters of a text concatenate to the text.
\<close>

section \<open>Bytes and UTF-8\<close>

definition byte :: "char \<Rightarrow> nat" where
  "byte c = of_char c"

lemma byte_bound: "byte c < 256"
  by (simp add: byte_def)

lemma byte_inject [simp]: "byte c = byte d \<longleftrightarrow> c = d"
  by (simp add: byte_def)

definition utf8_width :: "char \<Rightarrow> nat" where
  "utf8_width c = (let b = byte c in
     if b < 192 then 1 else if b < 224 then 2 else if b < 240 then 3 else 4)"

lemma utf8_width_bounds: "1 \<le> utf8_width c" "utf8_width c \<le> 4"
  by (auto simp: utf8_width_def Let_def)

text \<open>\<open>str::chars\<close>: the encoded characters of a text.\<close>

function chars :: "string \<Rightarrow> string list" where
  "chars [] = []"
| "chars (c # cs) = (c # take (utf8_width c - 1) cs) # chars (drop (utf8_width c - 1) cs)"
  by pat_completeness auto
termination
  by (relation "measure length") auto

lemma concat_chars [simp]: "concat (chars s) = s"
  by (induction s rule: chars.induct) auto

lemma chars_nonempty: "ch \<in> set (chars s) \<Longrightarrow> ch \<noteq> [] \<and> length ch \<le> 4"
proof (induction s rule: chars.induct)
  case (2 c cs)
  then show ?case using utf8_width_bounds[of c] by auto
qed simp

lemma length_le_chars: "length s \<le> 4 * length (chars s)"
proof (induction s rule: chars.induct)
  case (2 c cs)
  then show ?case using utf8_width_bounds[of c] by auto
qed simp

lemma chars_length_le: "length (chars s) \<le> length s"
  by (induction s rule: chars.induct) auto

text \<open>A run of whole characters has itself as its characters.\<close>

lemma chars_drop: "chars (concat (drop k (chars s))) = drop k (chars s)"
proof (induction s arbitrary: k rule: chars.induct)
  case (2 c cs)
  then show ?case by (cases k) auto
qed simp

lemma chars_take: "chars (concat (take k (chars s))) = take k (chars s)"
proof (induction s arbitrary: k rule: chars.induct)
  case (2 c cs)
  show ?case
  proof (cases k)
    case (Suc j)
    let ?w = "utf8_width c - 1"
    let ?rest = "concat (take j (chars (drop ?w cs)))"
    have "?rest = [] \<or> length (take ?w cs) = ?w"
      by (cases "?w \<le> length cs") auto
    then have "take ?w (take ?w cs @ ?rest) = take ?w cs \<and> drop ?w (take ?w cs @ ?rest) = ?rest"
      by (elim disjE; simp only: take_append drop_append append_Nil2 take_take drop_take; simp)
    then show ?thesis using 2[of j] Suc by simp
  qed simp
qed simp

lemma chars_slice:
  assumes "chars s = us @ vs @ ws"
  shows "chars (concat vs) = vs"
proof -
  have vs: "vs = take (length vs) (drop (length us) (chars s))" using assms by simp
  have "chars (concat (drop (length us) (chars s))) = drop (length us) (chars s)" by (rule chars_drop)
  then have "chars (concat (take (length vs) (drop (length us) (chars s))))
      = take (length vs) (drop (length us) (chars s))"
    by (metis chars_take)
  with vs show ?thesis by simp
qed

definition is_ascii :: "string \<Rightarrow> bool" where
  "is_ascii s \<longleftrightarrow> (\<forall>c \<in> set s. byte c < 128)"

lemma chars_ascii: "is_ascii s \<Longrightarrow> chars s = map (\<lambda>c. [c]) s"
  by (induction s rule: chars.induct) (auto simp: is_ascii_def utf8_width_def)

text \<open>The scalar value an encoded character stands for.\<close>

fun code_point :: "string \<Rightarrow> nat" where
  "code_point [a] = byte a"
| "code_point [a, b] = (byte a - 192) * 64 + (byte b - 128)"
| "code_point [a, b, c] = (byte a - 224) * 4096 + (byte b - 128) * 64 + (byte c - 128)"
| "code_point [a, b, c, d] =
     (byte a - 240) * 262144 + (byte b - 128) * 4096 + (byte c - 128) * 64 + (byte d - 128)"
| "code_point _ = 0"

definition continuation :: "char \<Rightarrow> bool" where
  "continuation c \<longleftrightarrow> 128 \<le> byte c \<and> byte c < 192"

text \<open>Well-formed encodings only: no overlong form, no surrogate, nothing above U+10FFFF.\<close>

fun utf8_char_ok :: "string \<Rightarrow> bool" where
  "utf8_char_ok [a] = (byte a < 128)"
| "utf8_char_ok [a, b] = (194 \<le> byte a \<and> byte a < 224 \<and> continuation b)"
| "utf8_char_ok [a, b, c] =
     (224 \<le> byte a \<and> byte a < 240 \<and> continuation b \<and> continuation c
      \<and> (byte a = 224 \<longrightarrow> 160 \<le> byte b) \<and> (byte a = 237 \<longrightarrow> byte b < 160))"
| "utf8_char_ok [a, b, c, d] =
     (240 \<le> byte a \<and> byte a < 245 \<and> continuation b \<and> continuation c \<and> continuation d
      \<and> (byte a = 240 \<longrightarrow> 144 \<le> byte b) \<and> (byte a = 244 \<longrightarrow> byte b < 144))"
| "utf8_char_ok _ = False"

text \<open>\<open>std::str::from_utf8(..).is_ok()\<close>\<close>

definition utf8_valid :: "string \<Rightarrow> bool" where
  "utf8_valid s \<longleftrightarrow> list_all utf8_char_ok (chars s)"

lemma utf8_valid_ascii: "is_ascii s \<Longrightarrow> utf8_valid s"
  by (auto simp: utf8_valid_def chars_ascii list_all_iff is_ascii_def)

section \<open>White space and trimming\<close>

text \<open>\<open>char::is_whitespace\<close>: the Unicode property White_Space.\<close>

definition is_whitespace :: "string \<Rightarrow> bool" where
  "is_whitespace ch \<longleftrightarrow> (let p = code_point ch in
     (9 \<le> p \<and> p \<le> 13) \<or> p = 32 \<or> p = 133 \<or> p = 160 \<or> p = 5760
     \<or> (8192 \<le> p \<and> p \<le> 8202) \<or> p = 8232 \<or> p = 8233 \<or> p = 8239 \<or> p = 8287 \<or> p = 12288)"

definition drop_while_end :: "('a \<Rightarrow> bool) \<Rightarrow> 'a list \<Rightarrow> 'a list" where
  "drop_while_end P xs = rev (dropWhile P (rev xs))"

definition trim_start :: "string \<Rightarrow> string" where
  "trim_start s = concat (dropWhile is_whitespace (chars s))"

definition trim_end :: "string \<Rightarrow> string" where
  "trim_end s = concat (drop_while_end is_whitespace (chars s))"

definition trim :: "string \<Rightarrow> string" where
  "trim s = concat (drop_while_end is_whitespace (dropWhile is_whitespace (chars s)))"

definition split_whitespace :: "string \<Rightarrow> string list" where
  "split_whitespace s =
     map concat (filter (\<lambda>p. p \<noteq> []) (split_on is_whitespace (chars s)))"

lemma drop_while_end_prefix: "\<exists>ys. xs = drop_while_end P xs @ ys"
proof -
  have "rev xs = takeWhile P (rev xs) @ dropWhile P (rev xs)" by simp
  then have "xs = rev (dropWhile P (rev xs)) @ rev (takeWhile P (rev xs))"
    by (metis rev_append rev_rev_ident)
  then show ?thesis unfolding drop_while_end_def by blast
qed

lemma dropWhile_suffix: "\<exists>us. xs = us @ dropWhile P xs"
  by (metis takeWhile_dropWhile_id)

lemma drop_while_end_last: "drop_while_end P xs = [] \<or> \<not> P (last (drop_while_end P xs))"
proof (cases "dropWhile P (rev xs)")
  case (Cons y ys)
  then have "\<not> P y" by (metis dropWhile_eq_Cons_conv)
  then show ?thesis using Cons by (simp add: drop_while_end_def)
qed (simp add: drop_while_end_def)

lemma drop_while_end_id: "xs = [] \<or> \<not> P (last xs) \<Longrightarrow> drop_while_end P xs = xs"
  by (cases xs rule: rev_cases) (auto simp: drop_while_end_def)

lemma trim_ascii:
  assumes "is_ascii s" "s \<noteq> []" "\<not> is_whitespace [hd s]" "\<not> is_whitespace [last s]"
  shows "trim s = s"
proof -
  obtain a t where s: "s = a # t" using assms(2) by (cases s) auto
  have cs: "chars s = map (\<lambda>c. [c]) s" using chars_ascii[OF assms(1)] by simp
  have "dropWhile is_whitespace (chars s) = chars s" unfolding cs using assms(3) by (simp add: s)
  moreover have "drop_while_end is_whitespace (chars s) = chars s"
    by (rule drop_while_end_id) (use assms(2,4) cs in \<open>simp add: last_map\<close>)
  ultimately show ?thesis by (simp add: trim_def)
qed

lemma trim_chars: "chars (trim s) = drop_while_end is_whitespace (dropWhile is_whitespace (chars s))"
proof -
  obtain us where "chars s = us @ dropWhile is_whitespace (chars s)"
    using dropWhile_suffix by metis
  moreover obtain ws where "dropWhile is_whitespace (chars s)
      = drop_while_end is_whitespace (dropWhile is_whitespace (chars s)) @ ws"
    using drop_while_end_prefix by metis
  ultimately have "chars s = us @ drop_while_end is_whitespace (dropWhile is_whitespace (chars s)) @ ws"
    by metis
  then show ?thesis unfolding trim_def by (rule chars_slice)
qed

lemma trim_idem [simp]: "trim (trim s) = trim s"
proof -
  let ?d = "dropWhile is_whitespace (chars s)"
  let ?t = "drop_while_end is_whitespace ?d"
  have "?t = [] \<or> \<not> is_whitespace (hd ?t)"
  proof (cases ?t)
    case (Cons x xs)
    obtain ws where "?d = ?t @ ws" using drop_while_end_prefix by metis
    then show ?thesis using Cons hd_dropWhile[of is_whitespace "chars s"] by auto
  qed simp
  then have "dropWhile is_whitespace ?t = ?t" by (cases ?t) auto
  then have "drop_while_end is_whitespace (dropWhile is_whitespace (chars (trim s))) = ?t"
    using drop_while_end_last[of is_whitespace ?d] by (simp add: trim_chars drop_while_end_id)
  then show ?thesis by (simp add: trim_def[of "trim s"]) (simp add: trim_def)
qed

lemma trim_subset: "set (trim s) \<subseteq> set s"
proof -
  have "set (dropWhile P xs) \<subseteq> set xs" for P and xs :: "string list"
    by (auto dest: set_dropWhileD)
  moreover have "set (drop_while_end P xs) \<subseteq> set xs" for P and xs :: "string list"
    by (auto simp: drop_while_end_def dest: set_dropWhileD)
  ultimately have "set (drop_while_end is_whitespace (dropWhile is_whitespace (chars s))) \<subseteq> set (chars s)"
    by blast
  moreover have "set s = (\<Union>ch \<in> set (chars s). set ch)"
    by (metis concat_chars set_concat)
  ultimately show ?thesis by (auto simp: trim_def)
qed

lemma trim_end_prefix: "\<exists>ys. s = trim_end s @ ys"
  using drop_while_end_prefix[of "chars s" is_whitespace] unfolding trim_end_def
  by (metis concat_append concat_chars)

lemma trim_end_length: "length (trim_end s) \<le> length s"
  by (metis trim_end_prefix length_append le_add1)

section \<open>Searching and cutting\<close>

definition starts_with :: "string \<Rightarrow> string \<Rightarrow> bool" where
  "starts_with p s \<longleftrightarrow> take (length p) s = p"

definition ends_with :: "string \<Rightarrow> string \<Rightarrow> bool" where
  "ends_with p s \<longleftrightarrow> length p \<le> length s \<and> drop (length s - length p) s = p"

fun contains :: "string \<Rightarrow> string \<Rightarrow> bool" where
  "contains p [] = (p = [])"
| "contains p (c # cs) = (starts_with p (c # cs) \<or> contains p cs)"

definition strip_prefix :: "string \<Rightarrow> string \<Rightarrow> string option" where
  "strip_prefix p s = (if starts_with p s then Some (drop (length p) s) else None)"

fun split_once :: "char \<Rightarrow> string \<Rightarrow> (string \<times> string) option" where
  "split_once d [] = None"
| "split_once d (c # cs) =
     (if c = d then Some ([], cs) else map_option (\<lambda>(a, b). (c # a, b)) (split_once d cs))"

lemma starts_with_append [simp]: "starts_with p (p @ s)"
  by (simp add: starts_with_def)

lemma starts_with_iff: "starts_with p s \<longleftrightarrow> (\<exists>t. s = p @ t)"
  unfolding starts_with_def by (metis append_eq_conv_conj append_take_drop_id)

lemma ends_with_iff: "ends_with p s \<longleftrightarrow> (\<exists>t. s = t @ p)"
  unfolding ends_with_def
  by (metis append_eq_conv_conj append_take_drop_id diff_add_inverse2 le_add2 length_append)

lemma contains_iff: "contains p s \<longleftrightarrow> (\<exists>u v. s = u @ p @ v)"
proof (induction s)
  case Nil
  then show ?case by auto
next
  case (Cons c cs)
  have "(\<exists>u v. c # cs = u @ p @ v) \<longleftrightarrow> (\<exists>v. c # cs = p @ v) \<or> (\<exists>u v. cs = u @ p @ v)"
    by (auto simp: Cons_eq_append_conv)
  then show ?case by (simp add: Cons.IH starts_with_iff)
qed

lemma strip_prefix_Some: "strip_prefix p s = Some t \<longleftrightarrow> s = p @ t"
  by (auto simp: strip_prefix_def starts_with_iff)

lemma split_once_Some:
  "split_once d s = Some (a, b) \<longleftrightarrow> s = a @ d # b \<and> d \<notin> set a"
proof (induction s arbitrary: a b)
  case Nil
  then show ?case by simp
next
  case (Cons c cs)
  show ?case
    by (auto simp: Cons.IH Cons_eq_append_conv)
qed

section \<open>ASCII case and hexadecimal digits\<close>

definition to_ascii_lower :: "char \<Rightarrow> char" where
  "to_ascii_lower c = (if 65 \<le> byte c \<and> byte c \<le> 90 then char_of (byte c + 32) else c)"

definition to_ascii_lowercase :: "string \<Rightarrow> string" where
  "to_ascii_lowercase s = map to_ascii_lower s"

definition eq_ignore_ascii_case :: "string \<Rightarrow> string \<Rightarrow> bool" where
  "eq_ignore_ascii_case a b \<longleftrightarrow> to_ascii_lowercase a = to_ascii_lowercase b"

lemma eq_ignore_ascii_case_refl [simp]: "eq_ignore_ascii_case a a"
  by (simp add: eq_ignore_ascii_case_def)

definition is_ascii_hexdigit :: "char \<Rightarrow> bool" where
  "is_ascii_hexdigit c \<longleftrightarrow> (48 \<le> byte c \<and> byte c \<le> 57) \<or> (65 \<le> byte c \<and> byte c \<le> 70)
     \<or> (97 \<le> byte c \<and> byte c \<le> 102)"

definition hex_digit :: "nat \<Rightarrow> char" where
  "hex_digit n = (if n < 10 then char_of (48 + n) else char_of (87 + n))"

text \<open>\<open>format!("{byte:02x}")\<close> for every byte, concatenated.\<close>

definition hex02 :: "char \<Rightarrow> string" where
  "hex02 c = [hex_digit (byte c div 16), hex_digit (byte c mod 16)]"

definition hex_string :: "string \<Rightarrow> string" where
  "hex_string bs = concat (map hex02 bs)"

definition is_lower_hexdigit :: "char \<Rightarrow> bool" where
  "is_lower_hexdigit c \<longleftrightarrow> (48 \<le> byte c \<and> byte c \<le> 57) \<or> (97 \<le> byte c \<and> byte c \<le> 102)"

lemma hex_digit_lower: "n < 16 \<Longrightarrow> is_lower_hexdigit (hex_digit n)"
  by (auto simp: is_lower_hexdigit_def hex_digit_def byte_def of_char_of)

lemma lower_hex_is_hex: "is_lower_hexdigit c \<Longrightarrow> is_ascii_hexdigit c"
  by (auto simp: is_lower_hexdigit_def is_ascii_hexdigit_def)

lemma length_hex_string [simp]: "length (hex_string bs) = 2 * length bs"
  by (induction bs) (auto simp: hex_string_def hex02_def)

lemma hex_string_lower: "c \<in> set (hex_string bs) \<Longrightarrow> is_lower_hexdigit c"
proof -
  assume "c \<in> set (hex_string bs)"
  then obtain b where "c = hex_digit (byte b div 16) \<or> c = hex_digit (byte b mod 16)"
    by (auto simp: hex_string_def hex02_def)
  moreover have "byte b div 16 < 16" using byte_bound[of b] by auto
  ultimately show ?thesis by (auto intro: hex_digit_lower)
qed

lemma hex_digit_inject:
  assumes "m < 16" "n < 16"
  shows "hex_digit m = hex_digit n \<longleftrightarrow> m = n"
proof
  have val: "byte (hex_digit k) = (if k < 10 then 48 + k else 87 + k)" if "k < 16" for k
    using that by (auto simp: hex_digit_def byte_def of_char_of)
  assume "hex_digit m = hex_digit n"
  then have "byte (hex_digit m) = byte (hex_digit n)" by simp
  with assms show "m = n" by (auto simp: val split: if_splits)
qed simp

lemma hex_string_inject:
  "length a = length b \<Longrightarrow> hex_string a = hex_string b \<longleftrightarrow> a = b"
proof (induction a b rule: list_induct2)
  case Nil
  then show ?case by simp
next
  case (Cons x xs y ys)
  have "byte x = byte y" if "byte x div 16 = byte y div 16" "byte x mod 16 = byte y mod 16"
    using that by (metis div_mod_decomp)
  moreover have "byte x div 16 < 16" "byte y div 16 < 16"
    using byte_bound[of x] byte_bound[of y] by auto
  ultimately show ?case
    using Cons.IH by (auto simp: hex_string_def hex02_def hex_digit_inject)
qed

end
