(* ===== verification/Stats.thy ===== *)
theory Stats
  imports Rust_Text
begin

text \<open>
  The process-global counters of \<open>src/stats.rs\<close>. An \<open>AtomicU64\<close> is a \<open>u64\<close> whose
  \<open>fetch_add\<close> wraps; a mutex around a \<open>BTreeMap\<close> is a finite map. A ratio in \<open>f64\<close> is
  the exact rational it approximates.
\<close>

section \<open>The counters\<close>

record rate_limit_snapshot =
  remaining_requests :: "i64 option"
  remaining_tokens :: "i64 option"
  remaining_input_tokens :: "i64 option"
  remaining_output_tokens :: "i64 option"

definition rate_limit_default :: rate_limit_snapshot where
  "rate_limit_default = \<lparr>remaining_requests = None, remaining_tokens = None,
     remaining_input_tokens = None, remaining_output_tokens = None\<rparr>"

definition rate_limit_is_empty :: "rate_limit_snapshot \<Rightarrow> bool" where
  "rate_limit_is_empty s \<longleftrightarrow>
     remaining_requests s = None \<and> remaining_tokens s = None
     \<and> remaining_input_tokens s = None \<and> remaining_output_tokens s = None"

record cache_hit_rate_stats =
  hit_count :: u64
  hit_sum :: rat

record stats =
  total_requests :: u64
  compressed_requests :: u64
  bytes_before :: u64
  bytes_after :: u64
  tokens_before :: u64
  tokens_after :: u64
  ccr_entry_count :: u64
  decompress_hits :: u64
  decompress_misses :: u64
  websocket_sessions :: u64
  active_websocket_sessions :: u64
  sse_streams :: u64
  sse_input_tokens :: u64
  sse_output_tokens :: u64
  sse_cache_read_input_tokens :: u64
  sse_cache_creation_input_tokens :: u64
  sse_cache_hit_rates :: "string \<rightharpoonup> cache_hit_rate_stats"
  skipped_requests :: "string \<rightharpoonup> u64"
  ccr_continuation_rounds :: u64
  ccr_continuation_retrievals :: u64
  ccr_stream_tool_calls :: u64
  ccr_batch_results_processed :: u64
  sse_inferred_cache_write_tokens :: u64
  service_tier_counts :: "string \<rightharpoonup> u64"
  response_status_counts :: "string \<rightharpoonup> u64"
  rate_limit_remaining :: "string \<rightharpoonup> rate_limit_snapshot"

definition stats_default :: stats where
  "stats_default = \<lparr>
     total_requests = 0, compressed_requests = 0, bytes_before = 0, bytes_after = 0,
     tokens_before = 0, tokens_after = 0, ccr_entry_count = 0, decompress_hits = 0,
     decompress_misses = 0, websocket_sessions = 0, active_websocket_sessions = 0,
     sse_streams = 0, sse_input_tokens = 0, sse_output_tokens = 0,
     sse_cache_read_input_tokens = 0, sse_cache_creation_input_tokens = 0,
     sse_cache_hit_rates = Map.empty, skipped_requests = Map.empty,
     ccr_continuation_rounds = 0, ccr_continuation_retrievals = 0,
     ccr_stream_tool_calls = 0, ccr_batch_results_processed = 0,
     sse_inferred_cache_write_tokens = 0, service_tier_counts = Map.empty,
     response_status_counts = Map.empty, rate_limit_remaining = Map.empty\<rparr>"

text \<open>\<open>*map.entry(key).or_insert(0) += 1\<close>\<close>

definition bump :: "string \<Rightarrow> (string \<rightharpoonup> u64) \<Rightarrow> (string \<rightharpoonup> u64)" where
  "bump k m = m(k \<mapsto> (case m k of None \<Rightarrow> 0 | Some n \<Rightarrow> n) + 1)"

section \<open>Recording\<close>

definition record_request :: "stats \<Rightarrow> stats" where
  "record_request s = s\<lparr>total_requests := total_requests s + 1\<rparr>"

definition record_compressed_request :: "u64 \<Rightarrow> u64 \<Rightarrow> u64 \<Rightarrow> u64 \<Rightarrow> stats \<Rightarrow> stats" where
  "record_compressed_request bb ba tb ta s =
     s\<lparr>compressed_requests := compressed_requests s + 1,
       bytes_before := bytes_before s + bb, bytes_after := bytes_after s + ba,
       tokens_before := tokens_before s + tb, tokens_after := tokens_after s + ta\<rparr>"

definition record_skipped_request :: "string \<Rightarrow> stats \<Rightarrow> stats" where
  "record_skipped_request reason s = s\<lparr>skipped_requests := bump reason (skipped_requests s)\<rparr>"

definition record_ccr_entry_inserted :: "stats \<Rightarrow> stats" where
  "record_ccr_entry_inserted s = s\<lparr>ccr_entry_count := ccr_entry_count s + 1\<rparr>"

definition record_decompress_hit :: "stats \<Rightarrow> stats" where
  "record_decompress_hit s = s\<lparr>decompress_hits := decompress_hits s + 1\<rparr>"

definition record_decompress_miss :: "stats \<Rightarrow> stats" where
  "record_decompress_miss s = s\<lparr>decompress_misses := decompress_misses s + 1\<rparr>"

definition record_websocket_open :: "stats \<Rightarrow> stats" where
  "record_websocket_open s =
     s\<lparr>websocket_sessions := websocket_sessions s + 1,
       active_websocket_sessions := active_websocket_sessions s + 1\<rparr>"

definition record_websocket_close :: "stats \<Rightarrow> stats" where
  "record_websocket_close s =
     s\<lparr>active_websocket_sessions := saturating_sub (active_websocket_sessions s) 1\<rparr>"

definition record_sse_stream :: "stats \<Rightarrow> stats" where
  "record_sse_stream s = s\<lparr>sse_streams := sse_streams s + 1\<rparr>"

definition record_sse_usage :: "u64 \<Rightarrow> u64 \<Rightarrow> u64 \<Rightarrow> u64 \<Rightarrow> stats \<Rightarrow> stats" where
  "record_sse_usage input output cache_read cache_creation s =
     s\<lparr>sse_input_tokens := sse_input_tokens s + input,
       sse_output_tokens := sse_output_tokens s + output,
       sse_cache_read_input_tokens := sse_cache_read_input_tokens s + cache_read,
       sse_cache_creation_input_tokens := sse_cache_creation_input_tokens s + cache_creation\<rparr>"

definition record_ccr_continuation_round :: "stats \<Rightarrow> stats" where
  "record_ccr_continuation_round s = s\<lparr>ccr_continuation_rounds := ccr_continuation_rounds s + 1\<rparr>"

definition record_ccr_continuation_retrievals :: "u64 \<Rightarrow> stats \<Rightarrow> stats" where
  "record_ccr_continuation_retrievals n s =
     s\<lparr>ccr_continuation_retrievals := ccr_continuation_retrievals s + n\<rparr>"

definition record_ccr_stream_tool_call :: "stats \<Rightarrow> stats" where
  "record_ccr_stream_tool_call s = s\<lparr>ccr_stream_tool_calls := ccr_stream_tool_calls s + 1\<rparr>"

definition record_ccr_batch_result_processed :: "stats \<Rightarrow> stats" where
  "record_ccr_batch_result_processed s =
     s\<lparr>ccr_batch_results_processed := ccr_batch_results_processed s + 1\<rparr>"

definition record_inferred_cache_write_tokens :: "u64 \<Rightarrow> stats \<Rightarrow> stats" where
  "record_inferred_cache_write_tokens n s =
     s\<lparr>sse_inferred_cache_write_tokens := sse_inferred_cache_write_tokens s + n\<rparr>"

definition record_service_tier :: "string \<Rightarrow> stats \<Rightarrow> stats" where
  "record_service_tier tier s = s\<lparr>service_tier_counts := bump tier (service_tier_counts s)\<rparr>"

definition record_response_status :: "string \<Rightarrow> stats \<Rightarrow> stats" where
  "record_response_status status s =
     s\<lparr>response_status_counts := bump status (response_status_counts s)\<rparr>"

definition record_rate_limit_snapshot :: "string \<Rightarrow> rate_limit_snapshot \<Rightarrow> stats \<Rightarrow> stats" where
  "record_rate_limit_snapshot provider snapshot s =
     (if rate_limit_is_empty snapshot then s
      else
        let entry = (case rate_limit_remaining s provider of
                       None \<Rightarrow> rate_limit_default | Some e \<Rightarrow> e);
            entry = (if remaining_requests snapshot \<noteq> None
                     then entry\<lparr>remaining_requests := remaining_requests snapshot\<rparr> else entry);
            entry = (if remaining_tokens snapshot \<noteq> None
                     then entry\<lparr>remaining_tokens := remaining_tokens snapshot\<rparr> else entry);
            entry = (if remaining_input_tokens snapshot \<noteq> None
                     then entry\<lparr>remaining_input_tokens := remaining_input_tokens snapshot\<rparr> else entry);
            entry = (if remaining_output_tokens snapshot \<noteq> None
                     then entry\<lparr>remaining_output_tokens := remaining_output_tokens snapshot\<rparr> else entry)
        in s\<lparr>rate_limit_remaining := (rate_limit_remaining s)(provider \<mapsto> entry)\<rparr>)"

text \<open>A rational is always finite, so only the range test of the guard remains.\<close>

definition record_sse_cache_hit_rate :: "string \<Rightarrow> rat \<Rightarrow> stats \<Rightarrow> stats" where
  "record_sse_cache_hit_rate provider rate s =
     (if \<not> (0 \<le> rate \<and> rate \<le> 1) then s
      else
        let entry = (case sse_cache_hit_rates s provider of
                       None \<Rightarrow> \<lparr>hit_count = 0, hit_sum = 0\<rparr> | Some e \<Rightarrow> e)
        in s\<lparr>sse_cache_hit_rates := (sse_cache_hit_rates s)(provider \<mapsto>
               entry\<lparr>hit_count := hit_count entry + 1, hit_sum := hit_sum entry + rate\<rparr>)\<rparr>)"

section \<open>Snapshots\<close>

record stats_snapshot =
  snap_counters :: stats
  savings_ratio :: rat

definition snapshot :: "stats \<Rightarrow> stats_snapshot" where
  "snapshot s =
     \<lparr>snap_counters = s,
      savings_ratio =
        (if bytes_before s = 0 then 0
         else of_nat (unat (saturating_sub (bytes_before s) (bytes_after s)))
              / of_nat (unat (bytes_before s)))\<rparr>"

definition stats_with_ccr_entry_count :: "u64 \<Rightarrow> stats \<Rightarrow> stats_snapshot \<times> stats" where
  "stats_with_ccr_entry_count n s = (let s = s\<lparr>ccr_entry_count := n\<rparr> in (snapshot s, s))"

section \<open>Properties\<close>

lemma savings_ratio_unit: "0 \<le> savings_ratio (snapshot s) \<and> savings_ratio (snapshot s) \<le> 1"
proof (cases "bytes_before s = 0")
  case True
  then show ?thesis by (simp add: snapshot_def)
next
  case False
  then have pos: "0 < unat (bytes_before s)" by (simp add: unat_gt_0)
  have "unat (saturating_sub (bytes_before s) (bytes_after s)) \<le> unat (bytes_before s)"
    by (simp add: unat_saturating_sub)
  with pos show ?thesis
    using False by (simp add: snapshot_def divide_le_eq_1 del: of_nat_unat)
qed

text \<open>Every hit-rate entry has a sum between 0 and its number of samples.\<close>

definition hit_rates_ok :: "stats \<Rightarrow> bool" where
  "hit_rates_ok s \<longleftrightarrow> (\<forall>p e. sse_cache_hit_rates s p = Some e \<longrightarrow>
     0 \<le> hit_sum e \<and> hit_sum e \<le> of_nat (unat (hit_count e)))"

definition hit_count_room :: "stats \<Rightarrow> string \<Rightarrow> bool" where
  "hit_count_room s p \<longleftrightarrow>
     (case sse_cache_hit_rates s p of None \<Rightarrow> True | Some e \<Rightarrow> hit_count e \<noteq> - 1)"

lemma hit_rate_bound:
  "hit_rates_ok s \<Longrightarrow> hit_count_room s p \<Longrightarrow> hit_rates_ok (record_sse_cache_hit_rate p r s)"
  by (auto simp: hit_rates_ok_def hit_count_room_def record_sse_cache_hit_rate_def Let_def
      unat_plus_one simp del: of_nat_unat split: option.splits)
    (metis add.commute add_mono)

text \<open>A rate-limit field the upstream did not report keeps its last value.\<close>

definition gauge :: "(rate_limit_snapshot \<Rightarrow> i64 option) \<Rightarrow> stats \<Rightarrow> string \<Rightarrow> i64 option" where
  "gauge field s p = Option.bind (rate_limit_remaining s p) field"

lemma record_rate_limit_gauges:
  fixes x :: rate_limit_snapshot
  assumes "field \<in> {remaining_requests, remaining_tokens, remaining_input_tokens,
                    remaining_output_tokens}"
  shows "gauge field (record_rate_limit_snapshot p x s) q =
     (if q = p \<and> field x \<noteq> None then field x else gauge field s q)"
  using assms
  by (auto simp: gauge_def record_rate_limit_snapshot_def rate_limit_is_empty_def
      rate_limit_default_def Let_def split: option.splits)

section \<open>The WebSocket gauge\<close>

datatype ws_event = WsOpen | WsClose

fun ws_record :: "ws_event \<Rightarrow> stats \<Rightarrow> stats" where
  "ws_record WsOpen s = record_websocket_open s"
| "ws_record WsClose s = record_websocket_close s"

text \<open>Every close belongs to an open before it.\<close>

fun ws_balanced :: "nat \<Rightarrow> ws_event list \<Rightarrow> bool" where
  "ws_balanced n [] = True"
| "ws_balanced n (WsOpen # es) = ws_balanced (Suc n) es"
| "ws_balanced n (WsClose # es) = (0 < n \<and> ws_balanced (n - 1) es)"

lemma ws_gauge_run:
  assumes "ws_balanced (unat (active_websocket_sessions s)) es"
    and "unat (active_websocket_sessions s) + length es < 2 ^ 64"
  shows "unat (active_websocket_sessions (fold ws_record es s))
           + length (filter ((=) WsClose) es)
         = unat (active_websocket_sessions s) + length (filter ((=) WsOpen) es)"
  using assms
proof (induction es arbitrary: s)
  case Nil
  then show ?case by simp
next
  case (Cons e es)
  show ?case
  proof (cases e)
    case WsOpen
    have step: "unat (active_websocket_sessions s + 1) = unat (active_websocket_sessions s) + 1"
      using Cons.prems(2) by (intro unat_plus_one) (auto simp: unat_u64_max)
    show ?thesis
      using Cons.IH[of "ws_record WsOpen s"] Cons.prems WsOpen step
      by (simp add: record_websocket_open_def)
  next
    case WsClose
    have step: "unat (saturating_sub (active_websocket_sessions s) 1)
        = unat (active_websocket_sessions s) - 1"
      by (simp add: unat_saturating_sub)
    show ?thesis
      using Cons.IH[of "ws_record WsClose s"] Cons.prems WsClose step
      by (simp add: record_websocket_close_def)
  qed
qed

text \<open>
  The WebSocket gauge. From process start, after any sequence of opened and closed
  sessions in which each close follows an open of its own, the gauge is the number of sessions
  opened less the number closed, so it returns to zero once every session has ended.
\<close>

theorem websocket_gauge_counts:
  assumes "ws_balanced 0 es" "length es < 2 ^ 64"
  shows "unat (active_websocket_sessions (fold ws_record es stats_default))
           + length (filter ((=) WsClose) es) = length (filter ((=) WsOpen) es)"
  using ws_gauge_run[of stats_default es] assms by (simp add: stats_default_def)

theorem websocket_gauge_counts_witness:
  "unat (active_websocket_sessions (fold ws_record [WsOpen, WsOpen, WsClose] stats_default)) + 1 = 2"
  using websocket_gauge_counts[of "[WsOpen, WsOpen, WsClose]"] by simp

section \<open>Runs of samples and snapshots\<close>

type_synonym hit_sample = "string \<times> rat"

definition sample_valid :: "string \<Rightarrow> hit_sample \<Rightarrow> bool" where
  "sample_valid p x \<longleftrightarrow> fst x = p \<and> 0 \<le> snd x \<and> snd x \<le> 1"

definition record_samples :: "hit_sample list \<Rightarrow> stats \<Rightarrow> stats" where
  "record_samples xs s = fold (\<lambda>(p, r). record_sse_cache_hit_rate p r) xs s"

lemma record_samples_snoc:
  "record_samples (xs @ [(p, r)]) s = record_sse_cache_hit_rate p r (record_samples xs s)"
  by (simp add: record_samples_def)

lemma record_samples_entry:
  assumes "length xs < 2 ^ 64"
  shows "case sse_cache_hit_rates (record_samples xs stats_default) p of
      None \<Rightarrow> filter (sample_valid p) xs = []
    | Some e \<Rightarrow> unat (hit_count e) = length (filter (sample_valid p) xs)
        \<and> hit_sum e = sum_list (map snd (filter (sample_valid p) xs))"
  using assms
proof (induction xs rule: rev_induct)
  case Nil
  then show ?case by (simp add: record_samples_def stats_default_def)
next
  case (snoc x xs)
  obtain q r where x: "x = (q, r)" by fastforce
  let ?s = "record_samples xs stats_default"
  have ih: "case sse_cache_hit_rates ?s p of
      None \<Rightarrow> filter (sample_valid p) xs = []
    | Some e \<Rightarrow> unat (hit_count e) = length (filter (sample_valid p) xs)
        \<and> hit_sum e = sum_list (map snd (filter (sample_valid p) xs))"
    using snoc by simp
  have room: "unat (c + 1) = unat c + 1" if "unat c \<le> length xs" for c :: u64
    using that snoc.prems by (intro unat_plus_one) (auto simp: unat_u64_max)
  have bound: "length (filter (sample_valid p) xs) \<le> length xs" by simp
  show ?case
    using ih room bound unfolding x record_samples_snoc
    by (cases "sse_cache_hit_rates ?s p")
      (auto simp: record_sse_cache_hit_rate_def sample_valid_def Let_def simp del: length_filter_le
        of_nat_unat)
qed

text \<open>
  Cache hit rates. After any run of samples from process start, the entry of a provider
  counts the samples of that provider that lie in the unit interval and sums exactly those; so
  a provider that has an entry has an average between 0 and 1, and rejected or foreign samples
  leave no trace.
\<close>

theorem cache_hit_rate_average:
  assumes "length xs < 2 ^ 64"
    and "sse_cache_hit_rates (record_samples xs stats_default) p = Some e"
  shows "unat (hit_count e) = length (filter (sample_valid p) xs)
    \<and> hit_sum e = sum_list (map snd (filter (sample_valid p) xs))
    \<and> 0 \<le> hit_sum e \<and> hit_sum e \<le> of_nat (unat (hit_count e))"
proof -
  have e: "unat (hit_count e) = length (filter (sample_valid p) xs)
      \<and> hit_sum e = sum_list (map snd (filter (sample_valid p) xs))"
    using record_samples_entry[OF assms(1), of p] assms(2) by simp
  have "0 \<le> sum_list (map snd (filter (sample_valid p) ys))
      \<and> sum_list (map snd (filter (sample_valid p) ys)) \<le> of_nat (length (filter (sample_valid p) ys))" for ys
    by (induction ys) (auto simp: sample_valid_def)
  with e show ?thesis by (metis (no_types, lifting))
qed

theorem cache_hit_rate_average_witness:
  "\<exists>e. sse_cache_hit_rates (record_samples [(''a'', 1 / 2), (''b'', 1), (''a'', 2), (''a'', 1)] stats_default) ''a''
         = Some e \<and> unat (hit_count e) = 2 \<and> hit_sum e = 3 / 2"
proof -
  let ?xs = "[(''a'', 1 / 2), (''b'', 1), (''a'', 2), (''a'', 1)] :: hit_sample list"
  obtain e where e: "sse_cache_hit_rates (record_samples ?xs stats_default) ''a'' = Some e"
    by (simp add: record_samples_def record_sse_cache_hit_rate_def stats_default_def Let_def)
  from cache_hit_rate_average[OF _ e] show ?thesis
    using e by (simp add: sample_valid_def)
qed

text \<open>What the snapshots of provider \<open>p\<close> report in \<open>field\<close>, oldest first.\<close>

definition reported ::
    "(rate_limit_snapshot \<Rightarrow> i64 option) \<Rightarrow> string \<Rightarrow> (string \<times> rate_limit_snapshot) list \<Rightarrow> i64 list" where
  "reported field p xs = List.map_filter (\<lambda>(q, x). if q = p then field x else None) xs"

text \<open>
  Rate-limit gauges. After any run of response snapshots, a gauge of a provider holds the
  last value that provider reported for it, and its earlier value if none was reported:
  absent headers and the other providers' responses never erase it.
\<close>

theorem rate_limit_last_reported:
  assumes "field \<in> {remaining_requests, remaining_tokens, remaining_input_tokens,
                    remaining_output_tokens}"
  shows "gauge field (fold (\<lambda>(q, x). record_rate_limit_snapshot q x) xs s) p =
    (if reported field p xs = [] then gauge field s p else Some (last (reported field p xs)))"
proof (induction xs rule: rev_induct)
  case Nil
  then show ?case by (simp add: reported_def List.map_filter_simps)
next
  case (snoc x xs)
  have "reported field p (xs @ [x]) = reported field p xs @ reported field p [x]"
    by (simp add: reported_def List.map_filter_def)
  moreover have "reported field p [x] =
      (if fst x = p then case field (snd x) of None \<Rightarrow> [] | Some v \<Rightarrow> [v] else [])"
    by (auto simp: reported_def List.map_filter_simps split: prod.splits option.splits)
  ultimately show ?case
    using snoc record_rate_limit_gauges[OF assms, of "fst x" "snd x"]
    by (auto simp: case_prod_unfold split: option.splits)
qed

theorem rate_limit_last_reported_witness:
  "gauge remaining_tokens
     (fold (\<lambda>(q, x). record_rate_limit_snapshot q x)
       [(''openai'', rate_limit_default\<lparr>remaining_tokens := Some 7\<rparr>),
        (''openai'', rate_limit_default\<lparr>remaining_requests := Some 3\<rparr>)] stats_default) ''openai'' = Some 7"
  by (subst rate_limit_last_reported) (simp_all add: reported_def List.map_filter_simps rate_limit_default_def)

end
