(* ===== verification/Ccr.thy ===== *)
theory Ccr
  imports Stats
begin

text \<open>
  The CCR store of \<open>src/ccr.rs\<close>: hashes and markers, the trait \<open>CcrStore\<close> as a table of
  operations, its SQLite implementation as a table of rows, and the expansion of markers.
  SHA-256 is the argument \<open>sha256\<close>, the clock the argument \<open>now\<close>, and the failures of the
  database engine and of the connection lock are part of the store's state.
\<close>

section \<open>Hashes and markers\<close>

definition HASH_HEX_LEN :: nat where
  "HASH_HEX_LEN = 24"

definition content_hash :: "(string \<Rightarrow> string) \<Rightarrow> string \<Rightarrow> string" where
  "content_hash sha256 input = hex_string (take (HASH_HEX_LEN div 2) (sha256 input))"

definition marker_for_hash :: "string \<Rightarrow> string" where
  "marker_for_hash hash = ''<<ccr:'' @ hash @ ''>>''"

text \<open>The documented size of a SHA-256 digest.\<close>

definition digest_ok :: "(string \<Rightarrow> string) \<Rightarrow> bool" where
  "digest_ok sha256 \<longleftrightarrow> (\<forall>x. length (sha256 x) = 32)"

lemma content_hash_length: "digest_ok sha256 \<Longrightarrow> length (content_hash sha256 x) = HASH_HEX_LEN"
  by (simp add: content_hash_def digest_ok_def HASH_HEX_LEN_def)

lemma content_hash_lower: "c \<in> set (content_hash sha256 x) \<Longrightarrow> is_lower_hexdigit c"
  unfolding content_hash_def by (rule hex_string_lower)

lemma content_hash_ascii: "is_ascii (content_hash sha256 x)"
  by (auto simp: is_ascii_def is_lower_hexdigit_def dest!: content_hash_lower)

section \<open>The trait CcrStore\<close>

text \<open>A \<open>&dyn CcrStore\<close>: its method table, over a state of type \<open>'s\<close>.\<close>

record 's ccr_store_ops =
  put_op :: "string \<Rightarrow> string \<Rightarrow> 's \<Rightarrow> (hr_error + bool) \<times> 's"
  get_op :: "string \<Rightarrow> 's \<Rightarrow> hr_error + string option"
  count_op :: "'s \<Rightarrow> hr_error + u64"

text \<open>
  What the clients rely on: a store is a map from hashes to originals in which an entry,
  once written, stays; \<open>get\<close> answers from the map or fails; \<open>put\<close> reports whether it
  inserted. A failed \<open>put\<close> changes nothing.
\<close>

locale ccr_store =
  fixes ops :: "'s ccr_store_ops"
    and entries :: "'s \<Rightarrow> string \<rightharpoonup> string"
    and sound :: "'s \<Rightarrow> bool"
  assumes put_new [laws]:
      "sound s \<Longrightarrow> put_op ops h t s = (Inr True, s') \<Longrightarrow>
         entries s h = None \<and> entries s' = (entries s)(h \<mapsto> t) \<and> sound s'"
    and put_old [laws]:
      "sound s \<Longrightarrow> put_op ops h t s = (Inr False, s') \<Longrightarrow>
         entries s h \<noteq> None \<and> entries s' = entries s \<and> sound s'"
    and put_err [laws]:
      "sound s \<Longrightarrow> put_op ops h t s = (Inl e, s') \<Longrightarrow> entries s' = entries s \<and> sound s'"
    and get_ok [laws]:
      "sound s \<Longrightarrow> get_op ops h s = Inr v \<Longrightarrow> v = entries s h"
begin

lemma put_cases:
  assumes "sound s" "put_op ops h t s = (r, s')"
  obtains (inserted) "r = Inr True" "entries s h = None" "entries s' = (entries s)(h \<mapsto> t)" "sound s'"
    | (present) v where "r = Inr False" "entries s h = Some v" "entries s' = entries s" "sound s'"
    | (failed) e where "r = Inl e" "entries s' = entries s" "sound s'"
proof (cases r)
  case (Inl e)
  then show ?thesis using put_err[of s h t e s'] assms failed by simp
next
  case (Inr b)
  show ?thesis
  proof (cases b)
    case True
    then show ?thesis using put_new[of s h t s'] assms Inr inserted by simp
  next
    case False
    then show ?thesis using put_old[of s h t s'] assms Inr present by auto
  qed
qed

lemma put_sound: "sound s \<Longrightarrow> put_op ops h t s = (r, s') \<Longrightarrow> sound s'"
  by (erule (1) put_cases)

lemma put_extends: "sound s \<Longrightarrow> put_op ops h t s = (r, s') \<Longrightarrow> entries s \<subseteq>\<^sub>m entries s'"
  by (erule (1) put_cases) (auto simp: map_le_def)

lemma put_stores: "sound s \<Longrightarrow> put_op ops h t s = (Inr b, s') \<Longrightarrow> entries s' h \<noteq> None"
  by (erule (1) put_cases) auto

end

text \<open>
  The weaker contract of a store that others write to, too, at any time: the map only grows,
  a \<open>put\<close> that succeeds leaves an entry under its hash, and an entry that is new is the
  one put here or a text under its content hash.
\<close>

locale growing_store =
  fixes ops :: "'s ccr_store_ops"
    and entries :: "'s \<Rightarrow> string \<rightharpoonup> string"
    and sound :: "'s \<Rightarrow> bool"
    and sha256 :: "string \<Rightarrow> string"
  assumes grow_sound: "sound s \<Longrightarrow> put_op ops h t s = (r, s') \<Longrightarrow> sound s'"
    and grow_extends: "sound s \<Longrightarrow> put_op ops h t s = (r, s') \<Longrightarrow> entries s \<subseteq>\<^sub>m entries s'"
    and grow_stores: "sound s \<Longrightarrow> put_op ops h t s = (Inr b, s') \<Longrightarrow> entries s' h \<noteq> None"
    and grow_origin: "sound s \<Longrightarrow> put_op ops h t s = (r, s') \<Longrightarrow> entries s' k = Some x \<Longrightarrow>
      entries s k = Some x \<or> (k, x) = (h, t) \<or> k = content_hash sha256 x"

sublocale ccr_store \<subseteq> growing_store ops entries sound sha256 for sha256
proof unfold_locales
  fix s s' h t r k x
  assume s: "sound s" and put: "put_op ops h t s = (r, s')"
  show "sound s'" "entries s \<subseteq>\<^sub>m entries s'" using put_sound[OF s put] put_extends[OF s put] .
  assume "entries s' k = Some x"
  then show "entries s k = Some x \<or> (k, x) = (h, t) \<or> k = content_hash sha256 x"
    by (cases rule: put_cases[OF s put]) (auto split: if_splits)
qed (rule put_stores)

section \<open>SqliteStore\<close>

datatype sql_statement = SqlCreate | SqlInsert | SqlUpdate | SqlSelect | SqlCount

record ccr_row =
  row_original :: string
  row_bytes :: i64
  row_tokens :: i64
  created_at :: i64
  last_seen_at :: i64

text \<open>
  The table \<open>ccr_entries\<close> with its primary key \<open>hash\<close>, whether the connection lock is
  poisoned, and the statements the engine refuses, with its message.
\<close>

record sqlite_store =
  rows :: "(string \<times> ccr_row) list"
  lock_poisoned :: bool
  sql_fails :: "sql_statement \<Rightarrow> hr_error option"

definition estimate_tokens :: "string \<Rightarrow> nat" where
  "estimate_tokens input =
     max (max ((length (chars input) + 3) div 4) (length (split_whitespace input))) 1"

definition LOCK_POISONED :: hr_error where
  "LOCK_POISONED = ''sqlite connection lock poisoned''"

definition touch_row :: "i64 \<Rightarrow> string \<Rightarrow> (string \<times> ccr_row) list \<Rightarrow> (string \<times> ccr_row) list" where
  "touch_row now hash rs =
     map (\<lambda>(h, r). (h, if h = hash then r\<lparr>last_seen_at := now\<rparr> else r)) rs"

definition sqlite_put ::
    "i64 \<Rightarrow> string \<Rightarrow> string \<Rightarrow> sqlite_store \<Rightarrow> (hr_error + bool) \<times> sqlite_store" where
  "sqlite_put now hash text st =
     (if lock_poisoned st then (Inl LOCK_POISONED, st)
      else case sql_fails st SqlInsert of
        Some e \<Rightarrow> (Inl e, st)
      | None \<Rightarrow>
          let changed = (if map_of (rows st) hash = None then 1 else 0 :: nat);
              st' = (if changed = 0 then st
                     else st\<lparr>rows := rows st @ [(hash,
                       \<lparr>row_original = text, row_bytes = int (length text),
                        row_tokens = int (estimate_tokens text),
                        created_at = now, last_seen_at = now\<rparr>)]\<rparr>)
          in if changed = 0 then
               (case sql_fails st' SqlUpdate of
                  Some e \<Rightarrow> (Inl e, st')
                | None \<Rightarrow> (Inr (changed > 0), st'\<lparr>rows := touch_row now hash (rows st')\<rparr>))
             else (Inr (changed > 0), st'))"

definition sqlite_get :: "string \<Rightarrow> sqlite_store \<Rightarrow> hr_error + string option" where
  "sqlite_get hash st =
     (if lock_poisoned st then Inl LOCK_POISONED
      else case sql_fails st SqlSelect of
        Some e \<Rightarrow> Inl e
      | None \<Rightarrow> Inr (map_option row_original (map_of (rows st) hash)))"

definition sqlite_count :: "sqlite_store \<Rightarrow> hr_error + u64" where
  "sqlite_count st =
     (if lock_poisoned st then Inl LOCK_POISONED
      else case sql_fails st SqlCount of
        Some e \<Rightarrow> Inl e
      | None \<Rightarrow> Inr (of_nat (length (rows st))))"

text \<open>
  \<open>SqliteStore::init\<close> creates the table unless it is there; \<open>connection\<close> is the database just
  opened, with the rows it has.
\<close>

definition sqlite_init :: "sqlite_store \<Rightarrow> hr_error + sqlite_store" where
  "sqlite_init connection =
     (if lock_poisoned connection then Inl LOCK_POISONED
      else case sql_fails connection SqlCreate of
        Some e \<Rightarrow> Inl e
      | None \<Rightarrow> Inr connection)"

text \<open>\<open>SqliteStore::in_memory\<close> on an engine that works.\<close>

definition sqlite_in_memory :: sqlite_store where
  "sqlite_in_memory = \<lparr>rows = [], lock_poisoned = False, sql_fails = (\<lambda>_. None)\<rparr>"

lemma sqlite_in_memory_init: "sqlite_init sqlite_in_memory = Inr sqlite_in_memory"
  by (simp add: sqlite_init_def sqlite_in_memory_def)

definition sqlite_ops :: "i64 \<Rightarrow> sqlite_store ccr_store_ops" where
  "sqlite_ops now = \<lparr>put_op = sqlite_put now, get_op = sqlite_get, count_op = sqlite_count\<rparr>"

definition sqlite_entries :: "sqlite_store \<Rightarrow> string \<rightharpoonup> string" where
  "sqlite_entries st h = map_option row_original (map_of (rows st) h)"

text \<open>The primary key, and the byte and token columns agreeing with the original.\<close>

definition sqlite_sound :: "sqlite_store \<Rightarrow> bool" where
  "sqlite_sound st \<longleftrightarrow> distinct (map fst (rows st))
     \<and> (\<forall>(h, r) \<in> set (rows st). row_bytes r = int (length (row_original r))
          \<and> row_tokens r = int (estimate_tokens (row_original r)))"

lemma map_of_touch_row:
  "map_of (touch_row now hash rs) h =
     (case map_of rs h of None \<Rightarrow> None
      | Some r \<Rightarrow> Some (if h = hash then r\<lparr>last_seen_at := now\<rparr> else r))"
  by (induction rs) (auto simp: touch_row_def)

lemma fst_touch_row: "map fst (touch_row now hash rs) = map fst rs"
  by (induction rs) (auto simp: touch_row_def)

lemma sqlite_put_fields:
  "sqlite_put now h t st = (r, st') \<Longrightarrow> lock_poisoned st' = lock_poisoned st \<and> sql_fails st' = sql_fails st"
  by (auto simp: sqlite_put_def Let_def split: if_splits option.splits)

lemma touch_row_sound:
  "sqlite_sound st \<Longrightarrow> sqlite_sound (st\<lparr>rows := touch_row now h (rows st)\<rparr>)"
  by (auto simp: sqlite_sound_def fst_touch_row) (auto simp: touch_row_def split: if_splits)

lemma sqlite_sound_insert:
  assumes "sqlite_sound st" "map_of (rows st) h = None"
    and "row_bytes r = int (length (row_original r))" "row_tokens r = int (estimate_tokens (row_original r))"
  shows "sqlite_sound (st\<lparr>rows := rows st @ [(h, r)]\<rparr>)"
  using assms by (auto simp: sqlite_sound_def map_of_eq_None_iff)

lemma sqlite_entries_touch [simp]:
  "sqlite_entries (st\<lparr>rows := touch_row now h (rows st)\<rparr>) = sqlite_entries st"
  by (auto simp: sqlite_entries_def map_of_touch_row fun_eq_iff split: option.splits)

interpretation sqlite: ccr_store "sqlite_ops now" sqlite_entries sqlite_sound for now
proof
  fix s s' :: sqlite_store and h t
  assume s: "sqlite_sound s"
  show "sqlite_entries s h = None \<and> sqlite_entries s' = (sqlite_entries s)(h \<mapsto> t) \<and> sqlite_sound s'"
    if "put_op (sqlite_ops now) h t s = (Inr True, s')"
    using that s
    by (auto simp: sqlite_ops_def sqlite_put_def Let_def sqlite_entries_def fun_eq_iff map_add_Some_iff
        map_add_def intro!: sqlite_sound_insert split: if_splits option.splits)
  show "sqlite_entries s h \<noteq> None \<and> sqlite_entries s' = sqlite_entries s \<and> sqlite_sound s'"
    if "put_op (sqlite_ops now) h t s = (Inr False, s')"
    using that s
    by (auto simp: sqlite_ops_def sqlite_put_def Let_def intro: touch_row_sound
        split: if_splits option.splits) (auto simp: sqlite_entries_def)
  show "sqlite_entries s' = sqlite_entries s \<and> sqlite_sound s'"
    if "put_op (sqlite_ops now) h t s = (Inl e, s')" for e
    using that s
    by (auto simp: sqlite_ops_def sqlite_put_def Let_def split: if_splits option.splits)
  show "v = sqlite_entries s h" if "get_op (sqlite_ops now) h s = Inr v" for v
    using that by (auto simp: sqlite_ops_def sqlite_get_def sqlite_entries_def split: if_splits option.splits)
qed

section \<open>Decompression\<close>

text \<open>The store and the process-global counters the library functions work on.\<close>

record 's world =
  the_store :: 's
  the_stats :: stats

definition decompress_hash ::
    "'s ccr_store_ops \<Rightarrow> string \<Rightarrow> 's world \<Rightarrow> string option \<times> 's world" where
  "decompress_hash ops hash w =
     (case get_op ops hash (the_store w) of
        Inr (Some value) \<Rightarrow> (Some value, w\<lparr>the_stats := record_decompress_hit (the_stats w)\<rparr>)
      | _ \<Rightarrow> (None, w\<lparr>the_stats := record_decompress_miss (the_stats w)\<rparr>))"

text \<open>
  \<open>MARKER_RE\<close>, \<open><<ccr:([A-Fa-f0-9]{24,64})>>\<close>, anchored at the head of the text: the
  repetition is greedy and \<open>>\<close> is no digit, so the group is the whole run of digits.
\<close>

definition match_marker :: "string \<Rightarrow> string option" where
  "match_marker s =
     (case strip_prefix ''<<ccr:'' s of
        None \<Rightarrow> None
      | Some rest \<Rightarrow>
          let hash = takeWhile is_ascii_hexdigit rest
          in if 24 \<le> length hash \<and> length hash \<le> 64 \<and> starts_with ''>>'' (drop (length hash) rest)
             then Some hash else None)"

definition marker_length :: "string \<Rightarrow> nat" where
  "marker_length hash = length hash + 8"

text \<open>
  \<open>captures_iter\<close>: the leftmost matches, left to right and not overlapping, as start, end
  and captured hash. \<open>skip\<close> counts the bytes of the last match still to pass.
\<close>

fun marker_matches :: "nat \<Rightarrow> nat \<Rightarrow> string \<Rightarrow> (nat \<times> nat \<times> string) list" where
  "marker_matches pos skip [] = []"
| "marker_matches pos (Suc skip) (c # cs) = marker_matches (Suc pos) skip cs"
| "marker_matches pos 0 (c # cs) =
     (case match_marker (c # cs) of
        None \<Rightarrow> marker_matches (Suc pos) 0 cs
      | Some hash \<Rightarrow>
          (pos, pos + marker_length hash, hash)
            # marker_matches (Suc pos) (marker_length hash - 1) cs)"

record decompress_result =
  dr_output :: string
  dr_hits :: nat
  dr_misses :: nat
  dr_missing_hashes :: "string list"

definition slice_of :: "string \<Rightarrow> nat \<Rightarrow> nat \<Rightarrow> string" where
  "slice_of s i j = take (j - i) (drop i s)"

fun decompress_loop ::
    "'s ccr_store_ops \<Rightarrow> string \<Rightarrow> (nat \<times> nat \<times> string) list \<Rightarrow> nat \<Rightarrow> decompress_result
       \<Rightarrow> 's world \<Rightarrow> nat \<times> decompress_result \<times> 's world" where
  "decompress_loop ops text [] cursor r w = (cursor, r, w)"
| "decompress_loop ops text ((start, stop, hash) # ms) cursor r w =
     (let r = r\<lparr>dr_output := dr_output r @ slice_of text cursor start\<rparr> in
      case decompress_hash ops hash w of
        (Some original, w) \<Rightarrow>
          decompress_loop ops text ms stop
            (r\<lparr>dr_output := dr_output r @ original, dr_hits := dr_hits r + 1\<rparr>) w
      | (None, w) \<Rightarrow>
          decompress_loop ops text ms stop
            (r\<lparr>dr_output := dr_output r @ slice_of text start stop, dr_misses := dr_misses r + 1,
               dr_missing_hashes := dr_missing_hashes r @ [hash]\<rparr>) w)"

definition decompress_text ::
    "'s ccr_store_ops \<Rightarrow> string \<Rightarrow> 's world \<Rightarrow> decompress_result \<times> 's world" where
  "decompress_text ops text w =
     (let r = \<lparr>dr_output = [], dr_hits = 0, dr_misses = 0, dr_missing_hashes = []\<rparr>;
          (cursor, r, w) = decompress_loop ops text (marker_matches 0 0 text) 0 r w
      in (r\<lparr>dr_output := dr_output r @ drop cursor text\<rparr>, w))"

section \<open>Properties\<close>

subsection \<open>Matching one marker\<close>

lemma match_marker_Some:
  assumes "match_marker s = Some h"
  shows "\<exists>rest. s = marker_for_hash h @ rest" "24 \<le> length h" "length h \<le> 64"
    "\<forall>c \<in> set h. is_ascii_hexdigit c"
proof -
  from assms obtain rest where rest: "s = ''<<ccr:'' @ rest" and h: "h = takeWhile is_ascii_hexdigit rest"
    and len: "24 \<le> length h" "length h \<le> 64" and tail: "starts_with ''>>'' (drop (length h) rest)"
    by (auto simp: match_marker_def Let_def strip_prefix_Some split: option.splits if_splits)
  have "rest = h @ drop (length h) rest"
    unfolding h by (metis takeWhile_eq_take append_take_drop_id)
  with tail rest show "\<exists>rest. s = marker_for_hash h @ rest"
    by (auto simp: marker_for_hash_def starts_with_iff)
  show "24 \<le> length h" "length h \<le> 64" by fact+
  show "\<forall>c \<in> set h. is_ascii_hexdigit c" unfolding h by (auto dest: set_takeWhileD)
qed

lemma match_marker_marker:
  assumes "24 \<le> length h" "length h \<le> 64" "\<forall>c \<in> set h. is_ascii_hexdigit c"
  shows "match_marker (marker_for_hash h @ rest) = Some h"
proof -
  have stop: "\<not> is_ascii_hexdigit (CHR ''>'')" by (simp add: is_ascii_hexdigit_def byte_def)
  have "takeWhile is_ascii_hexdigit (h @ ''>>'' @ rest) = h"
    using assms(3) stop by (simp add: takeWhile_append2)
  moreover have "strip_prefix ''<<ccr:'' (marker_for_hash h @ rest) = Some (h @ ''>>'' @ rest)"
    by (simp add: strip_prefix_Some marker_for_hash_def)
  ultimately show ?thesis using assms
    by (simp add: match_marker_def Let_def starts_with_def)
qed

lemma length_marker [simp]: "length (marker_for_hash h) = marker_length h"
  by (simp add: marker_for_hash_def marker_length_def)

lemma match_marker_length: "match_marker s = Some h \<Longrightarrow> marker_length h \<le> length s"
  by (drule match_marker_Some(1)) auto

lemma match_marker_take: "match_marker s = Some h \<Longrightarrow> take (marker_length h) s = marker_for_hash h"
  by (drule match_marker_Some(1)) auto

subsection \<open>Specification: markers replaced by what the store holds\<close>

fun expand :: "(string \<rightharpoonup> string) \<Rightarrow> nat \<Rightarrow> string \<Rightarrow> string" where
  "expand m skip [] = []"
| "expand m (Suc skip) (c # cs) = expand m skip cs"
| "expand m 0 (c # cs) =
     (case match_marker (c # cs) of
        None \<Rightarrow> c # expand m 0 cs
      | Some hash \<Rightarrow>
          (case m hash of Some t \<Rightarrow> t | None \<Rightarrow> marker_for_hash hash)
            @ expand m (marker_length hash - 1) cs)"

text \<open>A store whose lookups never fail.\<close>

definition reads_ok :: "'s ccr_store_ops \<Rightarrow> (string \<rightharpoonup> string) \<Rightarrow> 's \<Rightarrow> bool" where
  "reads_ok ops m s \<longleftrightarrow> (\<forall>h. get_op ops h s = Inr (m h))"

lemma decompress_hash_reads:
  "reads_ok ops m (the_store w) \<Longrightarrow>
     fst (decompress_hash ops h w) = m h \<and> the_store (snd (decompress_hash ops h w)) = the_store w"
  by (auto simp: reads_ok_def decompress_hash_def split: option.splits)

lemma slice_of_pos: "text = pre @ suf \<Longrightarrow> slice_of text (length pre) (length pre + n) = take n suf"
  by (simp add: slice_of_def)

lemma slice_of_extend:
  assumes "text = pre @ c # cs" "cursor \<le> length pre"
  shows "slice_of text cursor (Suc (length pre)) = slice_of text cursor (length pre) @ [c]"
  using assms by (auto simp: slice_of_def Suc_diff_le take_Suc_conv_app_nth nth_append)

lemma decompress_loop_expand:
  assumes "reads_ok ops m (the_store w)" "text = pre @ suf" "pos = length pre"
    and "if skip = 0 then cursor \<le> pos else cursor = pos + skip" "skip \<le> length suf"
    and "decompress_loop ops text (marker_matches pos skip suf) cursor r w = (cursor', r', w')"
  shows "dr_output r' @ drop cursor' text = dr_output r @ slice_of text cursor pos @ expand m skip suf"
  using assms
proof (induction pos skip suf arbitrary: pre cursor r w rule: marker_matches.induct)
  case (1 pos skip)
  then show ?case by (simp add: slice_of_def)
next
  case (2 pos skip c cs)
  have "dr_output r' @ drop cursor' text
      = dr_output r @ slice_of text cursor (Suc pos) @ expand m skip cs"
    using "2.prems" by (intro 2(1)[of w "pre @ [c]"]) (auto split: if_splits)
  then show ?case using "2.prems"(4) by (simp add: slice_of_def)
next
  case (3 pos c cs)
  note [simp] = "3.prems"(2,3)
  show ?case
  proof (cases "match_marker (c # cs)")
    case None
    have "dr_output r' @ drop cursor' text
        = dr_output r @ slice_of text cursor (Suc pos) @ expand m 0 cs"
      using "3.prems" None by (intro 3(1)[of w "pre @ [c]"]) auto
    then show ?thesis
      using None "3.prems"(4) slice_of_extend[of "text" pre c cs cursor] by simp
  next
    case (Some h)
    note len = match_marker_length[OF Some]
    obtain v w1 where d: "decompress_hash ops h w = (v, w1)" by fastforce
    with decompress_hash_reads[OF "3.prems"(1), of h]
    have v: "v = m h" and w1: "reads_ok ops m (the_store w1)" using "3.prems"(1) by auto
    have cut: "slice_of text pos (pos + marker_length h) = marker_for_hash h"
      using slice_of_pos[of "text" pre "c # cs"] match_marker_take[OF Some] by simp
    define r1 where "r1 = (case v of
        Some t \<Rightarrow> r\<lparr>dr_output := dr_output r @ slice_of text cursor pos @ t, dr_hits := dr_hits r + 1\<rparr>
      | None \<Rightarrow> r\<lparr>dr_output := dr_output r @ slice_of text cursor pos @ marker_for_hash h,
           dr_misses := dr_misses r + 1, dr_missing_hashes := dr_missing_hashes r @ [h]\<rparr>)"
    have "decompress_loop ops text (marker_matches (Suc pos) (marker_length h - 1) cs)
            (pos + marker_length h) r1 w1 = (cursor', r', w')"
      using "3.prems"(6) Some d cut by (simp add: r1_def Let_def split: option.splits)
    then have "dr_output r' @ drop cursor' text
        = dr_output r1 @ slice_of text (pos + marker_length h) (Suc pos)
            @ expand m (marker_length h - 1) cs"
      using len w1 by (intro 3(2)[OF Some, of w1 "pre @ [c]"]) (auto simp: marker_length_def)
    then show ?thesis
      using Some v by (simp add: r1_def slice_of_def marker_length_def split: option.splits)
  qed
qed

lemma decompress_text_expand:
  assumes "reads_ok ops m (the_store w)"
  shows "dr_output (fst (decompress_text ops text w)) = expand m 0 text"
proof -
  let ?r = "\<lparr>dr_output = [], dr_hits = 0, dr_misses = 0, dr_missing_hashes = []\<rparr>"
  obtain c' r' w' where loop:
    "decompress_loop ops text (marker_matches 0 0 text) 0 ?r w = (c', r', w')"
    by (metis prod_cases3)
  have "dr_output r' @ drop c' text = expand m 0 text"
    using decompress_loop_expand[OF assms _ _ _ _ loop, of "[]"] by (simp add: slice_of_def)
  with loop show ?thesis by (simp add: decompress_text_def)
qed

subsection \<open>Markers in context\<close>

lemma expand_marker:
  assumes "24 \<le> length h" "length h \<le> 64" "\<forall>c \<in> set h. is_ascii_hexdigit c"
  shows "expand m 0 (marker_for_hash h @ rest) =
     (case m h of Some t \<Rightarrow> t | None \<Rightarrow> marker_for_hash h) @ expand m 0 rest"
proof -
  have skip: "expand m (length xs) (xs @ rest) = expand m 0 rest" for xs
    by (induction xs) auto
  obtain c cs where c: "marker_for_hash h = c # cs" "length cs = marker_length h - 1"
    by (cases "marker_for_hash h") (auto simp: marker_for_hash_def marker_length_def)
  with match_marker_marker[OF assms, of rest] skip[of cs] show ?thesis
    by (simp add: c)
qed

text \<open>No match starts inside a text that holds no marker prefix, whatever follows it.\<close>

lemma no_marker_inside:
  assumes "\<not> contains ''<<ccr:'' u" "u \<noteq> []"
    and "v = [] \<or> (\<exists>w. v = ''<<'' @ w)"
  shows "match_marker (u @ v) = None"
proof (rule ccontr)
  assume "match_marker (u @ v) \<noteq> None"
  then obtain h where "match_marker (u @ v) = Some h" by auto
  then obtain r where "u @ v = ''<<ccr:'' @ h @ ''>>'' @ r" and h: "24 \<le> length h"
    by (metis match_marker_Some(1,2) marker_for_hash_def append_assoc)
  then have uv: "u @ v = ''<<ccr:'' @ (h @ ''>>'' @ r)" by simp
  show False
  proof (cases "length u < 6")
    case False
    then have "take 6 u = ''<<ccr:''"
      using arg_cong[OF uv, of "take 6"] by simp
    then show False using assms(1) contains_iff[of "''<<ccr:''" u]
      by (metis append_Nil append_take_drop_id)
  next
    case True
    then have "v \<noteq> []" using arg_cong[OF uv, of length] h by auto
    with assms(3) obtain w where v: "v = CHR ''<'' # CHR ''<'' # w" by auto
    from assms(2) have "length u \<noteq> 0" by simp
    with True have "length u = 1 \<or> length u = 2 \<or> length u = 3 \<or> length u = 4 \<or> length u = 5"
      by presburger
    then show False using uv v
      by (auto simp: length_Suc_conv numeral_eq_Suc)
  qed
qed

lemma expand_plain:
  assumes "\<not> contains ''<<ccr:'' u" "v = [] \<or> (\<exists>w. v = ''<<'' @ w)"
  shows "expand m 0 (u @ v) = u @ expand m 0 v"
  using assms(1)
proof (induction u)
  case (Cons c cs)
  have "match_marker ((c # cs) @ v) = None"
    using Cons.prems assms(2) by (intro no_marker_inside) auto
  then show ?case using Cons by simp
qed simp

corollary expand_no_marker: "\<not> contains ''<<ccr:'' u \<Longrightarrow> expand m 0 u = u"
  using expand_plain[of u "[]" m] by simp

lemma expand_in_context:
  assumes "\<not> contains ''<<ccr:'' u" "\<not> contains ''<<ccr:'' v"
    and "24 \<le> length h" "length h \<le> 64" "\<forall>c \<in> set h. is_ascii_hexdigit c" "m h = Some t"
  shows "expand m 0 (u @ marker_for_hash h @ v) = u @ t @ v"
proof -
  have "expand m 0 (u @ marker_for_hash h @ v) = u @ expand m 0 (marker_for_hash h @ v)"
    by (rule expand_plain[OF assms(1)]) (auto simp: marker_for_hash_def)
  then show ?thesis
    using expand_marker[OF assms(3-5), of m v] expand_no_marker[OF assms(2)] assms(6) by simp
qed

subsection \<open>What a decompression counts\<close>

text \<open>The hashes of the markers of a text, in order, and those a store knows or does not.\<close>

definition marker_hashes :: "string \<Rightarrow> string list" where
  "marker_hashes t = map (snd \<circ> snd) (marker_matches 0 0 t)"

abbreviation known_hashes :: "(string \<rightharpoonup> string) \<Rightarrow> string list \<Rightarrow> string list" where
  "known_hashes m \<equiv> filter (\<lambda>h. m h \<noteq> None)"

abbreviation unknown_hashes :: "(string \<rightharpoonup> string) \<Rightarrow> string list \<Rightarrow> string list" where
  "unknown_hashes m \<equiv> filter (\<lambda>h. m h = None)"

definition count_lookups :: "nat \<Rightarrow> nat \<Rightarrow> stats \<Rightarrow> stats" where
  "count_lookups hits misses s = s\<lparr>decompress_hits := decompress_hits s + of_nat hits,
     decompress_misses := decompress_misses s + of_nat misses\<rparr>"

lemma decompress_hash_result:
  assumes "reads_ok ops m (the_store w)"
  shows "decompress_hash ops h w = (m h, w\<lparr>the_stats :=
    (if m h = None then count_lookups 0 1 (the_stats w) else count_lookups 1 0 (the_stats w))\<rparr>)"
proof -
  have "get_op ops h (the_store w) = Inr (m h)" using assms by (simp add: reads_ok_def)
  then show ?thesis
    by (cases "m h") (simp_all add: decompress_hash_def count_lookups_def record_decompress_hit_def
        record_decompress_miss_def)
qed

lemma count_lookups_add:
  "count_lookups a b (count_lookups c d s) = count_lookups (a + c) (b + d) s"
  by (simp add: count_lookups_def algebra_simps)

lemma decompress_loop_counts:
  assumes "reads_ok ops m (the_store w)" "decompress_loop ops text ms cursor r w = (cursor', r', w')"
  shows "dr_hits r' = dr_hits r + length (known_hashes m (map (snd \<circ> snd) ms))
    \<and> dr_misses r' = dr_misses r + length (unknown_hashes m (map (snd \<circ> snd) ms))
    \<and> dr_missing_hashes r' = dr_missing_hashes r @ unknown_hashes m (map (snd \<circ> snd) ms)
    \<and> w' = w\<lparr>the_stats := count_lookups (length (known_hashes m (map (snd \<circ> snd) ms)))
        (length (unknown_hashes m (map (snd \<circ> snd) ms))) (the_stats w)\<rparr>"
  using assms
proof (induction ms arbitrary: cursor r w)
  case Nil
  then show ?case by (simp add: count_lookups_def)
next
  case (Cons x ms)
  obtain start stop h where x: "x = (start, stop, h)" by (cases x)
  define w1 where "w1 = w\<lparr>the_stats :=
    (if m h = None then count_lookups 0 1 (the_stats w) else count_lookups 1 0 (the_stats w))\<rparr>"
  have d: "decompress_hash ops h w = (m h, w1)"
    using decompress_hash_result[OF Cons.prems(1)] by (simp add: w1_def)
  have ok: "reads_ok ops m (the_store w1)" using Cons.prems(1) by (simp add: w1_def)
  show ?case
  proof (cases "m h")
    case None
    from Cons.IH[OF ok] Cons.prems(2) x d None show ?thesis
      by (simp add: Let_def w1_def count_lookups_add)
  next
    case (Some t)
    from Cons.IH[OF ok] Cons.prems(2) x d Some show ?thesis
      by (simp add: Let_def w1_def count_lookups_add)
  qed
qed

lemma marker_matches_hashes:
  "(i, j, h) \<in> set (marker_matches pos skip s) \<Longrightarrow>
     24 \<le> length h \<and> length h \<le> 64 \<and> (\<forall>c \<in> set h. is_ascii_hexdigit c)"
proof (induction pos skip s rule: marker_matches.induct)
  case (3 pos c cs)
  then show ?case
    by (auto dest: match_marker_Some split: option.splits)
qed auto

text \<open>
  C11: Decompression refines its specification. On a SQLite store that can be read, the
  output is the text with every marker the store knows replaced by its original and every
  other byte, unknown markers included, kept. The hits reported are the markers whose hash
  the store knows, the misses those it does not; the missing hashes are exactly the latter,
  in their order and as often as they occur, each 24 to 64 hexadecimal digits. The process
  counters grow by the same numbers, and the store is not touched.
\<close>

theorem decompress_text_refines:
  assumes "\<not> lock_poisoned (the_store w)" "sql_fails (the_store w) SqlSelect = None"
    and "decompress_text (sqlite_ops now) text w = (r, w')"
  shows "dr_output r = expand (sqlite_entries (the_store w)) 0 text
    \<and> dr_hits r = length (known_hashes (sqlite_entries (the_store w)) (marker_hashes text))
    \<and> dr_misses r = length (unknown_hashes (sqlite_entries (the_store w)) (marker_hashes text))
    \<and> dr_missing_hashes r = unknown_hashes (sqlite_entries (the_store w)) (marker_hashes text)
    \<and> (\<forall>h \<in> set (dr_missing_hashes r). 24 \<le> length h \<and> length h \<le> 64 \<and> (\<forall>c \<in> set h. is_ascii_hexdigit c))
    \<and> w' = w\<lparr>the_stats := count_lookups (dr_hits r) (dr_misses r) (the_stats w)\<rparr>"
proof -
  have reads: "reads_ok (sqlite_ops now) (sqlite_entries (the_store w)) (the_store w)"
    using assms(1,2) by (simp add: reads_ok_def sqlite_ops_def sqlite_get_def sqlite_entries_def)
  let ?r = "\<lparr>dr_output = [], dr_hits = 0, dr_misses = 0, dr_missing_hashes = []\<rparr>"
  obtain c r1 w1 where loop:
    "decompress_loop (sqlite_ops now) text (marker_matches 0 0 text) 0 ?r w = (c, r1, w1)"
    by (metis prod_cases3)
  then have r: "r = r1\<lparr>dr_output := dr_output r1 @ drop c text\<rparr>" "w' = w1"
    using assms(3) by (simp_all add: decompress_text_def)
  have "\<forall>h \<in> set (marker_hashes text). 24 \<le> length h \<and> length h \<le> 64 \<and> (\<forall>c \<in> set h. is_ascii_hexdigit c)"
    using marker_matches_hashes[of _ _ _ 0 0 "text"] by (fastforce simp: marker_hashes_def)
  moreover have "dr_output r = expand (sqlite_entries (the_store w)) 0 text"
    using decompress_text_expand[OF reads, of "text"] assms(3) by simp
  ultimately show ?thesis
    using decompress_loop_counts[OF reads loop, folded marker_hashes_def] by (simp add: r(1)) (auto simp: r(2))
qed

text \<open>A store with one entry, and a text with one marker it knows and one it does not.\<close>

definition one_entry :: sqlite_store where
  "one_entry = sqlite_in_memory\<lparr>rows := [(''abcdefabcdefabcdefabcdef'',
     \<lparr>row_original = ''the text'', row_bytes = 8, row_tokens = 2, created_at = 1, last_seen_at = 1\<rparr>)]\<rparr>"

theorem decompress_text_refines_witness:
  "\<exists>r w'. decompress_text (sqlite_ops 1) ''x<<ccr:0123456789abcdef01234567>>y<<ccr:abcdefabcdefabcdefabcdef>>''
       \<lparr>the_store = one_entry, the_stats = stats_default\<rparr> = (r, w')
     \<and> dr_output r = ''x<<ccr:0123456789abcdef01234567>>ythe text'' \<and> dr_hits r = 1 \<and> dr_misses r = 1
     \<and> dr_missing_hashes r = [''0123456789abcdef01234567'']"
proof -
  let ?t = "''x<<ccr:0123456789abcdef01234567>>y<<ccr:abcdefabcdefabcdefabcdef>>''"
  let ?w = "\<lparr>the_store = one_entry, the_stats = stats_default\<rparr>"
  obtain r w' where run: "decompress_text (sqlite_ops 1) ?t ?w = (r, w')" by fastforce
  have hashes: "marker_hashes ?t = [''0123456789abcdef01234567'', ''abcdefabcdefabcdefabcdef'']"
    by code_simp
  have expanded: "expand (sqlite_entries one_entry) 0 ?t = ''x<<ccr:0123456789abcdef01234567>>ythe text''"
    by code_simp
  have entries: "sqlite_entries one_entry ''abcdefabcdefabcdefabcdef'' = Some ''the text''"
    "sqlite_entries one_entry ''0123456789abcdef01234567'' = None"
    by (simp_all add: sqlite_entries_def one_entry_def)
  have "\<not> lock_poisoned (the_store ?w)" "sql_fails (the_store ?w) SqlSelect = None"
    by (simp_all add: one_entry_def sqlite_in_memory_def)
  from decompress_text_refines[OF this run] run show ?thesis
    by (simp add: hashes expanded entries del: expand.simps marker_matches.simps)
qed

end
