(* ===== verification/Splice.thy ===== *)
theory Splice
  imports Rust_Text
begin

text \<open>
  Byte-range surgery of \<open>src/compression.rs\<close>: replacements of spans of a buffer, applied
  in one pass over the buffer. A panic (a slice out of order or out of range) is \<open>None\<close>.
\<close>

section \<open>Definitions\<close>

record replacement =
  r_start :: nat
  r_end :: nat
  r_bytes :: string

text \<open>\<open>&original[i..j]\<close>\<close>

definition slice_checked :: "string \<Rightarrow> nat \<Rightarrow> nat \<Rightarrow> string option" where
  "slice_checked s i j = (if i \<le> j \<and> j \<le> length s then Some (take (j - i) (drop i s)) else None)"

fun splice_loop :: "string \<Rightarrow> replacement list \<Rightarrow> nat \<Rightarrow> string \<Rightarrow> string option" where
  "splice_loop original [] cursor out =
     (case slice_checked original cursor (length original) of
        None \<Rightarrow> None | Some rest \<Rightarrow> Some (out @ rest))"
| "splice_loop original (r # rs) cursor out =
     (case slice_checked original cursor (r_start r) of
        None \<Rightarrow> None
      | Some gap \<Rightarrow> splice_loop original rs (r_end r) (out @ gap @ r_bytes r))"

text \<open>
  The capacity computation subtracts \<open>range.0\<close> from \<open>range.1\<close>, which panics on a reversed
  range where overflow is checked. \<open>sort_by_key\<close> is stable, as \<open>sort_key\<close> is.
\<close>

definition apply_replacements :: "string \<Rightarrow> replacement list \<Rightarrow> string option" where
  "apply_replacements original replacements =
     (let rs = sort_key r_start replacements in
      if \<exists>r \<in> set rs. r_end r < r_start r then None
      else splice_loop original rs 0 [])"

section \<open>Plans whose spans do not overlap\<close>

text \<open>
  \<open>r\<close> comes before \<open>s\<close> in the plan: it must end before \<open>s\<close> starts, or \<open>s\<close> must end before
  \<open>r\<close> and start strictly earlier (the sort is stable, so of two spans with one start the
  first planned is applied first).
\<close>

definition compatible :: "replacement \<Rightarrow> replacement \<Rightarrow> bool" where
  "compatible r s \<longleftrightarrow> r_end r \<le> r_start s \<or> (r_end s \<le> r_start r \<and> r_start s < r_start r)"

definition plan_ok :: "nat \<Rightarrow> replacement list \<Rightarrow> bool" where
  "plan_ok n rs \<longleftrightarrow> sorted_wrt compatible rs \<and> (\<forall>r \<in> set rs. r_start r \<le> r_end r \<and> r_end r \<le> n)"

abbreviation chain :: "replacement list \<Rightarrow> bool" where
  "chain \<equiv> sorted_wrt (\<lambda>r s. r_end r \<le> r_start s)"

lemma insort_chain:
  assumes "chain rs" "\<forall>s \<in> set rs. compatible r s \<and> r_start s \<le> r_end s" "r_start r \<le> r_end r"
  shows "chain (insort_key r_start r rs)"
  using assms
proof (induction rs)
  case (Cons s rs)
  show ?case
  proof (cases "r_start r \<le> r_start s")
    case True
    with Cons.prems(2) have "r_end r \<le> r_start s" by (auto simp: compatible_def)
    moreover have "r_start s \<le> r_start t" if "t \<in> set rs" for t
      using Cons.prems that by (meson le_trans list.set_intros(1) sorted_wrt.simps(2))
    ultimately show ?thesis using True Cons.prems(1) by (auto intro: le_trans)
  next
    case False
    with Cons.prems have "r_end s \<le> r_start r" by (auto simp: compatible_def)
    then show ?thesis using False Cons by (auto simp: set_insort_key)
  qed
qed simp

lemma sort_chain: "plan_ok n rs \<Longrightarrow> chain (sort_key r_start rs)"
  unfolding plan_ok_def
proof (induction rs)
  case (Cons r rs)
  then show ?case by (auto intro!: insort_chain)
qed simp

section \<open>What the surgery computes\<close>

text \<open>\<open>g\<^sub>0 b\<^sub>1 g\<^sub>1 b\<^sub>2 \<dots> b\<^sub>n g\<^sub>n\<close>\<close>

fun interleave :: "'a list list \<Rightarrow> 'a list list \<Rightarrow> 'a list" where
  "interleave (g # gs) (b # bs) = g @ b @ interleave gs bs"
| "interleave gs [] = concat gs"
| "interleave [] bs = concat bs"

text \<open>The bytes of the buffer between the spans of a chain, from \<open>cursor\<close> on.\<close>

fun gaps :: "string \<Rightarrow> nat \<Rightarrow> replacement list \<Rightarrow> string list" where
  "gaps s cursor [] = [drop cursor s]"
| "gaps s cursor (r # rs) = take (r_start r - cursor) (drop cursor s) # gaps s (r_end r) rs"

definition cut :: "string \<Rightarrow> replacement \<Rightarrow> string" where
  "cut s r = take (r_end r - r_start r) (drop (r_start r) s)"

lemma length_gaps [simp]: "length (gaps s cursor rs) = Suc (length rs)"
  by (induction rs arbitrary: cursor) auto

lemma splice_loop_chain:
  assumes "chain rs" "\<forall>r \<in> set rs. cursor \<le> r_start r \<and> r_start r \<le> r_end r \<and> r_end r \<le> length s"
    and "cursor \<le> length s"
  shows "splice_loop s rs cursor out = Some (out @ interleave (gaps s cursor rs) (map r_bytes rs))"
  using assms
proof (induction rs arbitrary: cursor out)
  case (Cons r rs)
  then have "splice_loop s rs (r_end r) (out @ take (r_start r - cursor) (drop cursor s) @ r_bytes r) =
      Some ((out @ take (r_start r - cursor) (drop cursor s) @ r_bytes r)
        @ interleave (gaps s (r_end r) rs) (map r_bytes rs))"
    by (intro Cons.IH) auto
  then show ?case using Cons.prems by (auto simp: slice_checked_def)
qed (simp add: slice_checked_def)

lemma interleave_gaps_cuts:
  assumes "chain rs" "\<forall>r \<in> set rs. cursor \<le> r_start r \<and> r_start r \<le> r_end r \<and> r_end r \<le> length s"
  shows "interleave (gaps s cursor rs) (map (cut s) rs) = drop cursor s"
  using assms
proof (induction rs arbitrary: cursor)
  case (Cons r rs)
  have "interleave (gaps s (r_end r) rs) (map (cut s) rs) = drop (r_end r) s"
    using Cons.prems by (intro Cons.IH) auto
  moreover have "cut s r @ drop (r_end r) s = drop (r_start r) s"
    using Cons.prems(2) append_take_drop_id[of "r_end r - r_start r" "drop (r_start r) s"]
    by (simp add: cut_def)
  moreover have "take (r_start r - cursor) (drop cursor s) @ drop (r_start r) s = drop cursor s"
    using Cons.prems(2) append_take_drop_id[of "r_start r - cursor" "drop cursor s"] by simp
  ultimately show ?case by simp
qed simp

lemma plan_ok_sorted:
  assumes "plan_ok n rs"
  shows "chain (sort_key r_start rs)"
    "\<forall>r \<in> set (sort_key r_start rs). 0 \<le> r_start r \<and> r_start r \<le> r_end r \<and> r_end r \<le> n"
  using sort_chain[OF assms] assms by (auto simp: plan_ok_def)

lemma apply_replacements_interleave:
  assumes "plan_ok (length s) rs"
  shows "apply_replacements s rs =
    Some (interleave (gaps s 0 (sort_key r_start rs)) (map r_bytes (sort_key r_start rs)))"
proof -
  have "\<not> (\<exists>r \<in> set (sort_key r_start rs). r_end r < r_start r)"
    using plan_ok_sorted(2)[OF assms] by fastforce
  with splice_loop_chain[OF plan_ok_sorted[OF assms], of "[]"] show ?thesis
    by (simp add: apply_replacements_def Let_def)
qed

lemma apply_replacements_Nil [simp]: "apply_replacements s [] = Some s"
  by (simp add: apply_replacements_def slice_checked_def)

section \<open>Undoing a splice\<close>

text \<open>
  The plan that restores the buffer: at the place each replacement has in the output, the
  bytes it cut out. \<open>cursor\<close> walks the buffer, \<open>pos\<close> the output.
\<close>

fun undo_plan :: "string \<Rightarrow> nat \<Rightarrow> nat \<Rightarrow> replacement list \<Rightarrow> replacement list" where
  "undo_plan s cursor pos [] = []"
| "undo_plan s cursor pos (r # rs) =
     (let start = pos + (r_start r - cursor); stop = start + length (r_bytes r)
      in \<lparr>r_start = start, r_end = stop, r_bytes = cut s r\<rparr> # undo_plan s (r_end r) stop rs)"

lemma undo_plan_bytes: "map r_bytes (undo_plan s cursor pos rs) = map (cut s) rs"
  by (induction rs arbitrary: cursor pos) (auto simp: Let_def)

lemma undo_plan_chain:
  "chain (undo_plan s cursor pos rs)
   \<and> (\<forall>u \<in> set (undo_plan s cursor pos rs). pos \<le> r_start u \<and> r_start u \<le> r_end u)"
proof (induction rs arbitrary: cursor pos)
  case (Cons r rs)
  let ?stop = "pos + (r_start r - cursor) + length (r_bytes r)"
  show ?case using Cons.IH[of "r_end r" ?stop] by (force simp: Let_def)
qed simp

lemma undo_plan_gaps:
  assumes "chain rs" "\<forall>r \<in> set rs. cursor \<le> r_start r \<and> r_start r \<le> r_end r \<and> r_end r \<le> length s"
    and "drop pos out = interleave (gaps s cursor rs) (map r_bytes rs)" "pos \<le> length out"
  shows "gaps out pos (undo_plan s cursor pos rs) = gaps s cursor rs
    \<and> (\<forall>u \<in> set (undo_plan s cursor pos rs). r_end u \<le> length out)"
  using assms
proof (induction rs arbitrary: cursor pos)
  case (Cons r rs)
  let ?gap = "take (r_start r - cursor) (drop cursor s)"
  let ?rest = "interleave (gaps s (r_end r) rs) (map r_bytes rs)"
  let ?start = "pos + (r_start r - cursor)"
  let ?stop = "?start + length (r_bytes r)"
  have len: "length ?gap = r_start r - cursor" using Cons.prems(2) by auto
  have out: "drop pos out = ?gap @ r_bytes r @ ?rest" using Cons.prems(3) by simp
  have "length (drop pos out) = (r_start r - cursor) + length (r_bytes r) + length ?rest"
    unfolding out using len by simp
  then have stop: "?stop \<le> length out" using Cons.prems(4) by simp
  have "drop ?stop out = drop (?stop - pos) (drop pos out)" by (simp add: add_ac)
  also have "\<dots> = ?rest" unfolding out using len by simp
  finally have rest: "drop ?stop out = ?rest" .
  have "take (?start - pos) (drop pos out) = ?gap" unfolding out using len by simp
  moreover have "gaps out ?stop (undo_plan s (r_end r) ?stop rs) = gaps s (r_end r) rs
      \<and> (\<forall>u \<in> set (undo_plan s (r_end r) ?stop rs). r_end u \<le> length out)"
    using Cons.prems rest stop by (intro Cons.IH) auto
  ultimately show ?case using stop by (simp add: Let_def)
qed simp

lemma chain_plan_ok:
  "chain rs \<Longrightarrow> \<forall>r \<in> set rs. r_start r \<le> r_end r \<and> r_end r \<le> n \<Longrightarrow> plan_ok n rs"
  unfolding plan_ok_def by (auto intro: sorted_wrt_mono_rel[rotated] simp: compatible_def)

lemma chain_sorted: "chain rs \<Longrightarrow> \<forall>r \<in> set rs. r_start r \<le> r_end r \<Longrightarrow> sort_key r_start rs = rs"
  by (rule sort_key_id_if_sorted)
    (auto simp: sorted_wrt_map intro: sorted_wrt_mono_rel[rotated] le_trans)

lemma apply_undo:
  assumes "plan_ok (length s) rs" "apply_replacements s rs = Some out"
  shows "apply_replacements out (undo_plan s 0 0 (sort_key r_start rs)) = Some s"
proof -
  let ?rs = "sort_key r_start rs"
  let ?us = "undo_plan s 0 0 ?rs"
  have out: "out = interleave (gaps s 0 ?rs) (map r_bytes ?rs)"
    using apply_replacements_interleave[OF assms(1)] assms(2) by simp
  have us: "gaps out 0 ?us = gaps s 0 ?rs \<and> (\<forall>u \<in> set ?us. r_end u \<le> length out)"
    by (rule undo_plan_gaps[OF plan_ok_sorted[OF assms(1)]]) (simp_all add: out)
  have chain: "chain ?us" and ord: "\<forall>u \<in> set ?us. r_start u \<le> r_end u"
    using undo_plan_chain by blast+
  have ok: "plan_ok (length out) ?us" using chain ord us by (intro chain_plan_ok) auto
  have "apply_replacements out ?us = Some (interleave (gaps out 0 ?us) (map r_bytes ?us))"
    using apply_replacements_interleave[OF ok] chain_sorted[OF chain ord] by simp
  then show ?thesis
    using us interleave_gaps_cuts[OF plan_ok_sorted[OF assms(1)]] by (simp add: undo_plan_bytes)
qed

text \<open>
  Splicing is exact and loses nothing. A plan whose spans are in range and do not overlap
  never panics; the result is the gaps of the buffer, copied in order, alternating with the
  replacements sorted by position; and putting the cut bytes back gives the buffer again.
\<close>

theorem splices_exact:
  assumes "plan_ok (length s) rs"
  shows "\<exists>out. apply_replacements s rs = Some out
    \<and> out = interleave (gaps s 0 (sort_key r_start rs)) (map r_bytes (sort_key r_start rs))
    \<and> apply_replacements out (undo_plan s 0 0 (sort_key r_start rs)) = Some s"
  using apply_replacements_interleave[OF assms] apply_undo[OF assms] by blast

theorem splices_exact_witness:
  "\<exists>out. apply_replacements ''abcdef'' [\<lparr>r_start = 4, r_end = 5, r_bytes = ''XY''\<rparr>,
       \<lparr>r_start = 1, r_end = 3, r_bytes = []\<rparr>] = Some out \<and> out = ''adXYf''"
proof -
  let ?rs = "[\<lparr>r_start = 4, r_end = 5, r_bytes = ''XY''\<rparr>, \<lparr>r_start = 1, r_end = 3, r_bytes = []\<rparr>]"
  have "plan_ok (length ''abcdef'') ?rs" by (simp add: plan_ok_def compatible_def)
  from splices_exact[OF this] show ?thesis by simp
qed

end
