(* ===== verification/Headers.thy ===== *)
theory Headers
  imports Rust_Text
begin

text \<open>
  An HTTP header map: its entries, names in lower case, in iteration order. Whether a
  value reads as text (\<open>HeaderValue::to_str\<close>) and whether a text is a legal value
  (\<open>HeaderValue::from_str\<close>) is decided by the \<open>http\<close> crate: the record \<open>http_lib\<close>.
\<close>

type_synonym header_map = "(string \<times> string) list"

record http_lib =
  hv_to_str :: "string \<Rightarrow> string option"
  hv_from_str :: "string \<Rightarrow> string option"

definition header_get :: "string \<Rightarrow> header_map \<Rightarrow> string option" where
  "header_get name hs = map_of hs name"

definition header_get_all :: "string \<Rightarrow> header_map \<Rightarrow> string list" where
  "header_get_all name hs = map snd (filter (\<lambda>(n, _). n = name) hs)"

definition header_remove :: "string \<Rightarrow> header_map \<Rightarrow> header_map" where
  "header_remove name hs = filter (\<lambda>(n, _). n \<noteq> name) hs"

definition header_insert :: "string \<Rightarrow> string \<Rightarrow> header_map \<Rightarrow> header_map" where
  "header_insert name v hs = header_remove name hs @ [(name, v)]"

text \<open>\<open>headers.get(name).and_then(|value| value.to_str().ok())\<close>\<close>

definition header_str :: "http_lib \<Rightarrow> string \<Rightarrow> header_map \<Rightarrow> string option" where
  "header_str H name hs = Option.bind (header_get name hs) (hv_to_str H)"

text \<open>\<open>.filter(P)\<close> on an \<open>Option\<close>.\<close>

definition option_filter :: "('a \<Rightarrow> bool) \<Rightarrow> 'a option \<Rightarrow> 'a option" where
  "option_filter P x = (case x of Some v \<Rightarrow> if P v then Some v else None | None \<Rightarrow> None)"

definition option_or :: "'a option \<Rightarrow> 'a option \<Rightarrow> 'a option" where
  "option_or x y = (case x of Some v \<Rightarrow> Some v | None \<Rightarrow> y)"

definition unwrap_or :: "'a \<Rightarrow> 'a option \<Rightarrow> 'a" where
  "unwrap_or d x = (case x of Some v \<Rightarrow> v | None \<Rightarrow> d)"

lemma unwrap_or_simps [simp]: "unwrap_or d None = d" "unwrap_or d (Some v) = v"
  by (simp_all add: unwrap_or_def)

lemma option_filter_Some [simp]: "option_filter P x = Some v \<longleftrightarrow> x = Some v \<and> P v"
  by (auto simp: option_filter_def split: option.splits)

lemma option_or_simps [simp]: "option_or None y = y" "option_or (Some v) y = Some v"
  by (simp_all add: option_or_def)

text \<open>A comma-separated list of tokens: split, trimmed, the empty ones dropped.\<close>

definition comma_tokens :: "string \<Rightarrow> string list" where
  "comma_tokens v = filter (\<lambda>t. t \<noteq> []) (map trim (split_on (\<lambda>c. c = CHR '','') v))"

fun join :: "string \<Rightarrow> string list \<Rightarrow> string" where
  "join sep [] = []"
| "join sep [x] = x"
| "join sep (x # y # zs) = x @ sep @ join sep (y # zs)"

text \<open>A token that a comma-separated list can carry unchanged.\<close>

definition token_ok :: "string \<Rightarrow> bool" where
  "token_ok t \<longleftrightarrow> t \<noteq> [] \<and> trim t = t \<and> CHR '','' \<notin> set t"

lemma comma_tokens_ok: "t \<in> set (comma_tokens v) \<Longrightarrow> token_ok t"
  using trim_subset by (fastforce simp: comma_tokens_def token_ok_def dest: split_on_parts)

lemma comma_tokens_join: "\<forall>t \<in> set ts. token_ok t \<Longrightarrow> comma_tokens (join '','' ts) = ts"
proof (induction "'',''" ts rule: join.induct)
  case (2 x)
  then have "split_on (\<lambda>c. c = CHR '','') x = [x]" by (intro split_on_no_sep) (auto simp: token_ok_def)
  then show ?case using 2 by (simp add: comma_tokens_def token_ok_def)
next
  case (3 x y zs)
  have "split_on (\<lambda>c. c = CHR '','') (x @ CHR '','' # join '','' (y # zs))
      = [x] @ split_on (\<lambda>c. c = CHR '','') (join '','' (y # zs))"
    using 3 by (subst split_on_append_sep) (auto simp: token_ok_def intro!: split_on_no_sep)
  then show ?case using 3 by (simp add: comma_tokens_def token_ok_def)
qed (simp add: comma_tokens_def trim_def drop_while_end_def)

lemma header_get_insert [simp]:
  "header_get n (header_insert m v hs) = (if n = m then Some v else header_get n hs)"
proof -
  have "map_of (filter (\<lambda>(k, _). k \<noteq> m) hs) n = (if n = m then None else map_of hs n)"
    by (induction hs) auto
  then show ?thesis
    by (auto simp: header_get_def header_insert_def header_remove_def map_add_def split: option.splits)
qed

end
