(* ===== verification/Json_Value.thy ===== *)
theory Json_Value
  imports Rust_Text
begin

text \<open>
  The \<open>serde_json::Value\<close> the program pattern-matches on: an object is a \<open>BTreeMap\<close>, that
  is, an association list in ascending key order. Parsing and printing are not defined
  here: they are the library's code and enter the model as the operations of the record
  \<open>serde\<close>, together with the views the program derives for borrowed raw values.
\<close>

section \<open>Values\<close>

datatype json_number = PosInt u64 | NegInt int | Float rat

datatype json =
    JNull
  | JBool bool
  | JNumber json_number
  | JString string
  | JArray "json list"
  | JObject "(string \<times> json) list"

fun json_get :: "string \<Rightarrow> json \<Rightarrow> json option" where
  "json_get k (JObject m) = map_of m k"
| "json_get k _ = None"

fun as_str :: "json \<Rightarrow> string option" where
  "as_str (JString s) = Some s"
| "as_str _ = None"

fun as_array :: "json \<Rightarrow> json list option" where
  "as_array (JArray xs) = Some xs"
| "as_array _ = None"

fun as_object :: "json \<Rightarrow> (string \<times> json) list option" where
  "as_object (JObject m) = Some m"
| "as_object _ = None"

fun as_u64 :: "json \<Rightarrow> u64 option" where
  "as_u64 (JNumber (PosInt n)) = Some n"
| "as_u64 _ = None"

definition is_object :: "json \<Rightarrow> bool" where
  "is_object v \<longleftrightarrow> as_object v \<noteq> None"

text \<open>\<open>v.get(k).and_then(Value::as_str)\<close> and its kin.\<close>

definition get_str :: "string \<Rightarrow> json \<Rightarrow> string option" where
  "get_str k v = Option.bind (json_get k v) as_str"

definition get_array :: "string \<Rightarrow> json \<Rightarrow> json list option" where
  "get_array k v = Option.bind (json_get k v) as_array"

definition get_u64 :: "string \<Rightarrow> json \<Rightarrow> u64 option" where
  "get_u64 k v = Option.bind (json_get k v) as_u64"

definition get_in :: "string \<Rightarrow> string \<Rightarrow> json \<Rightarrow> json option" where
  "get_in k l v = Option.bind (json_get k v) (json_get l)"

text \<open>\<open>v.get(k).and_then(|inner| inner.get(l)).and_then(Value::as_str)\<close>\<close>

definition get_in_str :: "string \<Rightarrow> string \<Rightarrow> json \<Rightarrow> string option" where
  "get_in_str k l v = Option.bind (get_in k l v) as_str"

section \<open>Objects as sorted association lists\<close>

fun obj_insert :: "string \<Rightarrow> json \<Rightarrow> (string \<times> json) list \<Rightarrow> (string \<times> json) list" where
  "obj_insert k v [] = [(k, v)]"
| "obj_insert k v ((k', v') # m) =
     (if k < k' then (k, v) # (k', v') # m
      else if k = k' then (k, v) # m
      else (k', v') # obj_insert k v m)"

definition obj_remove :: "string \<Rightarrow> (string \<times> json) list \<Rightarrow> (string \<times> json) list" where
  "obj_remove k m = filter (\<lambda>(k', _). k' \<noteq> k) m"

text \<open>The \<open>json!({...})\<close> macro.\<close>

definition json_obj :: "(string \<times> json) list \<Rightarrow> json" where
  "json_obj kvs = JObject (fold (\<lambda>(k, v). obj_insert k v) kvs [])"

text \<open>
  \<open>v[k] = x\<close>: an object gets the entry, \<open>null\<close> becomes an object, anything else panics
  (\<open>None\<close>).
\<close>

fun json_set :: "string \<Rightarrow> json \<Rightarrow> json \<Rightarrow> json option" where
  "json_set k x (JObject m) = Some (JObject (obj_insert k x m))"
| "json_set k x JNull = Some (JObject [(k, x)])"
| "json_set k x _ = None"

definition obj_wf :: "(string \<times> json) list \<Rightarrow> bool" where
  "obj_wf m \<longleftrightarrow> sorted_wrt (<) (map fst m)"

lemma map_of_obj_insert [simp]: "map_of (obj_insert k v m) = (map_of m)(k \<mapsto> v)"
  by (induction k v m rule: obj_insert.induct) (auto simp: fun_eq_iff)

lemma keys_obj_insert: "set (map fst (obj_insert k v m)) = insert k (set (map fst m))"
  by (induction k v m rule: obj_insert.induct) auto

lemma obj_wf_insert: "obj_wf m \<Longrightarrow> obj_wf (obj_insert k v m)"
proof (induction k v m rule: obj_insert.induct)
  case (1 k v)
  then show ?case by (simp add: obj_wf_def)
next
  case (2 k v k' v' m)
  have less: "\<forall>x \<in> set (map fst m). k' < x"
    using "2.prems" by (auto simp: obj_wf_def)
  consider "k < k'" | "k = k'" | "k' < k" by (rule linorder_cases)
  then show ?case
  proof cases
    case 3
    then have "obj_wf (obj_insert k v m)" using 2 by (auto simp: obj_wf_def)
    moreover have "\<forall>x \<in> set (map fst (obj_insert k v m)). k' < x"
      unfolding keys_obj_insert using 3 less by blast
    ultimately show ?thesis using 3 by (auto simp: obj_wf_def)
  qed (use 2 in \<open>auto simp: obj_wf_def\<close>)
qed

lemma map_of_obj_remove [simp]: "map_of (obj_remove k m) = (map_of m)(k := None)"
  by (induction m) (auto simp: obj_remove_def fun_eq_iff)

lemma obj_wf_remove: "obj_wf m \<Longrightarrow> obj_wf (obj_remove k m)"
  by (auto simp: obj_wf_def obj_remove_def sorted_wrt_map intro: sorted_wrt_filter)

lemma json_get_set: "json_set k x v = Some w \<Longrightarrow> json_get k' w = (if k' = k then Some x else json_get k' v)"
  by (cases v) auto

lemma json_set_Some: "json_set k x v = Some w \<Longrightarrow> \<exists>m. w = JObject m"
  by (cases v) auto

end
