(* ===== verification/Serde.thy ===== *)
theory Serde
  imports Json_Value
begin

text \<open>
  What the program uses of \<open>serde_json\<close>. A \<open>&str\<close> that borrows from a buffer is a slice:
  its address and its bytes. Every \<open>#[derive(Deserialize)]\<close> struct of
  \<open>src/compression.rs\<close> is a record of the fields it borrows, and the library's parsers are
  the fields of the record \<open>serde\<close>, an argument of every definition that parses.
\<close>

section \<open>Borrowed slices\<close>

record slice =
  s_addr :: nat
  s_text :: string

definition s_end :: "slice \<Rightarrow> nat" where
  "s_end s = s_addr s + length (s_text s)"

text \<open>A whole buffer; addresses only matter relative to it.\<close>

definition whole :: "string \<Rightarrow> slice" where
  "whole text = \<lparr>s_addr = 0, s_text = text\<rparr>"

text \<open>Byte offset of \<open>child\<close> in \<open>parent\<close>, by pointer comparison.\<close>

definition offset_of :: "slice \<Rightarrow> slice \<Rightarrow> nat option" where
  "offset_of parent child =
     (let parent_start = s_addr parent; parent_end = parent_start + length (s_text parent);
          child_start = s_addr child
      in if child_start < parent_start \<or> child_start + length (s_text child) > parent_end then None
         else Some (child_start - parent_start))"

section \<open>The derived views\<close>

record messages_view =
  mv_messages :: "slice list option"

record message_header =
  mh_role :: "string option"
  mh_content :: "slice option"
  mh_name :: "string option"
  mh_tool_call_id :: "string option"

record block_header =
  bh_type :: "string option"
  bh_content :: "slice option"
  bh_text :: "slice option"
  bh_cache_control :: "slice option"

record batch_view =
  bv_requests :: "slice list option"

record batch_request_view =
  br_params :: "slice option"

record responses_body_view =
  rb_input :: "slice option"
  rb_messages :: "slice option"

record responses_item_header =
  ri_type :: "string option"
  ri_call_id :: "string option"
  ri_output :: "slice option"

record tools_array_view =
  tv_tools :: "slice option"

record function_schema_view =
  fs_parameters :: "slice option"

record tool_schema_view =
  ts_function :: "function_schema_view option"
  ts_parameters :: "slice option"
  ts_input_schema :: "slice option"

record prompt_cache_key_view =
  pk_prompt_cache_key :: "slice option"

section \<open>The library's operations\<close>

record serde =
  sd_value :: "string \<Rightarrow> json option"
  sd_to_vec :: "json \<Rightarrow> string option"
  sd_string :: "string \<Rightarrow> string option"
  sd_raw_values :: "slice \<Rightarrow> slice list option"
  sd_messages_view :: "slice \<Rightarrow> messages_view option"
  sd_message_header :: "slice \<Rightarrow> message_header option"
  sd_block_header :: "slice \<Rightarrow> block_header option"
  sd_batch_view :: "slice \<Rightarrow> batch_view option"
  sd_batch_request_view :: "slice \<Rightarrow> batch_request_view option"
  sd_responses_body_view :: "slice \<Rightarrow> responses_body_view option"
  sd_responses_item_header :: "slice \<Rightarrow> responses_item_header option"
  sd_tools_array_view :: "slice \<Rightarrow> tools_array_view option"
  sd_tool_schema_view :: "slice \<Rightarrow> tool_schema_view option"
  sd_prompt_cache_key_view :: "slice \<Rightarrow> prompt_cache_key_view option"

section \<open>What the program relies on\<close>

text \<open>
  A \<open>&RawValue\<close> points into the text it was parsed from, inside the brackets of the array
  or object that holds it; the elements of an array come one after the other.
\<close>

definition inside :: "slice \<Rightarrow> slice \<Rightarrow> bool" where
  "inside p c \<longleftrightarrow> s_addr p < s_addr c \<and> s_end c < s_end p
     \<and> s_text c = take (length (s_text c)) (drop (s_addr c - s_addr p) (s_text p))"

definition inside_opt :: "slice \<Rightarrow> slice option \<Rightarrow> bool" where
  "inside_opt p x \<longleftrightarrow> (\<forall>c. x = Some c \<longrightarrow> inside p c)"

definition elements_ok :: "slice \<Rightarrow> slice list \<Rightarrow> bool" where
  "elements_ok p cs \<longleftrightarrow> ascending s_addr s_end cs \<and> (\<forall>c \<in> set cs. inside p c)"

definition borrows_ok :: "serde \<Rightarrow> bool" where
  "borrows_ok S \<longleftrightarrow>
     (\<forall>p cs. sd_raw_values S p = Some cs \<longrightarrow> elements_ok p cs)
   \<and> (\<forall>p v cs. sd_messages_view S p = Some v \<longrightarrow> mv_messages v = Some cs \<longrightarrow> elements_ok p cs)
   \<and> (\<forall>p v. sd_message_header S p = Some v \<longrightarrow> inside_opt p (mh_content v))
   \<and> (\<forall>p v. sd_block_header S p = Some v \<longrightarrow>
        inside_opt p (bh_content v) \<and> inside_opt p (bh_text v) \<and> inside_opt p (bh_cache_control v))
   \<and> (\<forall>p v cs. sd_batch_view S p = Some v \<longrightarrow> bv_requests v = Some cs \<longrightarrow> elements_ok p cs)
   \<and> (\<forall>p v. sd_batch_request_view S p = Some v \<longrightarrow> inside_opt p (br_params v))
   \<and> (\<forall>p v. sd_responses_body_view S p = Some v \<longrightarrow>
        inside_opt p (rb_input v) \<and> inside_opt p (rb_messages v))
   \<and> (\<forall>p v. sd_responses_item_header S p = Some v \<longrightarrow> inside_opt p (ri_output v))
   \<and> (\<forall>p v. sd_tools_array_view S p = Some v \<longrightarrow> inside_opt p (tv_tools v))
   \<and> (\<forall>p v. sd_tool_schema_view S p = Some v \<longrightarrow>
        inside_opt p (ts_parameters v) \<and> inside_opt p (ts_input_schema v)
        \<and> (\<forall>f. ts_function v = Some f \<longrightarrow> inside_opt p (fs_parameters f)))
   \<and> (\<forall>p v. sd_prompt_cache_key_view S p = Some v \<longrightarrow> inside_opt p (pk_prompt_cache_key v))"

lemma s_addr_whole [simp]: "s_addr (whole t) = 0" "s_text (whole t) = t" "s_end (whole t) = length t"
  by (simp_all add: whole_def s_end_def)

lemma addr_le_end [simp]: "s_addr s \<le> s_end s"
  by (simp add: s_end_def)

lemma inside_bounds [spans]: "inside p c \<Longrightarrow> s_addr p < s_addr c \<and> s_end c < s_end p"
  by (simp add: inside_def)

lemma offset_of_Some [spans]:
  "offset_of p c = Some k \<longleftrightarrow> s_addr p \<le> s_addr c \<and> s_end c \<le> s_end p \<and> k = s_addr c - s_addr p"
  by (auto simp: offset_of_def Let_def s_end_def)

lemma inside_offset [spans]: "inside p c \<Longrightarrow> offset_of p c = Some (s_addr c - s_addr p)"
  by (simp add: offset_of_Some inside_def)

lemma elements_inside [spans]: "elements_ok p cs \<Longrightarrow> c \<in> set cs \<Longrightarrow> inside p c"
  by (simp add: elements_ok_def)

lemma inside_optD: "inside_opt p x \<Longrightarrow> x = Some c \<Longrightarrow> inside p c"
  by (simp add: inside_opt_def)

text \<open>The parts of the law, one for each view.\<close>

lemma raw_values_ok [spans]:
  "borrows_ok S \<Longrightarrow> sd_raw_values S p = Some cs \<Longrightarrow> elements_ok p cs"
  by (auto simp: borrows_ok_def inside_opt_def)

lemma messages_view_ok [spans]:
  "borrows_ok S \<Longrightarrow> sd_messages_view S p = Some v \<Longrightarrow> mv_messages v = Some cs \<Longrightarrow> elements_ok p cs"
  by (auto simp: borrows_ok_def inside_opt_def)

lemma message_header_ok [spans]:
  "borrows_ok S \<Longrightarrow> sd_message_header S p = Some v \<Longrightarrow> mh_content v = Some c \<Longrightarrow> inside p c"
  by (auto simp: borrows_ok_def inside_opt_def)

lemma block_header_ok [spans]:
  "borrows_ok S \<Longrightarrow> sd_block_header S p = Some v \<Longrightarrow>
     bh_content v = Some c \<or> bh_text v = Some c \<Longrightarrow> inside p c"
  by (auto simp: borrows_ok_def inside_opt_def)

lemma batch_view_ok [spans]:
  "borrows_ok S \<Longrightarrow> sd_batch_view S p = Some v \<Longrightarrow> bv_requests v = Some cs \<Longrightarrow> elements_ok p cs"
  by (auto simp: borrows_ok_def inside_opt_def)

lemma batch_request_view_ok [spans]:
  "borrows_ok S \<Longrightarrow> sd_batch_request_view S p = Some v \<Longrightarrow> br_params v = Some c \<Longrightarrow> inside p c"
  by (auto simp: borrows_ok_def inside_opt_def)

lemma responses_body_view_ok [spans]:
  "borrows_ok S \<Longrightarrow> sd_responses_body_view S p = Some v \<Longrightarrow>
     rb_input v = Some c \<or> rb_messages v = Some c \<Longrightarrow> inside p c"
  by (auto simp: borrows_ok_def inside_opt_def)

lemma responses_item_header_ok [spans]:
  "borrows_ok S \<Longrightarrow> sd_responses_item_header S p = Some v \<Longrightarrow> ri_output v = Some c \<Longrightarrow> inside p c"
  by (auto simp: borrows_ok_def inside_opt_def)

lemma tools_array_view_ok [spans]:
  "borrows_ok S \<Longrightarrow> sd_tools_array_view S p = Some v \<Longrightarrow> tv_tools v = Some c \<Longrightarrow> inside p c"
  by (auto simp: borrows_ok_def inside_opt_def)

lemma tool_schema_view_ok [spans]:
  "borrows_ok S \<Longrightarrow> sd_tool_schema_view S p = Some v \<Longrightarrow>
     ts_parameters v = Some c \<or> ts_input_schema v = Some c
     \<or> (\<exists>f. ts_function v = Some f \<and> fs_parameters f = Some c) \<Longrightarrow> inside p c"
  by (auto simp: borrows_ok_def inside_opt_def)

lemma prompt_cache_key_view_ok [spans]:
  "borrows_ok S \<Longrightarrow> sd_prompt_cache_key_view S p = Some v \<Longrightarrow> pk_prompt_cache_key v = Some c \<Longrightarrow> inside p c"
  by (auto simp: borrows_ok_def inside_opt_def)

text \<open>\<open>c\<close> is a part of \<open>p\<close>: its bounds and its bytes.\<close>

definition part_of :: "slice \<Rightarrow> slice \<Rightarrow> bool" where
  "part_of p c \<longleftrightarrow> s_addr p \<le> s_addr c \<and> s_end c \<le> s_end p
     \<and> s_text c = take (length (s_text c)) (drop (s_addr c - s_addr p) (s_text p))"

lemma part_of_refl [simp]: "part_of p p"
  by (simp add: part_of_def)

lemma inside_part [spans]: "inside p c \<Longrightarrow> part_of p c"
  by (simp add: inside_def part_of_def)

lemma part_of_trans [spans]:
  assumes "part_of p c" "part_of c d"
  shows "part_of p d"
proof -
  let ?i = "s_addr c - s_addr p" and ?j = "s_addr d - s_addr c"
  have "s_text d = take (length (s_text d)) (drop ?j (take (length (s_text c)) (drop ?i (s_text p))))"
    using assms by (metis part_of_def)
  also have "\<dots> = take (length (s_text d)) (drop (?i + ?j) (s_text p))"
  proof -
    have "length (s_text d) \<le> length (s_text c) - ?j"
      using assms(2) by (auto simp: part_of_def s_end_def)
    then show ?thesis by (simp add: drop_take min_def add.commute)
  qed
  also have "?i + ?j = s_addr d - s_addr p" using assms by (auto simp: part_of_def)
  finally show ?thesis using assms unfolding part_of_def by (meson order_trans)
qed

text \<open>
  Things with spans, in ascending order and all within \<open>outer\<close>; \<open>lo\<close> and \<open>hi\<close> read a thing's
  bounds. In \<open>spans_in_elements\<close>, \<open>g x\<close> is the slice of the element \<open>x\<close>, so that elements may
  carry their index.
\<close>

definition spans_in :: "('a \<Rightarrow> nat) \<Rightarrow> ('a \<Rightarrow> nat) \<Rightarrow> slice \<Rightarrow> 'a list \<Rightarrow> bool" where
  "spans_in lo hi outer xs \<longleftrightarrow> ascending lo hi xs
     \<and> (\<forall>x \<in> set xs. s_addr outer \<le> lo x \<and> hi x \<le> s_end outer)"

lemma spans_in_Nil [simp]: "spans_in lo hi outer []"
  by (simp add: spans_in_def)

lemma spans_in_part: "spans_in lo hi c xs \<Longrightarrow> part_of p c \<Longrightarrow> spans_in lo hi p xs"
  unfolding spans_in_def part_of_def by (meson order_trans)

lemma spans_in_elements:
  assumes "elements_ok p (map g xs)" "\<And>x. x \<in> set xs \<Longrightarrow> spans_in lo hi (g x) (f x)"
  shows "spans_in lo hi p (concat (map f xs))"
proof -
  have "ascending lo hi (concat (map f xs))"
  proof (rule ascending_concat)
    show "ascending (s_addr \<circ> g) (s_end \<circ> g) xs"
      using assms(1) by (auto simp: elements_ok_def ascending_def sorted_wrt_map)
  qed (use assms(2) in \<open>auto simp: spans_in_def\<close>)
  moreover have "s_addr p \<le> lo s \<and> hi s \<le> s_end p" if x: "x \<in> set xs" "s \<in> set (f x)" for x s
    using elements_inside[OF assms(1), of "g x"] assms(2)[OF x(1)] x
    by (auto simp: spans_in_def dest!: inside_bounds)
  ultimately show ?thesis by (auto simp: spans_in_def)
qed

lemma elements_ok_drop: "elements_ok p cs \<Longrightarrow> elements_ok p (drop n cs)"
  using sorted_wrt_drop[of _ cs n] by (auto simp: elements_ok_def ascending_def dest: in_set_dropD)

section \<open>A small instance\<close>

text \<open>
  The laws hold of a grammar in which every text of at least two bytes holds one value: what
  is between its first and its last byte. It instantiates the library where a statement needs
  a concrete one.
\<close>

definition demo_inner :: "slice \<Rightarrow> slice option" where
  "demo_inner p = (if 2 \<le> length (s_text p)
     then Some \<lparr>s_addr = s_addr p + 1, s_text = butlast (tl (s_text p))\<rparr> else None)"

definition demo_elements :: "slice \<Rightarrow> slice list option" where
  "demo_elements p = map_option (\<lambda>c. [c]) (demo_inner p)"

fun demo_print :: "json \<Rightarrow> string option" where
  "demo_print (JString s) = Some (CHR 0x22 # s @ [CHR 0x22])"
| "demo_print _ = Some ''null''"

definition demo_serde :: serde where
  "demo_serde =
     \<lparr>sd_value = (\<lambda>_. Some JNull), sd_to_vec = demo_print,
      sd_string = (\<lambda>t. if 2 \<le> length t then Some (butlast (tl t)) else None),
      sd_raw_values = demo_elements,
      sd_messages_view = (\<lambda>p. Some \<lparr>mv_messages = demo_elements p\<rparr>),
      sd_message_header = (\<lambda>p. Some \<lparr>mh_role = Some ''tool'', mh_content = demo_inner p,
         mh_name = None, mh_tool_call_id = None\<rparr>),
      sd_block_header = (\<lambda>p. Some \<lparr>bh_type = Some ''tool_result'', bh_content = demo_inner p,
         bh_text = None, bh_cache_control = None\<rparr>),
      sd_batch_view = (\<lambda>p. Some \<lparr>bv_requests = demo_elements p\<rparr>),
      sd_batch_request_view = (\<lambda>p. Some \<lparr>br_params = demo_inner p\<rparr>),
      sd_responses_body_view = (\<lambda>p. Some \<lparr>rb_input = demo_inner p, rb_messages = None\<rparr>),
      sd_responses_item_header = (\<lambda>p. Some \<lparr>ri_type = Some ''function_call_output'',
         ri_call_id = None, ri_output = demo_inner p\<rparr>),
      sd_tools_array_view = (\<lambda>p. Some \<lparr>tv_tools = demo_inner p\<rparr>),
      sd_tool_schema_view = (\<lambda>p. Some \<lparr>ts_function = None, ts_parameters = demo_inner p,
         ts_input_schema = demo_inner p\<rparr>),
      sd_prompt_cache_key_view = (\<lambda>p. Some \<lparr>pk_prompt_cache_key = demo_inner p\<rparr>)\<rparr>"

lemma demo_inner_inside: "demo_inner p = Some c \<Longrightarrow> inside p c"
  by (cases p) (auto simp: demo_inner_def inside_def s_end_def butlast_conv_take drop_Suc split: if_splits)

lemma borrows_ok_demo: "borrows_ok demo_serde"
  by (auto simp: borrows_ok_def demo_serde_def inside_opt_def demo_elements_def elements_ok_def
      dest: demo_inner_inside)

end
