(* ===== verification/Session.thy ===== *)
theory Session
  imports Headers Serde
begin

text \<open>
  The session trackers of \<open>src/session.rs\<close>: session identity, the provider-confirmed
  frozen prefix, the sticky beta tokens, and the token estimates that map cached tokens
  back to messages. Each \<open>Instant::now()\<close> is an argument, in nanoseconds; the mutex makes
  every operation one step on the state \<open>inner\<close>.
\<close>

section \<open>State\<close>

definition MIN_CACHED_TOKENS :: u64 where
  "MIN_CACHED_TOKENS = 1024"

definition NANOS :: nat where
  "NANOS = 1000000000"

definition SESSION_TTL :: nat where
  "SESSION_TTL = 600 * NANOS"

definition CLEANUP_INTERVAL :: nat where
  "CLEANUP_INTERVAL = 60 * NANOS"

definition MAX_BETA_SESSIONS :: nat where
  "MAX_BETA_SESSIONS = 1000"

datatype session_provider = SessionAnthropic | SessionOpenAi

type_synonym session_key = "session_provider \<times> string"

record prefix_state =
  cached_token_count :: u64
  cached_message_count :: nat
  turn_number :: u64
  last_activity :: nat

record inner =
  prefixes :: "session_key \<rightharpoonup> prefix_state"
  last_cleanup :: "nat option"
  betas :: "(session_key \<times> string list) list"

definition inner_default :: inner where
  "inner_default = \<lparr>prefixes = Map.empty, last_cleanup = None, betas = []\<rparr>"

section \<open>Session identity\<close>

definition truncate_chars :: "string \<Rightarrow> nat \<Rightarrow> string" where
  "truncate_chars input limit = concat (take limit (chars input))"

definition explicit_session_header :: "http_lib \<Rightarrow> header_map \<Rightarrow> string option" where
  "explicit_session_header H hs =
     option_filter (\<lambda>v. v \<noteq> []) (header_str H ''x-headroom-session-id'' hs)"

definition hash_session_id :: "(string \<Rightarrow> string) \<Rightarrow> json \<Rightarrow> string \<Rightarrow> string" where
  "hash_session_id sha256 body system_content =
     (let model = unwrap_or [] (get_str ''model'' body);
          digest = sha256 (model @ '':'' @ system_content)
      in hex_string (take 8 digest))"

fun first_system_message_text :: "json list \<Rightarrow> string option" where
  "first_system_message_text [] = None"
| "first_system_message_text (message # messages) =
     (if get_str ''role'' message \<noteq> Some ''system'' then first_system_message_text messages
      else (case json_get ''content'' message of
              Some (JString content) \<Rightarrow> Some (truncate_chars content 500)
            | Some (JArray blocks) \<Rightarrow>
                map_option (\<lambda>t. truncate_chars t 500)
                  (Option.bind (find (\<lambda>b. get_str ''type'' b = Some ''text'') blocks)
                     (get_str ''text''))
            | _ \<Rightarrow> None))"

definition compute_session_id ::
    "http_lib \<Rightarrow> (string \<Rightarrow> string) \<Rightarrow> header_map \<Rightarrow> json \<Rightarrow> string" where
  "compute_session_id H sha256 hs body =
     (case explicit_session_header H hs of
        Some session \<Rightarrow> session
      | None \<Rightarrow>
          let system_content =
            unwrap_or [] (Option.bind (get_array ''messages'' body) first_system_message_text)
          in hash_session_id sha256 body system_content)"

definition compute_responses_session_id ::
    "http_lib \<Rightarrow> (string \<Rightarrow> string) \<Rightarrow> header_map \<Rightarrow> json \<Rightarrow> string" where
  "compute_responses_session_id H sha256 hs body =
     (case explicit_session_header H hs of
        Some session \<Rightarrow> session
      | None \<Rightarrow>
          let system_content =
            (case json_get ''instructions'' body of
               Some (JString instructions) \<Rightarrow>
                 if instructions \<noteq> [] then truncate_chars instructions 500 else []
             | _ \<Rightarrow> [])
          in hash_session_id sha256 body system_content)"

section \<open>The frozen prefix\<close>

definition maybe_cleanup :: "nat \<Rightarrow> inner \<Rightarrow> inner" where
  "maybe_cleanup now st =
     (if (case last_cleanup st of None \<Rightarrow> False | Some previous \<Rightarrow> now - previous < CLEANUP_INTERVAL) then st
      else st\<lparr>prefixes := (\<lambda>k. option_filter (\<lambda>s. now - last_activity s \<le> SESSION_TTL) (prefixes st k)),
              last_cleanup := Some now\<rparr>)"

text \<open>\<open>t0\<close> and \<open>t1\<close> are the two clock readings, for the sweep and for the activity mark.\<close>

definition frozen_message_count ::
    "nat \<Rightarrow> nat \<Rightarrow> session_provider \<Rightarrow> string \<Rightarrow> inner \<Rightarrow> nat \<times> inner" where
  "frozen_message_count t0 t1 provider session_id st =
     (let st = maybe_cleanup t0 st in
      case prefixes st (provider, session_id) of
        None \<Rightarrow> (0, st)
      | Some state \<Rightarrow>
          let state = state\<lparr>last_activity := t1\<rparr>;
              st = st\<lparr>prefixes := (prefixes st)((provider, session_id) \<mapsto> state)\<rparr>
          in if turn_number state = 0 \<or> cached_token_count state < MIN_CACHED_TOKENS then (0, st)
             else (cached_message_count state, st))"

fun frozen_walk :: "u64 \<Rightarrow> u64 list \<Rightarrow> nat \<Rightarrow> u64 \<Rightarrow> nat \<Rightarrow> nat" where
  "frozen_walk total_cached [] index accumulated frozen_count = frozen_count"
| "frozen_walk total_cached (tokens # rest) index accumulated frozen_count =
     (let accumulated = saturating_add accumulated tokens in
      if accumulated \<le> total_cached
      then frozen_walk total_cached rest (index + 1) accumulated (index + 1)
      else frozen_count)"

definition update_from_response ::
    "nat \<Rightarrow> nat \<Rightarrow> session_provider \<Rightarrow> string \<Rightarrow> u64 \<Rightarrow> u64 \<Rightarrow> u64 list \<Rightarrow> inner \<Rightarrow> inner" where
  "update_from_response t0 t1 provider session_id cache_read cache_write estimates st =
     (let st = maybe_cleanup t0 st;
          state = (case prefixes st (provider, session_id) of
                     None \<Rightarrow> \<lparr>cached_token_count = 0, cached_message_count = 0,
                              turn_number = 0, last_activity = t1\<rparr>
                   | Some state \<Rightarrow> state);
          state = state\<lparr>last_activity := t1, turn_number := turn_number state + 1\<rparr>;
          total_cached = saturating_add cache_read cache_write;
          state =
            (if total_cached = 0 then state\<lparr>cached_token_count := 0, cached_message_count := 0\<rparr>
             else state\<lparr>cached_token_count := total_cached,
                        cached_message_count := frozen_walk total_cached estimates 0 0 0\<rparr>)
      in st\<lparr>prefixes := (prefixes st)((provider, session_id) \<mapsto> state)\<rparr>)"

section \<open>Sticky betas\<close>

fun merge_betas :: "string list \<Rightarrow> string list \<Rightarrow> string list" where
  "merge_betas merged [] = merged"
| "merge_betas merged (token # tokens) =
     (if \<exists>seen \<in> set merged. eq_ignore_ascii_case seen token then merge_betas merged tokens
      else merge_betas (merged @ [token]) tokens)"

text \<open>\<open>iter().position(..)\<close> and \<open>Vec::remove\<close>: take the first entry of a key out.\<close>

fun take_entry :: "'k \<Rightarrow> ('k \<times> 'v) list \<Rightarrow> 'v option \<times> ('k \<times> 'v) list" where
  "take_entry k [] = (None, [])"
| "take_entry k ((k', v) # xs) =
     (if k' = k then (Some v, xs) else let (r, ys) = take_entry k xs in (r, (k', v) # ys))"

definition sticky_betas ::
    "session_provider \<Rightarrow> string \<Rightarrow> string option \<Rightarrow> inner \<Rightarrow> string \<times> inner" where
  "sticky_betas provider session_id client_value st =
     (let client_tokens = comma_tokens (unwrap_or [] client_value);
          key = (provider, session_id);
          (found, others) = take_entry key (betas st);
          merged = merge_betas (unwrap_or [] found) client_tokens;
          value = join '','' merged
      in (value, st\<lparr>betas := evict_front MAX_BETA_SESSIONS (others @ [(key, merged)])\<rparr>))"

section \<open>Token estimates\<close>

text \<open>
  \<open>((chars as f64) / 3.5).floor().max(1.0) as u64\<close>. Below \<open>2 ^ 50\<close> characters the floor of
  the rounded quotient is the floor of the exact one: the exact quotient \<open>2 * chars / 7\<close>
  is at least \<open>1/7\<close> away from the next integer unless it is one. The cast saturates.
\<close>

definition token_floor :: "nat \<Rightarrow> u64" where
  "token_floor n = of_nat (min (max (2 * n div 7) 1) (2 ^ 64 - 1))"

definition char_count :: "string \<Rightarrow> nat" where
  "char_count s = length (chars s)"

definition text_chars :: "json \<Rightarrow> nat" where
  "text_chars v = (case get_str ''text'' v of Some t \<Rightarrow> char_count t | None \<Rightarrow> 0)"

definition block_chars :: "serde \<Rightarrow> json \<Rightarrow> nat" where
  "block_chars S block =
     (if \<not> is_object block then 0
      else let kind = unwrap_or [] (get_str ''type'' block) in
        if kind = ''text'' then text_chars block
        else if kind = ''tool_result'' then
          (case json_get ''content'' block of
             Some (JString inner) \<Rightarrow> char_count inner
           | Some (JArray parts) \<Rightarrow> sum_list (map text_chars parts)
           | _ \<Rightarrow> 0)
        else if kind = ''tool_use'' then
          (case json_get ''input'' block of
             Some (JString input) \<Rightarrow> char_count input
           | Some (JObject m) \<Rightarrow>
               (case sd_to_vec S (JObject m) of Some json \<Rightarrow> char_count json | None \<Rightarrow> 0)
           | _ \<Rightarrow> 0)
        else text_chars block)"

definition message_token_estimate :: "serde \<Rightarrow> json \<Rightarrow> u64" where
  "message_token_estimate S message =
     (let n = (case json_get ''content'' message of
                     Some (JString content) \<Rightarrow> char_count content
                   | Some (JArray blocks) \<Rightarrow> sum_list (map (block_chars S) blocks)
                   | _ \<Rightarrow> 0)
      in token_floor (n + 20))"

definition estimate_message_tokens :: "serde \<Rightarrow> json list \<Rightarrow> u64 list" where
  "estimate_message_tokens S messages = map (message_token_estimate S) messages"

definition text_token_estimate :: "nat \<Rightarrow> u64" where
  "text_token_estimate n = token_floor (n + 20)"

definition response_item_estimate :: "json \<Rightarrow> u64" where
  "response_item_estimate item =
     (let n = sum_list (map (\<lambda>field. case get_str field item of
                                          Some t \<Rightarrow> char_count t | None \<Rightarrow> 0)
                               [''output'', ''text'', ''arguments'']);
          n = n + (case json_get ''content'' item of
                             Some (JString content) \<Rightarrow> char_count content
                           | Some (JArray parts) \<Rightarrow> sum_list (map text_chars parts)
                           | _ \<Rightarrow> 0)
      in token_floor (n + 20))"

definition estimate_response_item_tokens :: "json list \<Rightarrow> u64 list" where
  "estimate_response_item_tokens items = map response_item_estimate items"

definition estimate_responses_request_tokens :: "serde \<Rightarrow> json \<Rightarrow> u64 list" where
  "estimate_responses_request_tokens S body =
     (case json_get ''instructions'' body of
        Some (JString instructions) \<Rightarrow>
          if instructions \<noteq> [] then [text_token_estimate (char_count instructions)] else []
      | Some (JArray items) \<Rightarrow>
          if items \<noteq> [] then
            estimate_message_tokens S
              [json_obj [(''role'', JString ''system''), (''content'', JArray items)]]
          else []
      | _ \<Rightarrow> [])
     @ (case json_get ''input'' body of
          Some (JString input) \<Rightarrow> [text_token_estimate (char_count input)]
        | Some (JArray items) \<Rightarrow> estimate_response_item_tokens items
        | _ \<Rightarrow>
            (case json_get ''messages'' body of
               Some (JArray items) \<Rightarrow> estimate_response_item_tokens items
             | _ \<Rightarrow> []))"

definition responses_estimate_prefix_len :: "json \<Rightarrow> nat" where
  "responses_estimate_prefix_len body =
     (if (case json_get ''instructions'' body of
            Some (JString instructions) \<Rightarrow> instructions \<noteq> []
          | Some (JArray items) \<Rightarrow> items \<noteq> []
          | _ \<Rightarrow> False) then 1 else 0)"

section \<open>Properties of the frozen prefix\<close>

lemma frozen_walk_ge: "i \<le> frozen_walk limit es i acc i"
proof (induction es arbitrary: i acc)
  case (Cons e es)
  show ?case using Cons.IH[of "Suc i"] by (auto simp: Let_def dest: Suc_leD)
qed simp

abbreviation fits :: "u64 \<Rightarrow> nat \<Rightarrow> bool" where
  "fits limit n \<equiv> min n (2 ^ 64 - 1) \<le> unat limit"

lemma within_mono: "fits limit n \<Longrightarrow> m \<le> n \<Longrightarrow> fits limit m"
  by (auto simp: min_def split: if_splits)

lemma min_min_add: "min (min x m + y) m = min (x + y) (m :: nat)"
  by (simp add: min_def)

lemma frozen_walk_iff:
  "i + d \<le> frozen_walk limit es i acc i \<longleftrightarrow>
     d = 0 \<or> (d \<le> length es \<and> fits limit (unat acc + sum_list (map unat (take d es))))"
proof (induction es arbitrary: i d acc)
  case Nil
  then show ?case by auto
next
  case (Cons e es)
  define a where "a = saturating_add acc e"
  have a: "unat a = min (unat acc + unat e) (2 ^ 64 - 1)"
    unfolding a_def by (rule unat_saturating_add)
  show ?case
  proof (cases d)
    case 0
    then show ?thesis by (simp add: frozen_walk_ge del: frozen_walk.simps)
  next
    case (Suc d')
    let ?rest = "sum_list (map unat (take d' es))"
    have within_a: "fits limit (unat a + ?rest) \<longleftrightarrow> fits limit (unat acc + (unat e + ?rest))"
      unfolding a min_min_add by (simp add: add.assoc)
    have walk: "frozen_walk limit (e # es) i acc i =
        (if a \<le> limit then frozen_walk limit es (Suc i) a (Suc i) else i)"
      by (simp add: a_def)
    have le: "a \<le> limit \<longleftrightarrow> fits limit (unat acc + unat e)"
      by (simp add: word_le_nat_alt a)
    show ?thesis
    proof (cases "a \<le> limit")
      case True
      have "i + d \<le> frozen_walk limit (e # es) i acc i \<longleftrightarrow>
          d' = 0 \<or> (d' \<le> length es \<and> fits limit (unat a + ?rest))"
        using Cons.IH[of "Suc i" d' a] walk True Suc by simp
      then show ?thesis using True le within_a Suc by auto
    next
      case False
      then have "\<not> fits limit (unat acc + (unat e + ?rest))"
        using le within_mono by (metis add.assoc le_add1)
      then show ?thesis using walk False Suc by simp
    qed
  qed
qed

lemma maybe_cleanup_prefixes:
  "prefixes (maybe_cleanup now st) k =
     (if (\<exists>p. last_cleanup st = Some p \<and> now - p < CLEANUP_INTERVAL) then prefixes st k
      else option_filter (\<lambda>s. now - last_activity s \<le> SESSION_TTL) (prefixes st k))"
  by (auto simp: maybe_cleanup_def split: option.splits)

lemma maybe_cleanup_betas [frame, simp]: "betas (maybe_cleanup now st) = betas st"
  by (simp add: maybe_cleanup_def)

lemma maybe_cleanup_fresh:
  "prefixes st k = Some s \<Longrightarrow> now - last_activity s \<le> SESSION_TTL \<Longrightarrow>
     prefixes (maybe_cleanup now st) k = Some s"
  by (simp add: maybe_cleanup_prefixes)

lemma update_prefixes_other [frame]:
  "k \<noteq> (provider, sid) \<Longrightarrow>
     prefixes (update_from_response t0 t1 provider sid r w es st) k = prefixes (maybe_cleanup t0 st) k"
  by (simp add: update_from_response_def Let_def)

lemma frozen_prefixes_other [frame]:
  "k \<noteq> (provider, sid) \<Longrightarrow>
     prefixes (snd (frozen_message_count t0 t1 provider sid st)) k = prefixes (maybe_cleanup t0 st) k"
  by (simp add: frozen_message_count_def Let_def split: option.splits)

lemma frozen_message_count_betas [frame]: "betas (snd (frozen_message_count t0 t1 p sid st)) = betas st"
  by (simp add: frozen_message_count_def Let_def split: option.splits)

lemma update_betas [frame]: "betas (update_from_response t0 t1 p sid r w es st) = betas st"
  by (simp add: update_from_response_def Let_def)

text \<open>What an update leaves in the session's own entry.\<close>

definition turn_room :: "inner \<Rightarrow> session_key \<Rightarrow> bool" where
  "turn_room st k \<longleftrightarrow> (case prefixes st k of None \<Rightarrow> True | Some s \<Rightarrow> turn_number s \<noteq> - 1)"

lemma update_own_entry:
  assumes "turn_room st (p, sid)"
  obtains s where "prefixes (update_from_response t0 t1 p sid r w es st) (p, sid) = Some s"
    "last_activity s = t1" "turn_number s \<noteq> 0"
    "cached_token_count s = saturating_add r w"
    "cached_message_count s =
       (if saturating_add r w = 0 then 0 else frozen_walk (saturating_add r w) es 0 0 0)"
proof -
  let ?st = "maybe_cleanup t0 st"
  let ?old = "case prefixes ?st (p, sid) of
      None \<Rightarrow> \<lparr>cached_token_count = 0, cached_message_count = 0, turn_number = 0, last_activity = t1\<rparr>
    | Some s \<Rightarrow> s"
  have room: "turn_number ?old \<noteq> - 1"
    using assms by (auto simp: turn_room_def maybe_cleanup_prefixes split: option.splits)
  then have "turn_number ?old + 1 \<noteq> 0"
    by (metis add_eq_0_iff add.commute)
  then show thesis
    by (intro that[of "the (prefixes (update_from_response t0 t1 p sid r w es st) (p, sid))"])
      (auto simp: update_from_response_def Let_def)
qed

section \<open>Properties of the sticky betas\<close>

definition stored_betas :: "inner \<Rightarrow> session_key \<Rightarrow> string list" where
  "stored_betas st k = unwrap_or [] (map_of (betas st) k)"

definition tokens_ok :: "string list \<Rightarrow> bool" where
  "tokens_ok ts \<longleftrightarrow> (\<forall>t \<in> set ts. token_ok t) \<and> distinct (map to_ascii_lowercase ts)"

definition betas_ok :: "inner \<Rightarrow> bool" where
  "betas_ok st \<longleftrightarrow> distinct (map fst (betas st)) \<and> length (betas st) \<le> MAX_BETA_SESSIONS
     \<and> (\<forall>(k, ts) \<in> set (betas st). tokens_ok ts)"

lemma take_entry_result: "fst (take_entry k xs) = map_of xs k"
  by (induction xs) (auto split: prod.splits)

lemma take_entry_rest:
  "distinct (map fst xs) \<Longrightarrow> snd (take_entry k xs) = filter (\<lambda>(k', _). k' \<noteq> k) xs"
proof (induction xs)
  case (Cons x xs)
  obtain k' v where x: "x = (k', v)" by (cases x)
  have "filter (\<lambda>(k', _). k' \<noteq> k) xs = xs" if "k' = k"
    using Cons.prems that x by (auto simp: filter_id_conv image_iff)
  moreover have "snd (take_entry k xs) = filter (\<lambda>(k', _). k' \<noteq> k) xs"
    using Cons by simp
  ultimately show ?case using x by (cases "take_entry k xs") auto
qed simp

lemma merge_betas_extends: "\<exists>new. merge_betas merged ts = merged @ new"
  by (induction merged ts rule: merge_betas.induct) auto

lemma merge_betas_ok:
  "tokens_ok merged \<Longrightarrow> \<forall>t \<in> set ts. token_ok t \<Longrightarrow> tokens_ok (merge_betas merged ts)"
proof (induction merged ts rule: merge_betas.induct)
  case (2 merged token tokens)
  have "tokens_ok (merged @ [token])"
    if "\<not> (\<exists>seen \<in> set merged. eq_ignore_ascii_case seen token)"
    using "2.prems" that by (auto simp: tokens_ok_def eq_ignore_ascii_case_def)
  then show ?case
    using "2.IH" "2.prems" by (cases "\<exists>seen \<in> set merged. eq_ignore_ascii_case seen token") simp_all
qed simp

lemma merge_betas_covers:
  "t \<in> set ts \<Longrightarrow> \<exists>s \<in> set (merge_betas merged ts). eq_ignore_ascii_case s t"
proof (induction merged ts rule: merge_betas.induct)
  case (2 merged token tokens)
  obtain new where "merge_betas merged tokens = merged @ new" using merge_betas_extends by metis
  moreover obtain new' where "merge_betas (merged @ [token]) tokens = (merged @ [token]) @ new'"
    using merge_betas_extends by metis
  ultimately show ?case using 2 by auto
qed simp

lemma merge_betas_idem:
  "(\<And>t. t \<in> set ts \<Longrightarrow> \<exists>s \<in> set merged. eq_ignore_ascii_case s t) \<Longrightarrow> merge_betas merged ts = merged"
  by (induction merged ts rule: merge_betas.induct) auto

lemma betas_ok_default: "betas_ok inner_default"
  by (simp add: betas_ok_def inner_default_def)

lemma stored_betas_default: "stored_betas inner_default k = []"
  by (simp add: stored_betas_def inner_default_def)

lemma stored_betas_ok: "betas_ok st \<Longrightarrow> tokens_ok (stored_betas st k)"
  by (auto simp: betas_ok_def stored_betas_def unwrap_or_def tokens_ok_def
      split: option.splits dest!: map_of_SomeD)

lemma sticky_betas_state:
  assumes "betas_ok st" "sticky_betas p sid v st = (out, st')"
  defines "ts \<equiv> merge_betas (stored_betas st (p, sid)) (comma_tokens (unwrap_or [] v))"
  shows "out = join '','' ts" "tokens_ok ts"
    "\<exists>dropped others. betas st' = others @ [((p, sid), ts)]
       \<and> filter (\<lambda>(k, _). k \<noteq> (p, sid)) (betas st) = dropped @ others \<and> length others < MAX_BETA_SESSIONS"
    "prefixes st' = prefixes st"
    "betas st' = evict_front (MAX_BETA_SESSIONS - 1) (filter (\<lambda>(k, _). k \<noteq> (p, sid)) (betas st)) @ [((p, sid), ts)]"
proof -
  let ?others = "filter (\<lambda>(k, _). k \<noteq> (p, sid)) (betas st)"
  have split: "take_entry (p, sid) (betas st) = (map_of (betas st) (p, sid), ?others)"
    using assms(1) take_entry_result take_entry_rest unfolding betas_ok_def by (metis prod.collapse)
  show "out = join '','' ts" "prefixes st' = prefixes st"
    using assms(2) split by (auto simp: sticky_betas_def ts_def stored_betas_def Let_def)
  show "tokens_ok ts" unfolding ts_def
    by (rule merge_betas_ok[OF stored_betas_ok[OF assms(1)]]) (auto dest: comma_tokens_ok)
  show "betas st' = evict_front (MAX_BETA_SESSIONS - 1) ?others @ [((p, sid), ts)]"
    using assms(2) split
    by (auto simp: sticky_betas_def ts_def stored_betas_def Let_def evict_front_snoc MAX_BETA_SESSIONS_def)
  moreover have "?others = take (length ?others - (MAX_BETA_SESSIONS - 1)) ?others
      @ evict_front (MAX_BETA_SESSIONS - 1) ?others"
    unfolding evict_front_drop by (rule append_take_drop_id[symmetric])
  moreover have "length (evict_front (MAX_BETA_SESSIONS - 1) ?others) < MAX_BETA_SESSIONS"
    by (simp add: evict_front_length MAX_BETA_SESSIONS_def)
  ultimately show "\<exists>dropped others. betas st' = others @ [((p, sid), ts)]
       \<and> ?others = dropped @ others \<and> length others < MAX_BETA_SESSIONS"
    by blast
qed

lemma betas_ok_sticky:
  assumes "betas_ok st" "sticky_betas p sid v st = (out, st')"
  shows "betas_ok st'"
proof -
  note facts = sticky_betas_state[OF assms]
  from facts(3) obtain dropped others where st': "betas st' = others @ [((p, sid),
        merge_betas (stored_betas st (p, sid)) (comma_tokens (unwrap_or [] v)))]"
    and cut: "filter (\<lambda>(k, _). k \<noteq> (p, sid)) (betas st) = dropped @ others"
    and len: "length others < MAX_BETA_SESSIONS"
    by blast
  have sub: "x \<in> set others \<Longrightarrow> x \<in> set (betas st) \<and> fst x \<noteq> (p, sid)" for x
  proof -
    assume "x \<in> set others"
    then have "x \<in> set (filter (\<lambda>(k, _). k \<noteq> (p, sid)) (betas st))" unfolding cut by simp
    then show ?thesis by auto
  qed
  have "distinct (map fst (filter (\<lambda>(k, _). k \<noteq> (p, sid)) (betas st)))"
    using assms(1) by (auto simp: betas_ok_def distinct_map_filter)
  then have "distinct (map fst others)" unfolding cut by simp
  then show ?thesis
    using st' len sub facts(2) assms(1) by (fastforce simp: betas_ok_def)
qed

text \<open>
  A floor is a confirmed prefix. After a response that reported \<open>r\<close> cached and \<open>w\<close>
  written tokens, the next request of the session (within the TTL) freezes at least \<open>k\<close>
  messages exactly when the first \<open>k\<close> estimates fit in \<open>r + w\<close> (sums saturating at
  \<open>u64::MAX\<close>) and \<open>r + w\<close> reaches \<open>MIN_CACHED_TOKENS\<close>.
\<close>

theorem frozen_floor_confirmed:
  assumes "turn_room st (p, sid)" "t2 - t1 \<le> SESSION_TTL"
  shows "k \<le> fst (frozen_message_count t2 t3 p sid (update_from_response t0 t1 p sid r w es st)) \<longleftrightarrow>
     k = 0 \<or> (1024 \<le> unat r + unat w \<and> k \<le> length es
       \<and> fits (saturating_add r w) (sum_list (map unat (take k es))))"
proof -
  obtain s where s: "prefixes (update_from_response t0 t1 p sid r w es st) (p, sid) = Some s"
    "last_activity s = t1" "turn_number s \<noteq> 0" "cached_token_count s = saturating_add r w"
    "cached_message_count s =
       (if saturating_add r w = 0 then 0 else frozen_walk (saturating_add r w) es 0 0 0)"
    using update_own_entry[OF assms(1)] by blast
  have entry: "prefixes (maybe_cleanup t2 (update_from_response t0 t1 p sid r w es st)) (p, sid) = Some s"
    using s(1,2) assms(2) by (intro maybe_cleanup_fresh) auto
  have low: "saturating_add r w < MIN_CACHED_TOKENS \<longleftrightarrow> unat r + unat w < 1024"
    unfolding word_less_nat_alt unat_saturating_add MIN_CACHED_TOKENS_def by auto
  have "fst (frozen_message_count t2 t3 p sid (update_from_response t0 t1 p sid r w es st)) =
      (if unat r + unat w < 1024 then 0 else frozen_walk (saturating_add r w) es 0 0 0)"
    using entry s low by (auto simp: frozen_message_count_def Let_def)
  then show ?thesis
    using frozen_walk_iff[of 0 k "saturating_add r w" es 0] by auto
qed

theorem frozen_floor_confirmed_witness:
  "fst (frozen_message_count 5 6 SessionOpenAi ''s''
     (update_from_response 1 2 SessionOpenAi ''s'' 1000 200 [500, 700, 1] inner_default)) \<ge> 2"
  by (subst frozen_floor_confirmed)
    (simp_all add: turn_room_def inner_default_def SESSION_TTL_def NANOS_def unat_saturating_add
      saturating_add_def unat_word_ariths)

text \<open>
  Sessions are isolated: neither reading nor updating one session's floor changes the
  tracker of another, but for the expiry sweep every operation starts with; and the sweep
  keeps exactly the entries no older than the TTL.
\<close>

theorem sessions_isolated:
  assumes "k \<noteq> (p, sid)"
  shows "prefixes (update_from_response t0 t1 p sid r w es st) k = prefixes (maybe_cleanup t0 st) k
    \<and> prefixes (snd (frozen_message_count t0 t1 p sid st)) k = prefixes (maybe_cleanup t0 st) k
    \<and> (prefixes (maybe_cleanup t0 st) k = prefixes st k
       \<or> (prefixes (maybe_cleanup t0 st) k = None
          \<and> (\<exists>s. prefixes st k = Some s \<and> SESSION_TTL < t0 - last_activity s)))"
  using assms
  by (auto simp: update_prefixes_other frozen_prefixes_other maybe_cleanup_prefixes option_filter_def
      split: option.splits)

theorem sessions_isolated_witness:
  "prefixes (update_from_response 1 2 SessionOpenAi ''a'' 5 6 [] inner_default) (SessionAnthropic, ''a'')
   = prefixes (maybe_cleanup 1 inner_default) (SessionAnthropic, ''a'')"
  using sessions_isolated[of "(SessionAnthropic, ''a'')" SessionOpenAi "''a''" 1 2 5 6 "[]" inner_default]
  by blast

text \<open>
  The sticky merge. The value sent upstream parses back to the session's token list:
  the tokens seen before, in order, then the client's new ones; no token is lost, none
  repeats up to ASCII case, and the table keeps at most \<open>MAX_BETA_SESSIONS\<close> sessions.
\<close>

theorem sticky_betas_merge:
  assumes "betas_ok st" "sticky_betas p sid v st = (out, st')"
  shows "comma_tokens out = merge_betas (stored_betas st (p, sid)) (comma_tokens (unwrap_or [] v))
    \<and> (\<exists>new. comma_tokens out = stored_betas st (p, sid) @ new)
    \<and> (\<forall>t \<in> set (comma_tokens (unwrap_or [] v)). \<exists>s \<in> set (comma_tokens out). eq_ignore_ascii_case s t)
    \<and> distinct (map to_ascii_lowercase (comma_tokens out))
    \<and> stored_betas st' (p, sid) = comma_tokens out \<and> betas_ok st'"
proof -
  note facts = sticky_betas_state[OF assms]
  let ?ts = "merge_betas (stored_betas st (p, sid)) (comma_tokens (unwrap_or [] v))"
  have out: "comma_tokens out = ?ts"
    using facts(1,2) comma_tokens_join unfolding tokens_ok_def by metis
  obtain others where "betas st' = others @ [((p, sid), ?ts)]" using facts(3) by blast
  moreover have "distinct (map fst (betas st'))"
    using betas_ok_sticky[OF assms] by (simp add: betas_ok_def)
  ultimately have "map_of (betas st') (p, sid) = Some ?ts"
    by (intro map_of_is_SomeI) simp_all
  then have "stored_betas st' (p, sid) = ?ts"
    by (simp add: stored_betas_def)
  then show ?thesis
    using out facts(2) merge_betas_extends merge_betas_covers betas_ok_sticky[OF assms]
    by (auto simp: tokens_ok_def)
qed

theorem sticky_betas_merge_witness:
  "stored_betas (snd (sticky_betas SessionAnthropic ''s'' (Some ''b, A,,a '') inner_default)) (SessionAnthropic, ''s'')
     = merge_betas [] (comma_tokens ''b, A,,a '')"
proof -
  obtain out st' where run: "sticky_betas SessionAnthropic ''s'' (Some ''b, A,,a '') inner_default = (out, st')"
    by fastforce
  show ?thesis
    using sticky_betas_merge[OF betas_ok_default run] run
    by (simp add: stored_betas_default)
qed

end
