(* ===== verification/Compress.thy ===== *)
theory Compress
  imports Ccr
begin

text \<open>
  Compression of one text, \<open>compress\<close> of \<open>src/compression.rs\<close>: the original goes to the
  store under its content hash and a marker takes its place. The lemmas about the store's
  contents are proved once, in the context of the interface \<open>ccr_store\<close>.
\<close>

section \<open>Definitions\<close>

record compress_result =
  cr_output :: string
  cr_hash :: "string option"
  cr_marker :: "string option"
  cr_original_bytes :: nat
  cr_compressed_bytes :: nat
  cr_original_tokens :: nat
  cr_compressed_tokens :: nat
  cr_stored :: bool
  cr_skipped_reason :: "string option"
  cr_error :: "string option"

definition skipped :: "string \<Rightarrow> string \<Rightarrow> nat \<Rightarrow> nat \<Rightarrow> compress_result" where
  "skipped input reason original_bytes original_tokens =
     \<lparr>cr_output = input, cr_hash = None, cr_marker = None,
      cr_original_bytes = original_bytes, cr_compressed_bytes = original_bytes,
      cr_original_tokens = original_tokens, cr_compressed_tokens = original_tokens,
      cr_stored = False, cr_skipped_reason = Some reason, cr_error = None\<rparr>"

definition compress ::
    "(string \<Rightarrow> string) \<Rightarrow> 's ccr_store_ops \<Rightarrow> nat \<Rightarrow> string \<Rightarrow> 's world \<Rightarrow> compress_result \<times> 's world" where
  "compress sha256 ops min_bytes input w =
     (let original_bytes = length input; original_tokens = estimate_tokens input in
      if trim input = [] then (skipped input ''empty'' original_bytes original_tokens, w)
      else if original_bytes < min_bytes then
        (skipped input ''below_min_bytes'' original_bytes original_tokens, w)
      else
        let hash = content_hash sha256 input; marker = marker_for_hash hash in
        case put_op ops hash input (the_store w) of
          (Inr inserted, s') \<Rightarrow>
            (\<lparr>cr_output = marker, cr_hash = Some hash, cr_marker = Some marker,
              cr_original_bytes = original_bytes, cr_compressed_bytes = length marker,
              cr_original_tokens = original_tokens, cr_compressed_tokens = estimate_tokens marker,
              cr_stored = True, cr_skipped_reason = None, cr_error = None\<rparr>,
             w\<lparr>the_store := s',
               the_stats := if inserted then record_ccr_entry_inserted (the_stats w) else the_stats w\<rparr>)
        | (Inl err, s') \<Rightarrow>
            (\<lparr>cr_output = input, cr_hash = Some hash, cr_marker = None,
              cr_original_bytes = original_bytes, cr_compressed_bytes = original_bytes,
              cr_original_tokens = original_tokens, cr_compressed_tokens = original_tokens,
              cr_stored = False, cr_skipped_reason = Some ''store_error'', cr_error = Some err\<rparr>,
             w\<lparr>the_store := s'\<rparr>))"

definition estimate_tokens_bytes :: "string \<Rightarrow> nat" where
  "estimate_tokens_bytes input =
     (if utf8_valid input then estimate_tokens input else max ((length input + 3) div 4) 1)"

section \<open>Markers as texts\<close>

lemma marker_hash_ok:
  assumes "digest_ok sha256"
  shows "24 \<le> length (content_hash sha256 x)" "length (content_hash sha256 x) \<le> 64"
    "\<forall>c \<in> set (content_hash sha256 x). is_ascii_hexdigit c"
  using content_hash_length[OF assms, of x] content_hash_lower lower_hex_is_hex
  by (auto simp: HASH_HEX_LEN_def)

lemma marker_ascii: "is_ascii (marker_for_hash (content_hash sha256 x))"
  using content_hash_ascii[of sha256 x] by (auto simp: marker_for_hash_def is_ascii_def byte_def)

lemma marker_not_blank:
  assumes "is_ascii h" "\<forall>c \<in> set h. is_ascii_hexdigit c"
  shows "split_whitespace (marker_for_hash h) = [marker_for_hash h]"
proof -
  have ascii: "is_ascii (marker_for_hash h)"
    using assms(1) by (auto simp: marker_for_hash_def is_ascii_def byte_def)
  have "\<not> is_whitespace [c]" if "c \<in> set (marker_for_hash h)" for c
    using that assms(2)
    by (auto simp: marker_for_hash_def is_whitespace_def is_ascii_hexdigit_def byte_def)
  then have "split_on is_whitespace (chars (marker_for_hash h)) = [chars (marker_for_hash h)]"
    using ascii by (intro split_on_no_sep) (auto simp: chars_ascii)
  moreover have "chars (marker_for_hash h) \<noteq> []"
    using ascii by (simp add: chars_ascii) (simp add: marker_for_hash_def)
  ultimately show ?thesis
    by (simp add: split_whitespace_def)
qed

text \<open>A marker is 32 bytes, and 8 tokens.\<close>

lemma marker_size:
  assumes "digest_ok sha256"
  shows "length (marker_for_hash (content_hash sha256 x)) = 32"
    "estimate_tokens (marker_for_hash (content_hash sha256 x)) = 8"
proof -
  let ?m = "marker_for_hash (content_hash sha256 x)"
  show len: "length ?m = 32"
    using content_hash_length[OF assms, of x] by (simp add: marker_length_def HASH_HEX_LEN_def)
  have "length (chars ?m) = 32" using len chars_ascii[OF marker_ascii] by simp
  moreover have "split_whitespace ?m = [?m]"
    by (rule marker_not_blank[OF content_hash_ascii marker_hash_ok(3)[OF assms]])
  ultimately show "estimate_tokens ?m = 8" by (simp add: estimate_tokens_def)
qed

lemma estimate_tokens_lower: "length s \<le> 16 * estimate_tokens s"
  using length_le_chars[of s] by (auto simp: estimate_tokens_def)

section \<open>What compression does to a store\<close>

context ccr_store
begin

text \<open>
  The premise on \<open>entries\<close> excludes a hash collision: under the hash of \<open>input\<close> the store
  holds nothing or \<open>input\<close> itself.
\<close>

lemma compress_stored:
  assumes "sound (the_store w)" "compress sha256 ops min_bytes input w = (r, w')" "cr_stored r"
  shows "cr_output r = marker_for_hash (content_hash sha256 input)"
    "sound (the_store w')" "entries (the_store w) \<subseteq>\<^sub>m entries (the_store w')"
    "entries (the_store w) (content_hash sha256 input) \<in> {None, Some input} \<Longrightarrow>
       entries (the_store w') (content_hash sha256 input) = Some input"
proof -
  let ?h = "content_hash sha256 input"
  obtain res s' where put: "put_op ops ?h input (the_store w) = (res, s')" by fastforce
  with assms(2,3) obtain b where res: "res = Inr b"
    and out: "cr_output r = marker_for_hash ?h" and w': "the_store w' = s'"
    by (auto simp: compress_def Let_def skipped_def split: if_splits sum.splits)
  show "cr_output r = marker_for_hash ?h" by (fact out)
  show "sound (the_store w')" using put_sound[OF assms(1) put] w' by simp
  show "entries (the_store w) \<subseteq>\<^sub>m entries (the_store w')"
    using put_extends[OF assms(1) put] w' by simp
  show "entries (the_store w') ?h = Some input" if "entries (the_store w) ?h \<in> {None, Some input}"
    by (rule put_cases[OF assms(1) put]) (use res w' that in auto)
qed

lemma compress_unchanged:
  assumes "sound (the_store w)" "compress sha256 ops min_bytes input w = (r, w')" "\<not> cr_stored r"
  shows "cr_output r = input \<and> entries (the_store w') = entries (the_store w) \<and> sound (the_store w')
    \<and> the_stats w' = the_stats w"
  using assms
  by (auto simp: compress_def Let_def skipped_def split: if_splits sum.splits prod.splits
      dest: put_err)

lemma compress_round_trip:
  assumes "digest_ok sha256" "sound (the_store w)"
    and "compress sha256 ops min_bytes input w = (r, w')" "cr_stored r"
    and "entries (the_store w) (content_hash sha256 input) \<in> {None, Some input}"
    and "reads_ok ops (entries (the_store w'')) (the_store w'')"
    and "entries (the_store w') \<subseteq>\<^sub>m entries (the_store w'')"
    and "\<not> contains ''<<ccr:'' before" "\<not> contains ''<<ccr:'' behind"
  shows "dr_output (fst (decompress_text ops (before @ cr_output r @ behind) w'')) = before @ input @ behind"
proof -
  note st = compress_stored[OF assms(2-4)]
  have "entries (the_store w'') (content_hash sha256 input) = Some input"
    using st(4)[OF assms(5)] assms(7) by (auto simp: map_le_def dom_def)
  then show ?thesis
    using decompress_text_expand[OF assms(6)] expand_in_context[OF assms(8,9) marker_hash_ok[OF assms(1)]]
    by (simp add: st(1))
qed

end

section \<open>The SQLite store\<close>

type_synonym put_request = "i64 \<times> string \<times> string"

text \<open>Any later writes, each with its clock reading, hash and text.\<close>

definition later_puts :: "put_request list \<Rightarrow> sqlite_store \<Rightarrow> sqlite_store" where
  "later_puts = fold (\<lambda>(now, h, t) s. snd (sqlite_put now h t s))"

lemma later_puts_keep:
  assumes "sqlite_sound s"
  shows "sqlite_sound (later_puts ps s) \<and> sqlite_entries s \<subseteq>\<^sub>m sqlite_entries (later_puts ps s)
    \<and> lock_poisoned (later_puts ps s) = lock_poisoned s \<and> sql_fails (later_puts ps s) = sql_fails s"
  using assms
proof (induction ps arbitrary: s)
  case (Cons p ps)
  obtain now h t where p: "p = (now, h, t)" by (cases p)
  obtain r s' where put: "sqlite_put now h t s = (r, s')" by fastforce
  then have "put_op (sqlite_ops now) h t s = (r, s')" by (simp add: sqlite_ops_def)
  then have "sqlite_sound s'" "sqlite_entries s \<subseteq>\<^sub>m sqlite_entries s'"
    using sqlite.put_sound sqlite.put_extends Cons.prems by blast+
  then show ?case
    using Cons.IH[of s'] sqlite_put_fields[OF put] p put
    by (auto simp: later_puts_def intro: map_le_trans)
qed (simp add: later_puts_def)

lemma sqlite_reads_ok:
  "\<not> lock_poisoned s \<Longrightarrow> sql_fails s SqlSelect = None \<Longrightarrow> reads_ok (sqlite_ops now) (sqlite_entries s) s"
  by (simp add: reads_ok_def sqlite_ops_def sqlite_get_def sqlite_entries_def)

text \<open>
  C4: A stored original comes back. If \<open>compress\<close> stored \<open>input\<close> (and no other text has its
  hash), then after any later writes, decompressing the marker in any context free of marker
  prefixes gives the context with the exact input in place of the marker.
\<close>

theorem compress_decompress:
  assumes "digest_ok sha256" "sqlite_sound (the_store w)"
    and "compress sha256 (sqlite_ops now) min_bytes input w = (r, w')" "cr_stored r"
    and "sqlite_entries (the_store w) (content_hash sha256 input) \<in> {None, Some input}"
    and "\<not> lock_poisoned (the_store w')" "sql_fails (the_store w') SqlSelect = None"
    and "\<not> contains ''<<ccr:'' before" "\<not> contains ''<<ccr:'' behind"
  shows "dr_output (fst (decompress_text (sqlite_ops now') (before @ cr_output r @ behind)
           (w'\<lparr>the_store := later_puts ps (the_store w')\<rparr>))) = before @ input @ behind"
proof -
  have sound: "sqlite_sound (the_store w')"
    using sqlite.compress_stored(2)[OF assms(2-4)] .
  note keep = later_puts_keep[OF sound, of ps]
  have reads: "reads_ok (sqlite_ops n) (sqlite_entries (later_puts ps (the_store w')))
      (later_puts ps (the_store w'))" for n
    using keep assms(6,7) by (intro sqlite_reads_ok) auto
  have expand: "dr_output (fst (decompress_text (sqlite_ops now) (before @ cr_output r @ behind)
      (w'\<lparr>the_store := later_puts ps (the_store w')\<rparr>))) = before @ input @ behind"
    using keep reads by (intro sqlite.compress_round_trip[OF assms(1-5) _ _ assms(8,9)]) auto
  have "dr_output (fst (decompress_text (sqlite_ops n) u (w'\<lparr>the_store := later_puts ps (the_store w')\<rparr>)))
      = expand (sqlite_entries (later_puts ps (the_store w'))) 0 u" for n u
    using reads by (intro decompress_text_expand) simp
  with expand show ?thesis by metis
qed

definition const_digest :: "string \<Rightarrow> string" where
  "const_digest x = replicate 32 (CHR ''a'')"

lemma digest_ok_const: "digest_ok const_digest"
  by (simp add: digest_ok_def const_digest_def)

definition empty_world :: "sqlite_store world" where
  "empty_world = \<lparr>the_store = sqlite_in_memory, the_stats = stats_default\<rparr>"

lemma sqlite_sound_empty: "sqlite_sound sqlite_in_memory"
  by (simp add: sqlite_sound_def sqlite_in_memory_def)

theorem compress_decompress_witness:
  "\<exists>r w'. compress const_digest (sqlite_ops 1) 0 ''abc'' empty_world = (r, w') \<and> cr_stored r
     \<and> dr_output (fst (decompress_text (sqlite_ops 2) (''x '' @ cr_output r @ '' y'')
           (w'\<lparr>the_store := later_puts [(3, ''h'', ''t'')] (the_store w')\<rparr>))) = ''x '' @ ''abc'' @ '' y''"
proof -
  have blank: "trim ''abc'' \<noteq> []"
    by (simp add: trim_def drop_while_end_def is_whitespace_def byte_def utf8_width_def)
  obtain r w' where run: "compress const_digest (sqlite_ops 1) 0 ''abc'' empty_world = (r, w')"
    by fastforce
  have facts: "cr_stored r" "\<not> lock_poisoned (the_store w')" "sql_fails (the_store w') SqlSelect = None"
    using run blank
    by (auto simp: compress_def Let_def sqlite_ops_def sqlite_put_def empty_world_def sqlite_in_memory_def)
  have "sqlite_sound (the_store empty_world)"
    "sqlite_entries (the_store empty_world) (content_hash const_digest ''abc'') \<in> {None, Some ''abc''}"
    using sqlite_sound_empty by (simp_all add: empty_world_def sqlite_entries_def sqlite_in_memory_def)
  from compress_decompress[OF digest_ok_const this(1) run facts(1) this(2) facts(2,3),
      of "''x ''" "'' y''" 2 "[(3, ''h'', ''t'')]"] run facts(1)
  show ?thesis by (auto simp: starts_with_def)
qed

text \<open>
  The store is content-addressed and append-only. Whatever \<open>put\<close> answers, the primary
  key and the size columns stay consistent and no entry changes; a lookup that answers gives
  the current entry; and \<open>put\<close> reports an insertion exactly when the hash was new.
\<close>

theorem sqlite_put_append_only:
  assumes "sqlite_sound st" "sqlite_put now h t st = (r, st')"
  shows "sqlite_sound st' \<and> sqlite_entries st \<subseteq>\<^sub>m sqlite_entries st'
    \<and> (case r of
           Inr inserted \<Rightarrow> (inserted \<longleftrightarrow> sqlite_entries st h = None)
             \<and> sqlite_entries st' h = Some (case sqlite_entries st h of None \<Rightarrow> t | Some old \<Rightarrow> old)
         | Inl e \<Rightarrow> sqlite_entries st' = sqlite_entries st)"
proof -
  have put: "put_op (sqlite_ops now) h t st = (r, st')"
    using assms(2) by (simp add: sqlite_ops_def)
  have "sqlite_sound st' \<and> sqlite_entries st \<subseteq>\<^sub>m sqlite_entries st'"
    using sqlite.put_sound[OF assms(1) put] sqlite.put_extends[OF assms(1) put] ..
  note kept = this
  show ?thesis
    by (rule sqlite.put_cases[OF assms(1) put]) (use kept in \<open>auto split: option.splits\<close>)
qed

theorem sqlite_put_append_only_witness:
  "sqlite_entries (snd (sqlite_put 7 ''h'' ''t'' sqlite_in_memory)) ''h'' = Some ''t''"
proof -
  obtain r st' where run: "sqlite_put 7 ''h'' ''t'' sqlite_in_memory = (r, st')" by fastforce
  then have "r = Inr True" "sqlite_entries sqlite_in_memory ''h'' = None"
    by (auto simp: sqlite_put_def sqlite_in_memory_def sqlite_entries_def)
  then show ?thesis
    using sqlite_put_append_only[OF sqlite_sound_empty run] run by simp
qed

text \<open>
  \<open>compress\<close> on its branches. The token and byte counts always describe the output; a
  text that is blank or below the threshold leaves store and counters untouched, a store
  error returns the input with the error and keeps every entry, and otherwise the output is
  the 32-byte, 8-token marker of the text's hash.
\<close>

theorem compress_branches:
  assumes "digest_ok sha256" "sqlite_sound (the_store w)"
    and "compress sha256 (sqlite_ops now) min_bytes input w = (r, w')"
  shows "cr_compressed_bytes r = length (cr_output r) \<and> cr_compressed_tokens r = estimate_tokens (cr_output r)
    \<and> (if trim input = [] \<or> length input < min_bytes then cr_output r = input \<and> w' = w \<and> cr_error r = None
       else if cr_stored r then cr_output r = marker_for_hash (content_hash sha256 input)
         \<and> cr_compressed_bytes r = 32 \<and> cr_compressed_tokens r = 8
       else cr_output r = input \<and> cr_error r \<noteq> None \<and> cr_skipped_reason r = Some ''store_error''
         \<and> sqlite_entries (the_store w') = sqlite_entries (the_store w))"
proof -
  note un = sqlite.compress_unchanged[OF assms(2,3)]
  show ?thesis
    using assms(3) un
    by (auto simp: compress_def Let_def skipped_def marker_size[OF assms(1)] simp del: length_marker
        split: if_splits sum.splits prod.splits)
qed

theorem compress_branches_witness:
  "cr_output (fst (compress const_digest (sqlite_ops 1) 9 ''abc'' empty_world)) = ''abc''"
proof -
  obtain r w' where run: "compress const_digest (sqlite_ops 1) 9 ''abc'' empty_world = (r, w')" by fastforce
  have "sqlite_sound (the_store empty_world)" using sqlite_sound_empty by (simp add: empty_world_def)
  from compress_branches[OF digest_ok_const this run] run show ?thesis by simp
qed

end
