(* ===== verification/Live_Zone.thy ===== *)
theory Live_Zone
  imports Compress Splice Session
begin

text \<open>
  Live-zone planning of \<open>src/compression.rs\<close>: which JSON string tokens of a request may be
  replaced by markers, for each API shape, and the gate that turns one planned slot into a
  replacement. A planner returns the reason it gives for planning nothing and the slots it
  appends. The lemmas show where slots can lie: inside the body, on string tokens, in an
  order the splice accepts, never on frozen messages or protected blocks.
\<close>

section \<open>Shapes, contexts, slots\<close>

datatype api_shape =
  OpenAiChatCompletions | OpenAiResponses | AnthropicMessages | AnthropicMessageBatches

datatype request_auth_mode = Payg | OAuth | Subscription

record compress_context =
  cc_auth_mode :: request_auth_mode
  cc_frozen_message_count :: nat
  cc_compress_user_text :: bool
  cc_provider_metadata :: bool

definition compress_context_new :: "request_auth_mode \<Rightarrow> compress_context" where
  "compress_context_new auth_mode =
     \<lparr>cc_auth_mode = auth_mode, cc_frozen_message_count = 0,
      cc_compress_user_text = False, cc_provider_metadata = True\<rparr>"

definition LIVE_ZONE_MIN_BYTES :: nat where
  "LIVE_ZONE_MIN_BYTES = 512"

definition RESPONSES_OUTPUT_MIN_BYTES :: nat where
  "RESPONSES_OUTPUT_MIN_BYTES = 512"

definition HOT_ZONE_BLOCK_TYPES :: "string list" where
  "HOT_ZONE_BLOCK_TYPES = [''tool_use'', ''thinking'', ''redacted_thinking'', ''compaction'']"

record plan_slot =
  ps_range :: "nat \<times> nat"
  ps_text :: string
  ps_min_bytes :: nat
  ps_batch_request_index :: "nat option"
  ps_label :: string

type_synonym plan_result = "string option \<times> plan_slot list"

abbreviation quote :: char where
  "quote \<equiv> CHR 0x22"

section \<open>Retrieve calls and cache-control marks\<close>

definition is_retrieve_tool_name :: "string \<Rightarrow> bool" where
  "is_retrieve_tool_name name \<longleftrightarrow>
     name = ''headroom_retrieve'' \<or> ends_with ''__headroom_retrieve'' name"

definition headroom_retrieve_tool_call_ids :: "json list \<Rightarrow> string list" where
  "headroom_retrieve_tool_call_ids messages =
     concat (map (\<lambda>message.
       case get_array ''tool_calls'' message of
         None \<Rightarrow> []
       | Some tool_calls \<Rightarrow>
           concat (map (\<lambda>tool_call.
             if is_retrieve_tool_name (unwrap_or [] (get_in_str ''function'' ''name'' tool_call))
             then (case get_str ''id'' tool_call of Some i \<Rightarrow> [i] | None \<Rightarrow> [])
             else []) tool_calls)) messages)"

definition responses_retrieve_call_ids :: "json list \<Rightarrow> string list" where
  "responses_retrieve_call_ids items =
     concat (map (\<lambda>item.
       if get_str ''type'' item \<noteq> Some ''function_call'' then []
       else if is_retrieve_tool_name (unwrap_or [] (get_str ''name'' item))
       then (case get_str ''call_id'' item of Some i \<Rightarrow> [i] | None \<Rightarrow> [])
       else []) items)"

definition is_responses_output_item :: "string \<Rightarrow> bool" where
  "is_responses_output_item kind \<longleftrightarrow>
     kind \<in> {''function_call_output'', ''local_shell_call_output'', ''apply_patch_call_output''}"

fun value_contains_ccr_marker :: "json \<Rightarrow> bool" where
  "value_contains_ccr_marker (JString t) = contains ''<<ccr:'' t"
| "value_contains_ccr_marker (JArray items) = list_ex value_contains_ccr_marker items"
| "value_contains_ccr_marker (JObject m) = list_ex (\<lambda>(k, v). value_contains_ccr_marker v) m"
| "value_contains_ccr_marker _ = False"

definition has_cache_control :: "json \<Rightarrow> bool" where
  "has_cache_control v \<longleftrightarrow> json_get ''cache_control'' v \<noteq> None"

definition anthropic_content_has_cache_control :: "json option \<Rightarrow> bool" where
  "anthropic_content_has_cache_control content \<longleftrightarrow>
     (case content of
        Some (JArray blocks) \<Rightarrow> \<exists>b \<in> set blocks. has_cache_control b
      | Some (JObject m) \<Rightarrow> has_cache_control (JObject m)
      | _ \<Rightarrow> False)"

definition anthropic_system_has_cache_control :: "json option \<Rightarrow> bool" where
  "anthropic_system_has_cache_control system \<longleftrightarrow>
     (case system of
        Some (JArray blocks) \<Rightarrow> \<exists>b \<in> set blocks. has_cache_control b
      | Some (JObject m) \<Rightarrow> has_cache_control (JObject m)
      | _ \<Rightarrow> False)"

definition anthropic_cache_control_already_set :: "json \<Rightarrow> bool" where
  "anthropic_cache_control_already_set v \<longleftrightarrow>
     (case get_array ''tools'' v of Some tools \<Rightarrow> \<exists>t \<in> set tools. has_cache_control t | None \<Rightarrow> False)
     \<or> anthropic_system_has_cache_control (json_get ''system'' v)
     \<or> (case get_array ''messages'' v of
           Some messages \<Rightarrow>
             \<exists>m \<in> set messages. anthropic_content_has_cache_control (json_get ''content'' m)
         | None \<Rightarrow> False)"

definition anthropic_frozen_message_count :: "json list \<Rightarrow> nat" where
  "anthropic_frozen_message_count messages =
     foldr max (map (\<lambda>(index, message). index + 1)
       (filter (\<lambda>(index, message). anthropic_content_has_cache_control (json_get ''content'' message))
         (enumerate 0 messages))) 0"

section \<open>Anthropic messages\<close>

text \<open>The slot of a string token at its place in the body.\<close>

definition string_slot ::
    "serde \<Rightarrow> slice \<Rightarrow> nat \<Rightarrow> nat \<Rightarrow> nat option \<Rightarrow> string \<Rightarrow> slice \<Rightarrow> plan_slot list" where
  "string_slot S segment base min_bytes bidx label token =
     (case (offset_of segment token, sd_string S (s_text token)) of
        (Some offset, Some t) \<Rightarrow>
          [\<lparr>ps_range = (base + offset, base + offset + length (s_text token)), ps_text = t,
            ps_min_bytes = min_bytes, ps_batch_request_index = bidx, ps_label = label\<rparr>]
      | _ \<Rightarrow> [])"

definition plan_anthropic_block ::
    "serde \<Rightarrow> slice \<Rightarrow> nat \<Rightarrow> string \<Rightarrow> bool \<Rightarrow> nat option \<Rightarrow> slice \<Rightarrow> plan_slot list" where
  "plan_anthropic_block S segment base role compress_user_text bidx block_raw =
     (case sd_block_header S block_raw of
        None \<Rightarrow> []
      | Some block \<Rightarrow>
          if bh_cache_control block \<noteq> None then []
          else
            let block_type = unwrap_or [] (bh_type block) in
            if block_type \<in> set HOT_ZONE_BLOCK_TYPES then []
            else
              let field_raw =
                (if block_type = ''tool_result'' then bh_content block
                 else if block_type = ''text'' then
                   (if role \<noteq> ''user'' \<or> \<not> compress_user_text then None else bh_text block)
                 else None)
              in case field_raw of
                None \<Rightarrow> []
              | Some field \<Rightarrow>
                  if \<not> starts_with [quote] (s_text field) then []
                  else string_slot S segment base LIVE_ZONE_MIN_BYTES bidx
                         (if block_type = ''tool_result'' then ''anthropic.tool_result''
                          else ''anthropic.text'') field)"

definition plan_anthropic_message ::
    "serde \<Rightarrow> slice \<Rightarrow> nat \<Rightarrow> bool \<Rightarrow> nat option \<Rightarrow> slice \<Rightarrow> plan_slot list" where
  "plan_anthropic_message S segment base compress_user_text bidx message_raw =
     (case sd_message_header S message_raw of
        None \<Rightarrow> []
      | Some header \<Rightarrow>
          let role = unwrap_or [] (mh_role header) in
          case mh_content header of
            None \<Rightarrow> []
          | Some content \<Rightarrow>
              if offset_of segment content = None then []
              else if starts_with [quote] (s_text content) then
                (if role = ''user'' \<and> compress_user_text
                 then string_slot S segment base LIVE_ZONE_MIN_BYTES bidx ''anthropic.string_content'' content
                 else [])
              else if \<not> starts_with ''['' (s_text content) then []
              else case sd_raw_values S content of
                None \<Rightarrow> []
              | Some blocks \<Rightarrow>
                  concat (map (plan_anthropic_block S segment base role compress_user_text bidx) blocks))"

definition plan_anthropic_segment ::
    "serde \<Rightarrow> slice \<Rightarrow> nat \<Rightarrow> nat \<Rightarrow> bool \<Rightarrow> nat option \<Rightarrow> plan_result" where
  "plan_anthropic_segment S segment base extra_floor compress_user_text bidx =
     (case Option.bind (sd_messages_view S segment) mv_messages of
        None \<Rightarrow> (Some ''missing_messages'', [])
      | Some messages \<Rightarrow>
          (case sd_value S (s_text segment) of
             None \<Rightarrow> (Some ''missing_messages'', [])
           | Some segment_value \<Rightarrow>
               let cache_control_floor =
                     (case get_array ''messages'' segment_value of
                        Some ms \<Rightarrow> anthropic_frozen_message_count ms | None \<Rightarrow> 0);
                   floor = max extra_floor cache_control_floor
               in if floor \<ge> length messages then (Some ''no_live_zone_message'', [])
                  else
                    let slots = concat (map (plan_anthropic_message S segment base compress_user_text bidx)
                                          (drop floor messages))
                    in (if slots = [] then Some ''no_live_zone_text'' else None, slots)))"

definition plan_batch_request ::
    "serde \<Rightarrow> slice \<Rightarrow> compress_context \<Rightarrow> nat \<times> slice \<Rightarrow> plan_slot list" where
  "plan_batch_request S body ctx = (\<lambda>(index, request_raw).
     case Option.bind (sd_batch_request_view S request_raw) br_params of
       None \<Rightarrow> []
     | Some params_raw \<Rightarrow>
         (case offset_of body params_raw of
            None \<Rightarrow> []
          | Some params_offset \<Rightarrow>
              snd (plan_anthropic_segment S params_raw params_offset 0
                     (cc_compress_user_text ctx) (Some index))))"

definition plan_anthropic_batches :: "serde \<Rightarrow> slice \<Rightarrow> compress_context \<Rightarrow> plan_result" where
  "plan_anthropic_batches S body ctx =
     (case Option.bind (sd_batch_view S body) bv_requests of
        None \<Rightarrow> (Some ''missing_requests'', [])
      | Some requests \<Rightarrow>
          let slots = concat (map (plan_batch_request S body ctx) (enumerate 0 requests))
          in (if slots = [] then Some ''no_live_zone_text'' else None, slots))"

section \<open>OpenAI chat\<close>

type_synonym found = "(nat \<times> message_header) option"

text \<open>
  The reverse walk for the latest tool and user messages, and what it does with one parsed
  header; \<open>ids\<close> are the ids of the retrieve calls.
\<close>

definition latest_step :: "string list \<Rightarrow> nat \<Rightarrow> message_header \<Rightarrow> found \<times> found \<Rightarrow> found \<times> found" where
  "latest_step ids index header = (\<lambda>(latest_tool, latest_user).
     if mh_role header = Some ''tool'' \<and> latest_tool = None then
       let name_is_retrieve =
             (case mh_name header of Some n \<Rightarrow> is_retrieve_tool_name n | None \<Rightarrow> False);
           call_is_retrieve =
             (case mh_tool_call_id header of Some i \<Rightarrow> i \<in> set ids | None \<Rightarrow> False)
       in (if \<not> (name_is_retrieve \<or> call_is_retrieve) then Some (index, header) else latest_tool,
           latest_user)
     else if mh_role header = Some ''user'' \<and> latest_user = None then
       (latest_tool, Some (index, header))
     else (latest_tool, latest_user))"

fun latest_scan ::
    "serde \<Rightarrow> nat \<Rightarrow> string list \<Rightarrow> (nat \<times> slice) list \<Rightarrow> found \<times> found \<Rightarrow> found \<times> found" where
  "latest_scan S frozen ids [] latest = latest"
| "latest_scan S frozen ids ((index, message_raw) # rest) latest =
     (if index < frozen then latest
      else case sd_message_header S message_raw of
        None \<Rightarrow> latest_scan S frozen ids rest latest
      | Some header \<Rightarrow>
          let latest = latest_step ids index header latest
          in if fst latest \<noteq> None \<and> snd latest \<noteq> None then latest
             else latest_scan S frozen ids rest latest)"

definition plan_openai_part :: "serde \<Rightarrow> slice \<Rightarrow> slice \<Rightarrow> plan_slot list" where
  "plan_openai_part S body part_raw =
     (case sd_block_header S part_raw of
        None \<Rightarrow> []
      | Some part \<Rightarrow>
          if bh_type part \<noteq> Some ''text'' then []
          else case bh_text part of
            None \<Rightarrow> []
          | Some token \<Rightarrow>
              if \<not> starts_with [quote] (s_text token) then []
              else string_slot S body 0 LIVE_ZONE_MIN_BYTES None ''openai.user_text'' token)"

definition plan_openai_user_content :: "serde \<Rightarrow> slice \<Rightarrow> slice \<Rightarrow> plan_slot list" where
  "plan_openai_user_content S body content =
     (if starts_with [quote] (s_text content) then
        string_slot S body 0 LIVE_ZONE_MIN_BYTES None ''openai.user_string'' content
      else if \<not> starts_with ''['' (s_text content) then []
      else case sd_raw_values S content of
        None \<Rightarrow> []
      | Some parts \<Rightarrow> concat (map (plan_openai_part S body) parts))"

definition plan_openai_tool_content :: "serde \<Rightarrow> slice \<Rightarrow> slice \<Rightarrow> plan_slot list" where
  "plan_openai_tool_content S body content =
     (if starts_with [quote] (s_text content)
      then string_slot S body 0 LIVE_ZONE_MIN_BYTES None ''openai.tool_content'' content
      else [])"

definition plan_openai_chat :: "serde \<Rightarrow> slice \<Rightarrow> json \<Rightarrow> compress_context \<Rightarrow> plan_result" where
  "plan_openai_chat S body parsed ctx =
     (case Option.bind (sd_messages_view S body) mv_messages of
        None \<Rightarrow> (Some ''missing_messages'', [])
      | Some messages \<Rightarrow>
          let ids = (case get_array ''messages'' parsed of
                       Some ms \<Rightarrow> headroom_retrieve_tool_call_ids ms | None \<Rightarrow> []);
              (latest_tool, latest_user) =
                latest_scan S (cc_frozen_message_count ctx) ids (rev (enumerate 0 messages)) (None, None)
          in if latest_tool = None \<and> latest_user = None then (Some ''no_live_zone_message'', [])
             else
               let tool_slots =
                     (case latest_tool of
                        Some (_, header) \<Rightarrow>
                          (case mh_content header of
                             Some content \<Rightarrow> plan_openai_tool_content S body content | None \<Rightarrow> [])
                      | None \<Rightarrow> []);
                   user_slots =
                     (if cc_compress_user_text ctx then
                        (case latest_user of
                           Some (_, header) \<Rightarrow>
                             (case mh_content header of
                                Some content \<Rightarrow> plan_openai_user_content S body content | None \<Rightarrow> [])
                         | None \<Rightarrow> [])
                      else []);
                   slots = tool_slots @ user_slots
               in (if slots = [] then Some ''no_live_zone_text'' else None, slots))"

section \<open>OpenAI Responses\<close>

definition plan_responses_item :: "serde \<Rightarrow> slice \<Rightarrow> string list \<Rightarrow> slice \<Rightarrow> plan_slot list" where
  "plan_responses_item S body retrieve_call_ids item_raw =
     (case sd_responses_item_header S item_raw of
        None \<Rightarrow> []
      | Some header \<Rightarrow>
          if \<not> is_responses_output_item (unwrap_or [] (ri_type header)) then []
          else if (case ri_call_id header of Some i \<Rightarrow> i \<in> set retrieve_call_ids | None \<Rightarrow> False) then []
          else case ri_output header of
            None \<Rightarrow> []
          | Some output \<Rightarrow>
              if \<not> starts_with [quote] (s_text output) then []
              else string_slot S body 0 (max RESPONSES_OUTPUT_MIN_BYTES LIVE_ZONE_MIN_BYTES) None
                     ''responses.output'' output)"

definition plan_openai_responses :: "serde \<Rightarrow> slice \<Rightarrow> json \<Rightarrow> nat \<Rightarrow> plan_result" where
  "plan_openai_responses S body parsed frozen_item_count =
     (case Option.bind (sd_responses_body_view S body) (\<lambda>v. option_or (rb_input v) (rb_messages v)) of
        None \<Rightarrow> (Some ''missing_input'', [])
      | Some items_raw \<Rightarrow>
          if \<not> starts_with ''['' (s_text items_raw) then (Some ''unsupported_input'', [])
          else case sd_raw_values S items_raw of
            None \<Rightarrow> (Some ''unsupported_input'', [])
          | Some items \<Rightarrow>
              let ids = (case Option.bind (option_or (json_get ''input'' parsed) (json_get ''messages'' parsed))
                                as_array of
                           Some xs \<Rightarrow> responses_retrieve_call_ids xs | None \<Rightarrow> []);
                  floor = frozen_item_count - responses_estimate_prefix_len parsed;
                  slots = concat (map (plan_responses_item S body ids) (drop floor items))
              in (if slots = [] then Some ''no_live_zone_text'' else None, slots))"

section \<open>The plan for a shape\<close>

definition plan_live_zone ::
    "serde \<Rightarrow> slice \<Rightarrow> json \<Rightarrow> compress_context \<Rightarrow> api_shape \<Rightarrow> plan_result" where
  "plan_live_zone S current working ctx shape =
     (case shape of
        OpenAiChatCompletions \<Rightarrow> plan_openai_chat S current working ctx
      | OpenAiResponses \<Rightarrow> plan_openai_responses S current working (cc_frozen_message_count ctx)
      | AnthropicMessages \<Rightarrow>
          plan_anthropic_segment S current 0 (cc_frozen_message_count ctx) (cc_compress_user_text ctx) None
      | AnthropicMessageBatches \<Rightarrow> plan_anthropic_batches S current ctx)"

section \<open>The gate\<close>

text \<open>
  \<open>None\<close> leaves the block as it is. The \<open>expect\<close> on serializing the marker string is the
  outer option: a panic.
\<close>

definition compress_slot ::
    "serde \<Rightarrow> (string \<Rightarrow> string) \<Rightarrow> 's ccr_store_ops \<Rightarrow> plan_slot \<Rightarrow> 's world
       \<Rightarrow> ((replacement \<times> string) option \<times> 's world) option" where
  "compress_slot S sha256 ops slot w =
     (if contains ''<<ccr:'' (ps_text slot) then Some (None, w)
      else if length (ps_text slot) < ps_min_bytes slot then Some (None, w)
      else
        let hash = content_hash sha256 (ps_text slot); marker = marker_for_hash hash in
        if estimate_tokens marker \<ge> estimate_tokens (ps_text slot) then Some (None, w)
        else case put_op ops hash (ps_text slot) (the_store w) of
          (Inl err, s') \<Rightarrow> Some (None, w\<lparr>the_store := s'\<rparr>)
        | (Inr inserted, s') \<Rightarrow>
            let w = w\<lparr>the_store := s',
                      the_stats := if inserted then record_ccr_entry_inserted (the_stats w) else the_stats w\<rparr>
            in (case sd_to_vec S (JString marker) of
                  None \<Rightarrow> None
                | Some bytes \<Rightarrow>
                    Some (Some (\<lparr>r_start = fst (ps_range slot), r_end = snd (ps_range slot),
                                 r_bytes = bytes\<rparr>, hash), w)))"

section \<open>Where slots lie\<close>

text \<open>A slot at a string token of the body, and its place as a hole of the splice.\<close>

definition slot_lo :: "plan_slot \<Rightarrow> nat" where "slot_lo s = fst (ps_range s)"
definition slot_hi :: "plan_slot \<Rightarrow> nat" where "slot_hi s = snd (ps_range s)"

definition slot_ok :: "serde \<Rightarrow> string \<Rightarrow> plan_slot \<Rightarrow> bool" where
  "slot_ok S body s \<longleftrightarrow> slot_lo s < slot_hi s \<and> slot_hi s \<le> length body
     \<and> (let token = take (slot_hi s - slot_lo s) (drop (slot_lo s) body) in
        starts_with [quote] token \<and> sd_string S token = Some (ps_text s))"

text \<open>
  \<open>string_slot\<close> plans its token: at the token's own address when the segment is a part of
  the body and \<open>base\<close> its address there.
\<close>

definition at_token :: "slice \<Rightarrow> plan_slot \<Rightarrow> bool" where
  "at_token token s \<longleftrightarrow> slot_lo s = s_addr token \<and> slot_hi s = s_end token"

lemma string_slot_at:
  assumes "s \<in> set (string_slot S segment (s_addr segment) mb b l token)"
  shows "at_token token s" "sd_string S (s_text token) = Some (ps_text s)"
    "ps_min_bytes s = mb" "ps_batch_request_index s = b"
  using assms
  by (auto simp: string_slot_def at_token_def slot_lo_def slot_hi_def offset_of_Some s_end_def
      eq_commute[of "Some _" "offset_of _ _"] split: option.splits)

lemma string_slot_single: "length (string_slot S segment base mb b l token) \<le> 1"
  by (auto simp: string_slot_def split: option.splits)

lemma slot_ok_token:
  assumes "part_of (whole body) token" "starts_with [quote] (s_text token)"
    and "at_token token s" "sd_string S (s_text token) = Some (ps_text s)"
  shows "slot_ok S body s"
proof -
  have "take (slot_hi s - slot_lo s) (drop (slot_lo s) body) = s_text token"
    using assms(1,3) by (simp add: at_token_def part_of_def s_end_def)
  moreover have "0 < length (s_text token)" using assms(2) by (cases "s_text token") (auto simp: starts_with_def)
  ultimately show ?thesis using assms
    by (auto simp: slot_ok_def at_token_def part_of_def s_end_def Let_def)
qed

abbreviation slots_in :: "slice \<Rightarrow> plan_slot list \<Rightarrow> bool" where
  "slots_in \<equiv> spans_in slot_lo slot_hi"

lemma slots_in_string:
  "part_of p token \<Longrightarrow> slots_in p (string_slot S segment (s_addr segment) mb b l token)"
proof (rule spans_in_part[rotated])
  show "slots_in token (string_slot S segment (s_addr segment) mb b l token)"
    using string_slot_at(1)[of _ S segment mb b l token] string_slot_single[of S segment "s_addr segment" mb b l token]
    by (cases "string_slot S segment (s_addr segment) mb b l token")
      (auto simp: spans_in_def at_token_def)
qed

lemma starts_with_quote_bracket: "starts_with ''['' u \<Longrightarrow> \<not> starts_with [quote] u"
  by (cases u) (auto simp: starts_with_def)

text \<open>
  Everything a planner may plan inside \<open>p\<close>: slots in ascending order, each at a string token
  of \<open>p\<close> and carrying the text it decodes to.
\<close>

definition planned :: "serde \<Rightarrow> slice \<Rightarrow> plan_slot list \<Rightarrow> bool" where
  "planned S p slots \<longleftrightarrow> slots_in p slots
     \<and> (\<forall>s \<in> set slots. \<exists>token. part_of p token \<and> starts_with [quote] (s_text token)
          \<and> at_token token s \<and> sd_string S (s_text token) = Some (ps_text s)
          \<and> ps_min_bytes s = LIVE_ZONE_MIN_BYTES)"

lemma planned_Nil [simp, intro]: "planned S p []"
  by (simp add: planned_def)

lemma planned_string:
  assumes "part_of p token" "starts_with [quote] (s_text token)" "mb = LIVE_ZONE_MIN_BYTES"
  shows "planned S p (string_slot S segment (s_addr segment) mb b l token)"
  using slots_in_string[OF assms(1)] string_slot_at[of _ S segment mb b l token] assms
  unfolding planned_def by blast

lemma planned_string_whole:
  assumes "part_of p token" "starts_with [quote] (s_text token)" "mb = LIVE_ZONE_MIN_BYTES"
  shows "planned S p (string_slot S (whole body) 0 mb b l token)"
  using planned_string[OF assms, where segment = "whole body"] by simp

lemma planned_part: "planned S c slots \<Longrightarrow> part_of p c \<Longrightarrow> planned S p slots"
  unfolding planned_def by (meson part_of_trans spans_in_part)

lemma planned_elements:
  assumes "elements_ok p (map g xs)" "\<And>x. x \<in> set xs \<Longrightarrow> planned S (g x) (f x)"
  shows "planned S p (concat (map f xs))"
proof -
  have "slots_in p (concat (map f xs))"
    using assms by (intro spans_in_elements) (auto simp: planned_def)
  moreover have "planned S p (f x)" if "x \<in> set xs" for x
    using planned_part[OF assms(2)[OF that]] inside_part[OF elements_inside[OF assms(1)]] that by simp
  ultimately show ?thesis unfolding planned_def by auto
qed

lemma planned_block:
  assumes "borrows_ok S"
  shows "planned S block (plan_anthropic_block S segment (s_addr segment) role user b block)"
  using block_header_ok[OF assms]
  by (auto simp: plan_anthropic_block_def Let_def intro!: planned_string inside_part split: option.splits)

lemma planned_message:
  assumes "borrows_ok S"
  shows "planned S message (plan_anthropic_message S segment (s_addr segment) user b message)"
proof (cases "sd_message_header S message")
  case (Some header)
  show ?thesis
  proof (cases "mh_content header")
    case content: (Some content)
    have inside: "inside message content" by (rule message_header_ok[OF assms Some content])
    have "planned S content (concat (map (plan_anthropic_block S segment (s_addr segment) role user b) blocks))"
      if "sd_raw_values S content = Some blocks" for blocks role
      using planned_block[OF assms] by (intro planned_elements[where g = id]) (simp_all add: raw_values_ok[OF assms that])
    from planned_part[OF this inside_part[OF inside]] show ?thesis
      using Some content inside_part[OF inside]
      by (auto simp: plan_anthropic_message_def Let_def intro!: planned_string split: option.splits)
  qed (simp add: plan_anthropic_message_def Some)
qed (simp add: plan_anthropic_message_def)

lemma planned_segment:
  assumes "borrows_ok S"
  shows "planned S segment (snd (plan_anthropic_segment S segment (s_addr segment) k user b))"
proof -
  have "planned S segment (concat (map (plan_anthropic_message S segment (s_addr segment) user b) (drop n ms)))"
    if "sd_messages_view S segment = Some v" "mv_messages v = Some ms" for v ms n
    using planned_message[OF assms]
    by (intro planned_elements[where g = id]) (simp_all add: elements_ok_drop[OF messages_view_ok[OF assms that]])
  then show ?thesis
    by (auto simp: plan_anthropic_segment_def Let_def split: option.splits bind_splits)
qed

lemma planned_batches:
  assumes "borrows_ok S"
  shows "planned S (whole body) (snd (plan_anthropic_batches S (whole body) ctx))"
proof -
  have request: "planned S raw (plan_batch_request S (whole body) ctx (i, raw))" for i raw
  proof (cases "Option.bind (sd_batch_request_view S raw) br_params")
    case (Some params)
    then obtain v where v: "sd_batch_request_view S raw = Some v" "br_params v = Some params"
      by (auto split: bind_splits)
    have "planned S raw (snd (plan_anthropic_segment S params (s_addr params) 0 user bidx))" for user bidx
      using planned_segment[OF assms] inside_part[OF batch_request_view_ok[OF assms v]] by (rule planned_part)
    then show ?thesis using Some
      by (auto simp: plan_batch_request_def offset_of_Some split: option.splits)
  qed (simp add: plan_batch_request_def)
  have "planned S (whole body) (concat (map (plan_batch_request S (whole body) ctx) (enumerate 0 requests)))"
    if "sd_batch_view S (whole body) = Some v" "bv_requests v = Some requests" for v requests
  proof (rule planned_elements[where g = snd])
    show "elements_ok (whole body) (map snd (enumerate 0 requests))"
      using batch_view_ok[OF assms that] by simp
    show "planned S (snd x) (plan_batch_request S (whole body) ctx x)" for x
      using request[of "snd x" "fst x"] by simp
  qed
  then show ?thesis
    by (auto simp: plan_anthropic_batches_def Let_def split: option.splits bind_splits)
qed

lemma planned_responses:
  assumes "borrows_ok S"
  shows "planned S (whole body) (snd (plan_openai_responses S (whole body) parsed k))"
proof -
  have item: "planned S raw (plan_responses_item S (whole body) ids raw)" for ids raw
    using responses_item_header_ok[OF assms]
    by (auto simp: plan_responses_item_def RESPONSES_OUTPUT_MIN_BYTES_def LIVE_ZONE_MIN_BYTES_def
        intro!: planned_string_whole inside_part split: option.splits)
  have "planned S (whole body) (concat (map (plan_responses_item S (whole body) ids) (drop n items)))"
    if v: "sd_responses_body_view S (whole body) = Some v"
      "rb_input v = Some raw \<or> rb_messages v = Some raw" and items: "sd_raw_values S raw = Some items"
    for v raw items n ids
  proof -
    have "planned S raw (concat (map (plan_responses_item S (whole body) ids) (drop n items)))"
      using item by (intro planned_elements[where g = id])
        (simp_all add: elements_ok_drop[OF raw_values_ok[OF assms items]])
    then show ?thesis
      using inside_part[OF responses_body_view_ok[OF assms v]] by (rule planned_part)
  qed
  note step = this[OF _ disjI1] this[OF _ disjI2]
  show ?thesis
    by (auto simp: plan_openai_responses_def Let_def option_or_def intro: step split: option.splits bind_splits)
qed

lemma planned_openai_tool:
  assumes "part_of p content"
  shows "planned S p (plan_openai_tool_content S (whole body) content)"
  using planned_string_whole[OF assms] by (simp add: plan_openai_tool_content_def)

lemma planned_openai_user:
  assumes "borrows_ok S"
  shows "planned S content (plan_openai_user_content S (whole body) content)"
proof -
  have part: "planned S raw (plan_openai_part S (whole body) raw)" for raw
    using block_header_ok[OF assms]
    by (auto simp: plan_openai_part_def intro!: planned_string_whole inside_part split: option.splits)
  have "planned S content (concat (map (plan_openai_part S (whole body)) parts))"
    if "sd_raw_values S content = Some parts" for parts
    using part by (intro planned_elements[where g = id]) (simp_all add: raw_values_ok[OF assms that])
  then show ?thesis
    by (auto simp: plan_openai_user_content_def intro!: planned_string_whole split: option.splits)
qed

text \<open>The walk finds parsed messages at or past the floor, of the two roles.\<close>

definition found_ok :: "serde \<Rightarrow> nat \<Rightarrow> slice list \<Rightarrow> string \<Rightarrow> found \<Rightarrow> bool" where
  "found_ok S frozen messages role f \<longleftrightarrow> (\<forall>i header. f = Some (i, header) \<longrightarrow>
     frozen \<le> i \<and> i < length messages \<and> sd_message_header S (messages ! i) = Some header
     \<and> mh_role header = Some role)"

lemma latest_scan_found:
  assumes "\<forall>(i, raw) \<in> set rest. i < length messages \<and> messages ! i = raw"
    and "found_ok S frozen messages ''tool'' (fst latest)" "found_ok S frozen messages ''user'' (snd latest)"
    and "latest_scan S frozen ids rest latest = (t, u)"
  shows "found_ok S frozen messages ''tool'' t \<and> found_ok S frozen messages ''user'' u"
  using assms
proof (induction S frozen ids rest latest rule: latest_scan.induct)
  case (2 S frozen ids index message_raw rest latest)
  show ?case
  proof (cases "index < frozen \<or> sd_message_header S message_raw = None")
    case True
    then show ?thesis using 2 by (cases latest) (auto split: if_splits)
  next
    case False
    then obtain header where header: "sd_message_header S message_raw = Some header" "frozen \<le> index"
      by auto
    let ?latest = "latest_step ids index header latest"
    have "found_ok S frozen messages ''tool'' (fst ?latest) \<and> found_ok S frozen messages ''user'' (snd ?latest)"
      using "2.prems"(1-3) header
      by (cases latest) (auto simp: latest_step_def found_ok_def Let_def split: if_splits)
    then show ?thesis
      using "2.IH"(2)[of header ?latest] "2.prems" header
      by (cases ?latest) (auto simp: Let_def split: if_splits)
  qed
qed simp

text \<open>The slots as holes of a splice: the order the splice accepts.\<close>

definition slot_hole :: "plan_slot \<Rightarrow> replacement" where
  "slot_hole s = \<lparr>r_start = slot_lo s, r_end = slot_hi s, r_bytes = []\<rparr>"

definition slots_plan_ok :: "string \<Rightarrow> plan_slot list \<Rightarrow> bool" where
  "slots_plan_ok body slots \<longleftrightarrow> plan_ok (length body) (map slot_hole slots)"

lemma slots_plan_ok_append:
  assumes "planned S p xs" "planned S q ys" "part_of (whole body) p" "part_of (whole body) q"
    and "s_end p \<le> s_addr q \<or> s_end q \<le> s_addr p"
  shows "slots_plan_ok body (xs @ ys)"
proof -
  have order: "compatible (slot_hole x) (slot_hole y)" if "x \<in> set xs" "y \<in> set ys" for x y
  proof -
    from assms(1) that(1) have x: "s_addr p \<le> slot_lo x" "slot_hi x \<le> s_end p"
      by (auto simp: planned_def spans_in_def)
    from assms(2) that(2) obtain token where "at_token token y" "starts_with [quote] (s_text token)"
      and y: "s_addr q \<le> slot_lo y" "slot_hi y \<le> s_end q"
      by (auto simp: planned_def spans_in_def)
    then have "slot_lo y < slot_hi y"
      by (cases "s_text token") (auto simp: at_token_def s_end_def starts_with_def)
    with x y assms(5) show ?thesis by (auto simp: compatible_def slot_hole_def)
  qed
  have asc: "sorted_wrt compatible (map slot_hole zs)" if "planned S r zs" for r zs
    using that by (auto simp: planned_def spans_in_def ascending_def sorted_wrt_map compatible_def
        slot_hole_def elim!: sorted_wrt_mono_rel[rotated])
  have bounds: "slot_lo z \<le> slot_hi z \<and> slot_hi z \<le> length body"
    if "planned S r zs" "part_of (whole body) r" "z \<in> set zs" for r zs z
    using that by (auto simp: planned_def spans_in_def ascending_def part_of_def)
  show ?thesis
    using order asc[OF assms(1)] asc[OF assms(2)] bounds[OF assms(1,3)] bounds[OF assms(2,4)]
    by (auto simp: slots_plan_ok_def plan_ok_def sorted_wrt_append slot_hole_def)
qed

lemma planned_slots_plan_ok: "planned S (whole body) slots \<Longrightarrow> slots_plan_ok body slots"
  using slots_plan_ok_append[of S "whole body" slots "\<lparr>s_addr = length body, s_text = []\<rparr>" "[]" body]
  by (simp add: part_of_def s_end_def)

lemma planned_slot_ok: "planned S (whole body) slots \<Longrightarrow> s \<in> set slots \<Longrightarrow> slot_ok S body s"
  by (auto simp: planned_def intro: slot_ok_token)

lemma elements_apart:
  assumes "elements_ok p cs" "i < length cs" "j < length cs" "i \<noteq> j"
  shows "s_end (cs ! i) \<le> s_addr (cs ! j) \<or> s_end (cs ! j) \<le> s_addr (cs ! i)"
  using assms by (auto simp: elements_ok_def ascending_def sorted_wrt_iff_nth_less neq_iff)

lemma rev_enumerate_nth: "\<forall>(i, raw) \<in> set (rev (enumerate 0 xs)). i < length xs \<and> xs ! i = raw"
  by (auto simp: in_set_enumerate_eq)

lemma chat_slots:
  assumes "borrows_ok S"
  shows "slots_plan_ok body (snd (plan_openai_chat S (whole body) parsed ctx))
    \<and> (\<forall>s \<in> set (snd (plan_openai_chat S (whole body) parsed ctx)). \<exists>p.
         planned S p [s] \<and> part_of (whole body) p)"
proof (cases "Option.bind (sd_messages_view S (whole body)) mv_messages")
  case None
  then show ?thesis by (simp add: plan_openai_chat_def slots_plan_ok_def plan_ok_def)
next
  case (Some messages)
  then have ok: "elements_ok (whole body) messages"
    by (auto dest: messages_view_ok[OF assms] split: bind_splits)
  define ids where "ids = (case get_array ''messages'' parsed of
      Some ms \<Rightarrow> headroom_retrieve_tool_call_ids ms | None \<Rightarrow> [])"
  obtain t u where scan:
    "latest_scan S (cc_frozen_message_count ctx) ids (rev (enumerate 0 messages)) (None, None) = (t, u)"
    by fastforce
  have found: "found_ok S (cc_frozen_message_count ctx) messages ''tool'' t"
    "found_ok S (cc_frozen_message_count ctx) messages ''user'' u"
    using latest_scan_found[OF rev_enumerate_nth _ _ scan] by (auto simp: found_ok_def)
  define ts where "ts = (case t of Some (_, header) \<Rightarrow>
      (case mh_content header of Some c \<Rightarrow> plan_openai_tool_content S (whole body) c | None \<Rightarrow> []) | None \<Rightarrow> [])"
  define us where "us = (if cc_compress_user_text ctx then
      (case u of Some (_, header) \<Rightarrow>
        (case mh_content header of Some c \<Rightarrow> plan_openai_user_content S (whole body) c | None \<Rightarrow> []) | None \<Rightarrow> [])
      else [])"
  have slots: "snd (plan_openai_chat S (whole body) parsed ctx) = (if t = None \<and> u = None then [] else ts @ us)"
    using Some scan by (simp add: plan_openai_chat_def ids_def ts_def us_def Let_def)
  have nil_or: "ts = [] \<or> (\<exists>i header. t = Some (i, header))" "us = [] \<or> (\<exists>i header. u = Some (i, header))"
    by (auto simp: ts_def us_def split: option.splits)
  have t_at: "planned S (messages ! i) ts \<and> i < length messages" if "t = Some (i, header)" for i header
    using found(1) that message_header_ok[OF assms]
    by (auto simp: ts_def found_ok_def intro!: planned_openai_tool inside_part split: option.splits)
  have u_at: "planned S (messages ! j) us \<and> j < length messages" if "u = Some (j, header)" for j header
    using found(2) that message_header_ok[OF assms]
    by (auto simp: us_def found_ok_def intro!: planned_part[OF planned_openai_user[OF assms]] inside_part
        split: option.splits)
  have in_body: "part_of (whole body) (messages ! k)" if "k < length messages" for k
    using elements_inside[OF ok] that by (intro inside_part) simp
  have apart: "i \<noteq> j" if "t = Some (i, h)" "u = Some (j, h')" for i h j h'
    using found that by (auto simp: found_ok_def)
  have plan: "slots_plan_ok body (ts @ us)"
  proof (cases "ts = [] \<or> us = []")
    case True
    have "planned S (whole body) ts"
    proof (cases "ts = []")
      case False
      then obtain i h where "t = Some (i, h)" using nil_or(1) by auto
      from t_at[OF this] show ?thesis using in_body by (auto intro: planned_part)
    qed simp
    moreover have "planned S (whole body) us"
    proof (cases "us = []")
      case False
      then obtain i h where "u = Some (i, h)" using nil_or(2) by auto
      from u_at[OF this] show ?thesis using in_body by (auto intro: planned_part)
    qed simp
    ultimately show ?thesis using True planned_slots_plan_ok by auto
  next
    case False
    then obtain i h j h' where tu: "t = Some (i, h)" "u = Some (j, h')" using nil_or by auto
    show ?thesis
      using elements_apart[OF ok _ _ apart[OF tu]] t_at[OF tu(1)] u_at[OF tu(2)] in_body
      by (intro slots_plan_ok_append) auto
  qed
  moreover have "\<exists>p. planned S p [s] \<and> part_of (whole body) p" if s: "s \<in> set (ts @ us)" for s
  proof -
    consider "s \<in> set ts" | "s \<in> set us" using s by auto
    then obtain k xs where "planned S (messages ! k) xs" "k < length messages" "s \<in> set xs"
    proof cases
      case 1
      then obtain i h where "t = Some (i, h)" using nil_or(1) by auto
      from t_at[OF this] 1 show ?thesis by (intro that) auto
    next
      case 2
      then obtain i h where "u = Some (i, h)" using nil_or(2) by auto
      from u_at[OF this] 2 show ?thesis by (intro that) auto
    qed
    moreover from this have "planned S (messages ! k) [s]"
      by (auto simp: planned_def spans_in_def ascending_def)
    ultimately show ?thesis using in_body by blast
  qed
  moreover have "slots_plan_ok body []" by (simp add: slots_plan_ok_def plan_ok_def)
  ultimately show ?thesis unfolding slots by simp
qed

definition slots_fit :: "serde \<Rightarrow> string \<Rightarrow> plan_slot list \<Rightarrow> bool" where
  "slots_fit S body slots \<longleftrightarrow> slots_plan_ok body slots
     \<and> (\<forall>s \<in> set slots. slot_ok S body s \<and> ps_min_bytes s = LIVE_ZONE_MIN_BYTES)"

lemma planned_fit:
  assumes "planned S (whole body) slots"
  shows "slots_fit S body slots"
proof -
  have "ps_min_bytes s = LIVE_ZONE_MIN_BYTES" if "s \<in> set slots" for s
    using assms that unfolding planned_def by blast
  then show ?thesis
    using planned_slots_plan_ok[OF assms] planned_slot_ok[OF assms] unfolding slots_fit_def by blast
qed

lemma chat_fit:
  assumes "borrows_ok S"
  shows "slots_fit S body (snd (plan_openai_chat S (whole body) parsed ctx))"
proof -
  have "slot_ok S body s \<and> ps_min_bytes s = LIVE_ZONE_MIN_BYTES"
    if s: "s \<in> set (snd (plan_openai_chat S (whole body) parsed ctx))" for s
  proof -
    obtain p where p: "planned S p [s]" "part_of (whole body) p"
      using bspec[OF conjunct2[OF chat_slots[OF assms]] s] by blast
    from planned_fit[OF planned_part[OF p]] show ?thesis unfolding slots_fit_def by simp
  qed
  then show ?thesis
    using conjunct1[OF chat_slots[OF assms, of body parsed ctx]] unfolding slots_fit_def by simp
qed

lemma live_zone_fit:
  assumes "borrows_ok S"
  shows "slots_fit S body (snd (plan_live_zone S (whole body) working ctx shape))"
proof (cases shape)
  case OpenAiChatCompletions
  then show ?thesis using chat_fit[OF assms] by (simp add: plan_live_zone_def)
next
  case AnthropicMessages
  have "planned S (whole body) (snd (plan_anthropic_segment S (whole body) 0 k user b))" for k user b
    using planned_segment[OF assms, of "whole body"] by simp
  from planned_fit[OF this] show ?thesis by (simp add: AnthropicMessages plan_live_zone_def)
next
  case OpenAiResponses
  from planned_fit[OF planned_responses[OF assms]] show ?thesis
    by (simp add: OpenAiResponses plan_live_zone_def)
next
  case AnthropicMessageBatches
  from planned_fit[OF planned_batches[OF assms]] show ?thesis
    by (simp add: AnthropicMessageBatches plan_live_zone_def)
qed

section \<open>Which tokens are planned\<close>

text \<open>What a slot of an Anthropic message is: user string content, or a field of a block.\<close>

definition anthropic_block_slot :: "serde \<Rightarrow> string \<Rightarrow> bool \<Rightarrow> slice \<Rightarrow> plan_slot \<Rightarrow> bool" where
  "anthropic_block_slot S role user block s \<longleftrightarrow>
     (\<exists>header token. sd_block_header S block = Some header \<and> bh_cache_control header = None
        \<and> at_token token s
        \<and> (bh_type header = Some ''tool_result'' \<and> bh_content header = Some token
           \<or> bh_type header = Some ''text'' \<and> role = ''user'' \<and> user \<and> bh_text header = Some token))"

definition anthropic_message_slot :: "serde \<Rightarrow> bool \<Rightarrow> slice \<Rightarrow> plan_slot \<Rightarrow> bool" where
  "anthropic_message_slot S user message s \<longleftrightarrow>
     (\<exists>header content. sd_message_header S message = Some header \<and> mh_content header = Some content
        \<and> (mh_role header = Some ''user'' \<and> user \<and> at_token content s
           \<or> (\<exists>blocks. sd_raw_values S content = Some blocks
                \<and> (\<exists>block \<in> set blocks. anthropic_block_slot S (unwrap_or [] (mh_role header)) user block s))))"

lemma block_slot:
  assumes "s \<in> set (plan_anthropic_block S segment (s_addr segment) role user b block)"
  shows "anthropic_block_slot S role user block s"
proof (cases "sd_block_header S block")
  case (Some header)
  obtain ty where ty: "bh_type header = Some ty" and "s \<in> set (plan_anthropic_block S segment (s_addr segment) role user b block)"
    using assms Some by (cases "bh_type header") (auto simp: plan_anthropic_block_def Let_def split: if_splits)
  show ?thesis
  proof (cases "ty = ''tool_result''")
    case True
    then show ?thesis using assms Some ty string_slot_at(1)[of s S segment]
      by (cases "bh_content header")
        (auto simp: plan_anthropic_block_def anthropic_block_slot_def Let_def split: if_splits)
  next
    case False
    then show ?thesis using assms Some ty string_slot_at(1)[of s S segment]
      by (cases "bh_text header")
        (auto simp: plan_anthropic_block_def anthropic_block_slot_def Let_def split: if_splits)
  qed
qed (use assms in \<open>simp add: plan_anthropic_block_def\<close>)

lemma message_slot:
  assumes "s \<in> set (plan_anthropic_message S segment (s_addr segment) user b message)"
  shows "anthropic_message_slot S user message s"
proof -
  obtain header content where h: "sd_message_header S message = Some header" "mh_content header = Some content"
    using assms
    by (cases "sd_message_header S message"; cases "mh_content (the (sd_message_header S message))")
      (auto simp: plan_anthropic_message_def Let_def)
  let ?role = "unwrap_or [] (mh_role header)"
  consider "?role = ''user''" "user" "s \<in> set (string_slot S segment (s_addr segment) LIVE_ZONE_MIN_BYTES b ''anthropic.string_content'' content)"
    | blocks block where "sd_raw_values S content = Some blocks" "block \<in> set blocks"
      "s \<in> set (plan_anthropic_block S segment (s_addr segment) ?role user b block)"
    using assms h by (cases "sd_raw_values S content") (auto simp: plan_anthropic_message_def Let_def split: if_splits)
  then show ?thesis
  proof cases
    case 1
    then have "mh_role header = Some ''user''" by (cases "mh_role header") auto
    then show ?thesis using 1 h string_slot_at(1)[OF 1(3)]
      by (auto simp: anthropic_message_slot_def)
  next
    case 2
    then show ?thesis using h block_slot[OF 2(3)] unfolding anthropic_message_slot_def by blast
  qed
qed

text \<open>The floor of a segment, and the messages past it.\<close>

definition segment_floor :: "nat \<Rightarrow> json \<Rightarrow> nat" where
  "segment_floor extra_floor v = max extra_floor
     (case get_array ''messages'' v of Some ms \<Rightarrow> anthropic_frozen_message_count ms | None \<Rightarrow> 0)"

lemma segment_slot:
  assumes "s \<in> set (snd (plan_anthropic_segment S segment (s_addr segment) k user b))"
  obtains view ms v i where "sd_messages_view S segment = Some view" "mv_messages view = Some ms"
    "sd_value S (s_text segment) = Some v" "segment_floor k v \<le> i" "i < length ms"
    "s \<in> set (plan_anthropic_message S segment (s_addr segment) user b (ms ! i))"
proof -
  obtain view ms v where view: "sd_messages_view S segment = Some view" "mv_messages view = Some ms"
    "sd_value S (s_text segment) = Some v"
    and s: "s \<in> set (concat (map (plan_anthropic_message S segment (s_addr segment) user b)
              (drop (segment_floor k v) ms)))"
    using assms
    by (auto simp: plan_anthropic_segment_def segment_floor_def Let_def
        split: option.splits bind_splits if_splits)
  then obtain m where m: "m \<in> set (drop (segment_floor k v) ms)"
    "s \<in> set (plan_anthropic_message S segment (s_addr segment) user b m)"
    by auto
  then obtain j where "j < length (drop (segment_floor k v) ms)" "m = drop (segment_floor k v) ms ! j"
    by (metis in_set_conv_nth)
  with m(2) have "segment_floor k v + j < length ms"
    "s \<in> set (plan_anthropic_message S segment (s_addr segment) user b (ms ! (segment_floor k v + j)))"
    by auto
  then show thesis
    by (intro that[OF view, of "segment_floor k v + j"]) auto
qed

text \<open>The cache-control floor is past every message that carries a mark, and no further.\<close>

lemma frozen_count_iff:
  "i < anthropic_frozen_message_count ms \<longleftrightarrow>
     (\<exists>j. i \<le> j \<and> j < length ms \<and> anthropic_content_has_cache_control (json_get ''content'' (ms ! j)))"
proof -
  have fold: "i < foldr max ns 0 \<longleftrightarrow> (\<exists>n \<in> set ns. i < n)" for ns :: "nat list"
    by (induction ns) auto
  show ?thesis
    unfolding anthropic_frozen_message_count_def fold
    by (auto simp: in_set_enumerate_eq less_Suc_eq_le image_iff Bex_def)
qed

section \<open>The latest messages of a chat\<close>

definition tool_candidate :: "string list \<Rightarrow> message_header \<Rightarrow> bool" where
  "tool_candidate ids header \<longleftrightarrow> mh_role header = Some ''tool''
     \<and> \<not> (case mh_name header of Some n \<Rightarrow> is_retrieve_tool_name n | None \<Rightarrow> False)
     \<and> \<not> (case mh_tool_call_id header of Some i \<Rightarrow> i \<in> set ids | None \<Rightarrow> False)"

text \<open>The first entry of the walk, above the floor, whose header satisfies \<open>P\<close>.\<close>

fun first_found :: "serde \<Rightarrow> nat \<Rightarrow> (message_header \<Rightarrow> bool) \<Rightarrow> (nat \<times> slice) list \<Rightarrow> found" where
  "first_found S frozen P [] = None"
| "first_found S frozen P ((i, raw) # rest) =
     (if i < frozen then None
      else case sd_message_header S raw of
        Some header \<Rightarrow> if P header then Some (i, header) else first_found S frozen P rest
      | None \<Rightarrow> first_found S frozen P rest)"

lemma latest_scan_first:
  "latest_scan S frozen ids rest latest =
     (option_or (fst latest) (first_found S frozen (tool_candidate ids) rest),
      option_or (snd latest) (first_found S frozen (\<lambda>h. mh_role h = Some ''user'') rest))"
  if "fst latest = None \<or> snd latest = None"
  using that
proof (induction S frozen ids rest latest rule: latest_scan.induct)
  case (1 S frozen ids latest)
  then show ?case by (cases latest) (auto simp: option_or_def split: option.splits)
next
  case (2 S frozen ids index raw rest latest)
  obtain t u where latest: "latest = (t, u)" by (cases latest)
  show ?case
  proof (cases "index < frozen \<or> sd_message_header S raw = None")
    case True
    then show ?thesis using 2 latest by (auto simp: option_or_def split: option.splits)
  next
    case False
    then obtain header where header: "sd_message_header S raw = Some header" "\<not> index < frozen" by auto
    obtain t' u' where step: "latest_step ids index header latest = (t', u')" by fastforce
    have t': "t' = option_or t (if tool_candidate ids header then Some (index, header) else None)"
      and u': "u' = option_or u (if mh_role header = Some ''user'' then Some (index, header) else None)"
      using step latest
      by (auto simp: latest_step_def tool_candidate_def Let_def option_or_def
          split: if_splits option.splits)
    show ?thesis
      using "2.IH"(2)[OF header(2,1) refl] step header latest t' u'
      by (auto simp: option_or_def split: option.splits)
  qed
qed

lemma first_found_latest:
  assumes "first_found S frozen P (rev (enumerate 0 ms)) = Some (i, header)"
  shows "frozen \<le> i \<and> i < length ms \<and> sd_message_header S (ms ! i) = Some header \<and> P header
    \<and> (\<forall>j h. i < j \<longrightarrow> j < length ms \<longrightarrow> sd_message_header S (ms ! j) = Some h \<longrightarrow> \<not> P h)"
  using assms
proof (induction ms rule: rev_induct)
  case (snoc m ms)
  show ?case
    using snoc by (auto simp: enumerate_append_eq nth_append less_Suc_eq split: if_splits option.splits)
qed simp

end
