(* ===== verification/Live_Zone_Safety.thy ===== *)
theory Live_Zone_Safety
  imports Live_Zone
begin

text \<open>
  What live-zone planning and its gate guarantee: where replacements can land, which
  messages and blocks they never touch, and when a planned slot is in fact replaced.
\<close>

section \<open>Where plans land\<close>

text \<open>
  C31: Every plan fits its body. For each API shape, the planned slots are JSON string tokens
  of the body (they start with a quote and decode to the slot's text), their spans lie in the
  body and, in the order planned, are accepted by the splice: no two overlap.
\<close>

theorem live_zone_plan_fits:
  assumes "borrows_ok S" "snd (plan_live_zone S (whole body) working ctx shape) = slots"
  shows "plan_ok (length body) (map slot_hole slots)
    \<and> (\<forall>s \<in> set slots. slot_lo s < slot_hi s \<and> slot_hi s \<le> length body
         \<and> starts_with [quote] (take (slot_hi s - slot_lo s) (drop (slot_lo s) body))
         \<and> sd_string S (take (slot_hi s - slot_lo s) (drop (slot_lo s) body)) = Some (ps_text s)
         \<and> ps_min_bytes s = 512)"
  using live_zone_fit[OF assms(1), of body working ctx shape] assms(2)
  by (auto simp: slots_fit_def slots_plan_ok_def slot_ok_def Let_def LIVE_ZONE_MIN_BYTES_def)

theorem live_zone_plan_fits_witness:
  "snd (plan_live_zone demo_serde (whole (''{{[{'' @ [quote] @ ''x'' @ [quote] @ ''}]}}'')) JNull
          (compress_context_new Payg) AnthropicMessages)
     = [\<lparr>ps_range = (4, 7), ps_text = ''x'', ps_min_bytes = 512, ps_batch_request_index = None,
         ps_label = ''anthropic.tool_result''\<rparr>]
   \<and> plan_ok (length (''{{[{'' @ [quote] @ ''x'' @ [quote] @ ''}]}}'')) (map slot_hole [\<lparr>ps_range = (4, 7), ps_text = ''x'', ps_min_bytes = 512,
         ps_batch_request_index = None, ps_label = ''anthropic.tool_result''\<rparr>])"
proof -
  let ?body = "''{{[{'' @ [quote] @ ''x'' @ [quote] @ ''}]}}''"
  let ?slot = "\<lparr>ps_range = (4, 7), ps_text = ''x'', ps_min_bytes = 512,
      ps_batch_request_index = None, ps_label = ''anthropic.tool_result''\<rparr>"
  have plan: "snd (plan_live_zone demo_serde (whole ?body) JNull (compress_context_new Payg) AnthropicMessages)
      = [?slot]"
    by code_simp
  show ?thesis
    by (rule conjI[OF plan conjunct1[OF live_zone_plan_fits[OF borrows_ok_demo plan]]])
qed

section \<open>What plans leave alone\<close>

text \<open>
  C28: Frozen messages of an Anthropic request are never planned: every slot lies after the
  end of every message below the floor, which is the session's floor or past the last
  message that carries a \<open>cache_control\<close> mark, whichever is higher.
\<close>

theorem anthropic_frozen_prefix:
  assumes "borrows_ok S" "sd_messages_view S segment = Some view" "mv_messages view = Some ms"
    and "sd_value S (s_text segment) = Some v" "i < length ms"
    and "i < k \<or> (\<exists>parsed j. get_array ''messages'' v = Some parsed \<and> i \<le> j \<and> j < length parsed
           \<and> anthropic_content_has_cache_control (json_get ''content'' (parsed ! j)))"
    and "s \<in> set (snd (plan_anthropic_segment S segment (s_addr segment) k user b))"
  shows "s_end (ms ! i) \<le> slot_lo s"
proof -
  obtain n where n: "segment_floor k v \<le> n" "n < length ms"
    and s: "s \<in> set (plan_anthropic_message S segment (s_addr segment) user b (ms ! n))"
    by (rule segment_slot[OF assms(7)]) (use assms(2-4) in simp)
  have "i < segment_floor k v"
    using assms(6) frozen_count_iff[of i] unfolding segment_floor_def less_max_iff_disj
    by (elim disjE exE conjE) auto
  moreover have "sorted_wrt (\<lambda>a b. s_end a \<le> s_addr b) ms"
    using messages_view_ok[OF assms(1-3)] by (simp add: elements_ok_def ascending_def)
  ultimately have "s_end (ms ! i) \<le> s_addr (ms ! n)"
    using n by (intro sorted_wrt_nth_less[where P = "\<lambda>a b. s_end a \<le> s_addr b"]) auto
  also have "\<dots> \<le> slot_lo s"
    using planned_message[OF assms(1), of "ms ! n" segment user b] s
    unfolding planned_def spans_in_def by blast
  finally show ?thesis .
qed

text \<open>A demo library with two messages, each the text between two brackets of the body.\<close>

definition demo_two :: serde where
  "demo_two = demo_serde\<lparr>sd_messages_view := (\<lambda>p.
     if 8 \<le> length (s_text p) then
       Some \<lparr>mv_messages = Some [
         \<lparr>s_addr = s_addr p + 1, s_text = take 1 (drop 1 (s_text p))\<rparr>,
         \<lparr>s_addr = s_addr p + 2, s_text = butlast (drop 2 (s_text p))\<rparr>]\<rparr>
     else None)\<rparr>"

lemma borrows_ok_two: "borrows_ok demo_two"
  using borrows_ok_demo
  by (auto simp: borrows_ok_def demo_two_def elements_ok_def ascending_def inside_def s_end_def
      butlast_drop butlast_conv_take min_def split: if_splits)

theorem anthropic_frozen_prefix_witness:
  "list_all (\<lambda>s. 2 \<le> slot_lo s) (snd (plan_anthropic_segment demo_two
      (whole (''{m{[{'' @ [quote] @ ''x'' @ [quote] @ ''}]}}'')) 0 1 False None))"
  unfolding list_all_iff
proof
  fix s
  let ?body = "whole (''{m{[{'' @ [quote] @ ''x'' @ [quote] @ ''}]}}'')"
  assume "s \<in> set (snd (plan_anthropic_segment demo_two ?body 0 1 False None))"
  then have s: "s \<in> set (snd (plan_anthropic_segment demo_two ?body (s_addr ?body) 1 False None))" by simp
  have two: "sd_messages_view demo_two ?body = Some \<lparr>mv_messages = Some
      [\<lparr>s_addr = 1, s_text = ''m''\<rparr>, \<lparr>s_addr = 2, s_text = ''{[{'' @ [quote] @ ''x'' @ [quote] @ ''}]}''\<rparr>]\<rparr>"
    by (simp add: demo_two_def whole_def)
  have v: "sd_value demo_two (s_text ?body) = Some JNull"
    by (simp add: demo_two_def demo_serde_def)
  show "2 \<le> slot_lo s"
    using anthropic_frozen_prefix[OF borrows_ok_two two _ v _ _ s, of _ 0] by (simp add: s_end_def)
qed

text \<open>
  C29: What an Anthropic plan may touch. Every slot lies in a message at or past the floor.
  Unless user text was opted in (\<open>--compress-user-messages\<close>) it is the string \<open>content\<close> of a
  \<open>tool_result\<close> block without \<open>cache_control\<close>; with the option it may also be the string
  content of a message of role \<open>user\<close>, or the text of a \<open>text\<close> block without \<open>cache_control\<close> in
  one. No \<open>tool_use\<close>, thinking or compaction block, and no text of another role, is ever planned.
\<close>

theorem anthropic_protected:
  assumes "s \<in> set (snd (plan_anthropic_segment S segment (s_addr segment) k user b))"
  shows "\<exists>view ms v i header content.
     sd_messages_view S segment = Some view \<and> mv_messages view = Some ms
     \<and> sd_value S (s_text segment) = Some v \<and> segment_floor k v \<le> i \<and> i < length ms
     \<and> sd_message_header S (ms ! i) = Some header \<and> mh_content header = Some content
     \<and> (mh_role header = Some ''user'' \<and> user \<and> at_token content s
        \<or> (\<exists>blocks block bh token. sd_raw_values S content = Some blocks \<and> block \<in> set blocks
             \<and> sd_block_header S block = Some bh \<and> bh_cache_control bh = None \<and> at_token token s
             \<and> (bh_type bh = Some ''tool_result'' \<and> bh_content bh = Some token
                \<or> bh_type bh = Some ''text'' \<and> mh_role header = Some ''user'' \<and> user
                  \<and> bh_text bh = Some token)))"
proof -
  obtain view ms v i where seg: "sd_messages_view S segment = Some view" "mv_messages view = Some ms"
    "sd_value S (s_text segment) = Some v" "segment_floor k v \<le> i" "i < length ms"
    "s \<in> set (plan_anthropic_message S segment (s_addr segment) user b (ms ! i))"
    using segment_slot[OF assms] .
  obtain header content where h: "sd_message_header S (ms ! i) = Some header" "mh_content header = Some content"
    and cases: "mh_role header = Some ''user'' \<and> user \<and> at_token content s
      \<or> (\<exists>blocks. sd_raw_values S content = Some blocks
           \<and> (\<exists>block \<in> set blocks. anthropic_block_slot S (unwrap_or [] (mh_role header)) user block s))"
    using message_slot[OF seg(6)] unfolding anthropic_message_slot_def by blast
  have role: "unwrap_or [] (mh_role header) = ''user'' \<longleftrightarrow> mh_role header = Some ''user''"
    by (cases "mh_role header") auto
  have "mh_role header = Some ''user'' \<and> user \<and> at_token content s
        \<or> (\<exists>blocks block bh token. sd_raw_values S content = Some blocks \<and> block \<in> set blocks
             \<and> sd_block_header S block = Some bh \<and> bh_cache_control bh = None \<and> at_token token s
             \<and> (bh_type bh = Some ''tool_result'' \<and> bh_content bh = Some token
                \<or> bh_type bh = Some ''text'' \<and> mh_role header = Some ''user'' \<and> user
                  \<and> bh_text bh = Some token))"
    using cases unfolding anthropic_block_slot_def role by blast
  with seg(1-5) h show ?thesis by blast
qed

theorem anthropic_protected_witness:
  "\<exists>slot content blocks block bh token.
     snd (plan_anthropic_segment demo_serde (whole (''{{[{'' @ [quote] @ ''x'' @ [quote] @ ''}]}}'')) 0 0 False None) = [slot]
     \<and> slot_lo slot = 4 \<and> ps_text slot = ''x''
     \<and> sd_raw_values demo_serde content = Some blocks \<and> block \<in> set blocks
     \<and> sd_block_header demo_serde block = Some bh \<and> bh_type bh = Some ''tool_result''
     \<and> bh_cache_control bh = None \<and> bh_content bh = Some token \<and> at_token token slot"
proof -
  let ?body = "whole (''{{[{'' @ [quote] @ ''x'' @ [quote] @ ''}]}}'')"
  let ?slot = "\<lparr>ps_range = (4, 7), ps_text = ''x'', ps_min_bytes = 512, ps_batch_request_index = None,
         ps_label = ''anthropic.tool_result''\<rparr>"
  have plan: "snd (plan_anthropic_segment demo_serde ?body 0 0 False None) = [?slot]" by code_simp
  then have "?slot \<in> set (snd (plan_anthropic_segment demo_serde ?body (s_addr ?body) 0 False None))" by simp
  from anthropic_protected[OF this] obtain content blocks block bh token where
    "sd_raw_values demo_serde content = Some blocks \<and> block \<in> set blocks
     \<and> sd_block_header demo_serde block = Some bh \<and> bh_type bh = Some ''tool_result''
     \<and> bh_cache_control bh = None \<and> bh_content bh = Some token \<and> at_token token ?slot" by blast
  with plan show ?thesis by (intro exI[of _ ?slot] exI[of _ content] exI[of _ blocks] exI[of _ block] exI[of _ bh] exI[of _ token])
    (simp add: slot_lo_def)
qed

text \<open>
  C30: The one slot of a chat request. An OpenAI chat plan without user text has at most one slot: the string content of the
  last \<open>tool\<close> message that does not answer a retrieve call, if it is at or past the floor.
  Every later message is no tool message or answers a retrieve call.
\<close>

theorem chat_latest_tool_only:
  assumes "\<not> cc_compress_user_text ctx" "s \<in> set (snd (plan_openai_chat S (whole body) parsed ctx))"
  defines "ids \<equiv> (case get_array ''messages'' parsed of
      Some ms \<Rightarrow> headroom_retrieve_tool_call_ids ms | None \<Rightarrow> [])"
  shows "snd (plan_openai_chat S (whole body) parsed ctx) = [s]
    \<and> (\<exists>view ms i header content.
         sd_messages_view S (whole body) = Some view \<and> mv_messages view = Some ms
         \<and> cc_frozen_message_count ctx \<le> i \<and> i < length ms
         \<and> sd_message_header S (ms ! i) = Some header \<and> tool_candidate ids header
         \<and> mh_content header = Some content \<and> at_token content s
         \<and> (\<forall>j h. i < j \<longrightarrow> j < length ms \<longrightarrow> sd_message_header S (ms ! j) = Some h
              \<longrightarrow> \<not> tool_candidate ids h))"
proof -
  obtain view ms where view: "sd_messages_view S (whole body) = Some view" "mv_messages view = Some ms"
    using assms(2) by (cases "Option.bind (sd_messages_view S (whole body)) mv_messages")
      (auto simp: plan_openai_chat_def split: bind_splits)
  let ?t = "first_found S (cc_frozen_message_count ctx) (tool_candidate ids) (rev (enumerate 0 ms))"
  have slots: "s \<in> set (snd (plan_openai_chat S (whole body) parsed ctx)) \<Longrightarrow>
      \<exists>i header content. ?t = Some (i, header) \<and> mh_content header = Some content
        \<and> snd (plan_openai_chat S (whole body) parsed ctx) = plan_openai_tool_content S (whole body) content" for s
    using view assms(1)
    by (auto simp: plan_openai_chat_def latest_scan_first ids_def Let_def
        split: option.splits if_splits)
  from slots[OF assms(2)] obtain i header content where t: "?t = Some (i, header)" "mh_content header = Some content"
    and plan: "snd (plan_openai_chat S (whole body) parsed ctx) = plan_openai_tool_content S (whole body) content"
    by blast
  have slot: "s \<in> set (string_slot S (whole body) (s_addr (whole body)) LIVE_ZONE_MIN_BYTES None ''openai.tool_content'' content)"
    and single: "length (plan_openai_tool_content S (whole body) content) \<le> 1"
    using assms(2) plan string_slot_single
    by (auto simp: plan_openai_tool_content_def split: if_splits)
  have "at_token content s" by (rule string_slot_at(1)[OF slot])
  moreover have "plan_openai_tool_content S (whole body) content = [s]"
    using assms(2) plan single by (cases "plan_openai_tool_content S (whole body) content") auto
  ultimately show ?thesis
    using first_found_latest[OF t(1)] t(2) view plan by auto
qed

theorem chat_latest_tool_only_witness:
  "\<exists>s view ms i header content.
     snd (plan_openai_chat demo_serde (whole (''{{'' @ [quote] @ ''x'' @ [quote] @ ''}}'')) JNull
        (compress_context_new Payg)) = [s] \<and> slot_lo s = 2 \<and> ps_text s = ''x''
     \<and> sd_messages_view demo_serde (whole (''{{'' @ [quote] @ ''x'' @ [quote] @ ''}}'')) = Some view
     \<and> mv_messages view = Some ms \<and> i < length ms \<and> sd_message_header demo_serde (ms ! i) = Some header
     \<and> tool_candidate [] header \<and> mh_content header = Some content \<and> at_token content s"
proof -
  let ?body = "''{{'' @ [quote] @ ''x'' @ [quote] @ ''}}''"
  let ?plan = "snd (plan_openai_chat demo_serde (whole ?body) JNull (compress_context_new Payg))"
  let ?slot = "\<lparr>ps_range = (2, 5), ps_text = ''x'', ps_min_bytes = 512, ps_batch_request_index = None,
      ps_label = ''openai.tool_content''\<rparr>"
  have plan: "?plan = [?slot]" by code_simp
  have "\<not> cc_compress_user_text (compress_context_new Payg)" by (simp add: compress_context_new_def)
  moreover from plan have "?slot \<in> set ?plan" by simp
  ultimately obtain view ms i header content where
    "sd_messages_view demo_serde (whole ?body) = Some view \<and> mv_messages view = Some ms \<and> i < length ms
     \<and> sd_message_header demo_serde (ms ! i) = Some header \<and> tool_candidate [] header
     \<and> mh_content header = Some content \<and> at_token content ?slot"
    using chat_latest_tool_only[of "compress_context_new Payg" ?slot demo_serde ?body JNull]
    by (auto simp: get_array_def simp del: append.simps)
  with plan show ?thesis
    by (intro exI[of _ ?slot] exI[of _ view] exI[of _ ms] exI[of _ i] exI[of _ header] exI[of _ content])
      (simp add: slot_lo_def)
qed

text \<open>
  C32: A Responses plan only touches the string outputs of \<open>*_call_output\<close> items that answer
  no retrieve call, at item indices at or past the session floor less the entry the
  estimates put in front for \<open>instructions\<close>.
\<close>

theorem responses_outputs_only:
  assumes "s \<in> set (snd (plan_openai_responses S (whole body) parsed k))"
  shows "\<exists>view raw items i header result.
     sd_responses_body_view S (whole body) = Some view \<and> option_or (rb_input view) (rb_messages view) = Some raw
     \<and> sd_raw_values S raw = Some items
     \<and> k - responses_estimate_prefix_len parsed \<le> i \<and> i < length items
     \<and> sd_responses_item_header S (items ! i) = Some header
     \<and> (\<exists>kind. ri_type header = Some kind \<and> is_responses_output_item kind)
     \<and> (\<forall>c xs. ri_call_id header = Some c \<longrightarrow>
          Option.bind (option_or (json_get ''input'' parsed) (json_get ''messages'' parsed)) as_array = Some xs
          \<longrightarrow> c \<notin> set (responses_retrieve_call_ids xs))
     \<and> ri_output header = Some result \<and> at_token result s"
proof -
  obtain view raw items where view: "sd_responses_body_view S (whole body) = Some view"
    "option_or (rb_input view) (rb_messages view) = Some raw" "sd_raw_values S raw = Some items"
    using assms
    by (cases "sd_responses_body_view S (whole body)";
        cases "option_or (rb_input (the (sd_responses_body_view S (whole body))))
                 (rb_messages (the (sd_responses_body_view S (whole body))))")
      (auto simp: plan_openai_responses_def Let_def split: if_splits option.splits)
  define ids where "ids = (case Option.bind (option_or (json_get ''input'' parsed) (json_get ''messages'' parsed))
      as_array of Some xs \<Rightarrow> responses_retrieve_call_ids xs | None \<Rightarrow> [])"
  let ?n = "k - responses_estimate_prefix_len parsed"
  have "s \<in> set (concat (map (plan_responses_item S (whole body) ids) (drop ?n items)))"
    using assms view by (simp add: plan_openai_responses_def Let_def ids_def split: if_splits)
  then obtain item where item: "item \<in> set (drop ?n items)" "s \<in> set (plan_responses_item S (whole body) ids item)"
    by auto
  then obtain j where j: "j < length (drop ?n items)" "item = drop ?n items ! j"
    by (metis in_set_conv_nth)
  then have i: "?n \<le> ?n + j" "?n + j < length items" "item = items ! (?n + j)" by auto
  obtain header result where h: "sd_responses_item_header S item = Some header" "ri_output header = Some result"
    and slot: "s \<in> set (string_slot S (whole body) (s_addr (whole body)) (max RESPONSES_OUTPUT_MIN_BYTES LIVE_ZONE_MIN_BYTES)
       None ''responses.output'' result)"
    and kind: "is_responses_output_item (unwrap_or [] (ri_type header))"
    and call: "\<not> (case ri_call_id header of Some i \<Rightarrow> i \<in> set ids | None \<Rightarrow> False)"
    using item(2)
    by (cases "sd_responses_item_header S item"; cases "ri_output (the (sd_responses_item_header S item))")
      (auto simp: plan_responses_item_def split: if_splits)
  have "\<exists>t. ri_type header = Some t \<and> is_responses_output_item t"
    using kind by (cases "ri_type header") (auto simp: is_responses_output_item_def)
  moreover have "\<forall>c xs. ri_call_id header = Some c \<longrightarrow>
      Option.bind (option_or (json_get ''input'' parsed) (json_get ''messages'' parsed)) as_array = Some xs
      \<longrightarrow> c \<notin> set (responses_retrieve_call_ids xs)"
    using call by (auto simp: ids_def)
  ultimately show ?thesis
    using view h i string_slot_at(1)[OF slot] by blast
qed

theorem responses_outputs_only_witness:
  "\<exists>view. sd_responses_body_view demo_serde (whole (''{[{'' @ [quote] @ ''x'' @ [quote] @ ''}]}'')) = Some view"
proof -
  let ?body = "whole (''{[{'' @ [quote] @ ''x'' @ [quote] @ ''}]}'')"
  let ?slot = "\<lparr>ps_range = (3, 6), ps_text = ''x'', ps_min_bytes = 512, ps_batch_request_index = None,
         ps_label = ''responses.output''\<rparr>"
  have "snd (plan_openai_responses demo_serde ?body JNull 0) = [?slot]" by code_simp
  then have "?slot \<in> set (snd (plan_openai_responses demo_serde ?body JNull 0))" by simp
  from responses_outputs_only[OF this] show ?thesis by blast
qed

section \<open>The gate\<close>

lemma token_gate_open:
  assumes "digest_ok sha256" "512 \<le> length t"
  shows "estimate_tokens (marker_for_hash (content_hash sha256 t)) < estimate_tokens t"
  using estimate_tokens_lower[of t] assms marker_size(2)[OF assms(1)] by simp

text \<open>
  C33: A slot with the 512-byte threshold is replaced exactly when its text holds no marker
  prefix, has at least the threshold's bytes, and the store takes it: the token-shrink check
  rejects nothing the threshold admits. The replacement covers the slot's range with the
  printed marker of the text's hash.
\<close>

theorem compress_slot_replaces_iff:
  assumes "digest_ok sha256" "512 \<le> ps_min_bytes slot"
  shows "compress_slot S sha256 ops slot w = Some (Some (r, hash), w') \<longleftrightarrow>
     \<not> contains ''<<ccr:'' (ps_text slot) \<and> ps_min_bytes slot \<le> length (ps_text slot)
     \<and> hash = content_hash sha256 (ps_text slot)
     \<and> (\<exists>inserted s' printed. put_op ops hash (ps_text slot) (the_store w) = (Inr inserted, s')
          \<and> sd_to_vec S (JString (marker_for_hash hash)) = Some printed
          \<and> r = \<lparr>r_start = slot_lo slot, r_end = slot_hi slot, r_bytes = printed\<rparr>
          \<and> w' = w\<lparr>the_store := s', the_stats :=
               if inserted then record_ccr_entry_inserted (the_stats w) else the_stats w\<rparr>)"
  (is "?lhs \<longleftrightarrow> ?rhs")
proof (cases "contains ''<<ccr:'' (ps_text slot) \<or> length (ps_text slot) < ps_min_bytes slot")
  case True
  then show ?thesis by (auto simp: compress_slot_def)
next
  case False
  let ?h = "content_hash sha256 (ps_text slot)"
  have "512 \<le> length (ps_text slot)" using assms(2) False by simp
  from token_gate_open[OF assms(1) this]
  have gates: "\<not> contains ''<<ccr:'' (ps_text slot)" "\<not> length (ps_text slot) < ps_min_bytes slot"
    "\<not> estimate_tokens (ps_text slot) \<le> estimate_tokens (marker_for_hash ?h)"
    using False by simp_all
  obtain taken s1 where put: "put_op ops ?h (ps_text slot) (the_store w) = (taken, s1)" by fastforce
  show ?thesis
    by (cases "hash = ?h"; cases taken; cases "sd_to_vec S (JString (marker_for_hash ?h))")
      (use gates put in \<open>simp_all add: compress_slot_def Let_def slot_lo_def slot_hi_def eq_commute[of r] eq_commute[of w']\<close>)
qed

theorem compress_slot_replaces_iff_witness:
  "\<exists>r hash w'. compress_slot demo_serde const_digest (sqlite_ops 1)
     \<lparr>ps_range = (4, 606), ps_text = replicate 600 (CHR ''a''), ps_min_bytes = 512,
      ps_batch_request_index = None, ps_label = ''x''\<rparr> empty_world = Some (Some (r, hash), w')"
proof -
  let ?t = "replicate 600 (CHR ''a'')"
  let ?slot = "\<lparr>ps_range = (4, 606), ps_text = ?t, ps_min_bytes = 512,
      ps_batch_request_index = None, ps_label = ''x''\<rparr>"
  have "CHR ''<'' \<notin> set ?t" by simp
  then have clean: "\<not> contains ''<<ccr:'' ?t"
    unfolding contains_iff by (metis in_set_conv_decomp Un_iff set_append append_Cons)
  obtain s' where put: "put_op (sqlite_ops 1) (content_hash const_digest ?t) ?t sqlite_in_memory = (Inr True, s')"
    by (auto simp: sqlite_ops_def sqlite_put_def sqlite_in_memory_def)
  have print: "sd_to_vec demo_serde (JString m) = Some ([quote] @ m @ [quote])" for m
    by (simp add: demo_serde_def)
  have thr: "512 \<le> ps_min_bytes ?slot" by simp
  have "compress_slot demo_serde const_digest (sqlite_ops 1) ?slot empty_world =
      Some (Some (\<lparr>r_start = slot_lo ?slot, r_end = slot_hi ?slot,
        r_bytes = [quote] @ marker_for_hash (content_hash const_digest ?t) @ [quote]\<rparr>,
        content_hash const_digest ?t),
       empty_world\<lparr>the_store := s', the_stats := record_ccr_entry_inserted (the_stats empty_world)\<rparr>)"
    unfolding compress_slot_replaces_iff[OF digest_ok_const thr]
    using clean put print by (simp add: empty_world_def) blast
  then show ?thesis by blast
qed

end
