(* ===== verification/Tool_Metadata.thy ===== *)
theory Tool_Metadata
  imports Live_Zone
begin

text \<open>
  Provider metadata of \<open>src/compression.rs\<close>: the deterministic tool sort and canonical
  schemas, \<open>cache_control\<close> placement, the retrieve tool, and \<open>prompt_cache_key\<close>. Each
  planner returns the byte splices it appends. MD5 and SHA-256 are arguments.
\<close>

section \<open>Pieces of JSON text\<close>

definition CACHE_CONTROL_FIELD :: string where
  \<open>CACHE_CONTROL_FIELD = ''"cache_control":{"type":"ephemeral"}''\<close>

text \<open>\<open>strip_prefix('{').map(|rest| rest.trim_start().starts_with('}')).unwrap_or(false)\<close>\<close>

definition interior_empty :: "string \<Rightarrow> bool" where
  "interior_empty s =
     (case strip_prefix ''{'' s of Some rest \<Rightarrow> starts_with ''}'' (trim_start rest) | None \<Rightarrow> False)"

definition insertion :: "nat \<Rightarrow> string \<Rightarrow> replacement" where
  "insertion i bs = \<lparr>r_start = i, r_end = i, r_bytes = bs\<rparr>"

section \<open>Tool normalization\<close>

datatype tool_shape = ToolOpenAi | ToolAnthropic

definition schema_of :: "tool_shape \<Rightarrow> tool_schema_view \<Rightarrow> slice option" where
  "schema_of shape v =
     (case shape of
        ToolOpenAi \<Rightarrow> option_or (Option.bind (ts_function v) fs_parameters) (ts_parameters v)
      | ToolAnthropic \<Rightarrow> ts_input_schema v)"

definition canonicalized_tool_piece :: "serde \<Rightarrow> slice \<Rightarrow> tool_shape \<Rightarrow> string" where
  "canonicalized_tool_piece S tool shape =
     (case sd_tool_schema_view S tool of
        None \<Rightarrow> s_text tool
      | Some schema_view \<Rightarrow>
          (case schema_of shape schema_view of
             None \<Rightarrow> s_text tool
           | Some schema \<Rightarrow>
               (case Option.bind (sd_value S (s_text schema)) (sd_to_vec S) of
                  None \<Rightarrow> s_text tool
                | Some canonical \<Rightarrow>
                    if canonical = s_text schema then s_text tool
                    else (case offset_of tool schema of
                            None \<Rightarrow> s_text tool
                          | Some offset \<Rightarrow>
                              take offset (s_text tool) @ canonical
                              @ drop (offset + length (s_text schema)) (s_text tool)))))"

definition append_cache_control_to_piece :: "string \<Rightarrow> string" where
  "append_cache_control_to_piece piece =
     (if \<not> ends_with ''}'' piece then piece
      else
        let insert_at = length piece - 1;
            ins = (if interior_empty piece then CACHE_CONTROL_FIELD else '','' @ CACHE_CONTROL_FIELD)
        in take insert_at piece @ ins @ drop insert_at piece)"

definition tool_sort_key :: "serde \<Rightarrow> (string \<Rightarrow> string) \<Rightarrow> json \<Rightarrow> string" where
  "tool_sort_key S md5 tool =
     (case get_str ''name'' tool of
        Some name \<Rightarrow> name
      | None \<Rightarrow>
          (case get_in_str ''function'' ''name'' tool of
             Some name \<Rightarrow> name
           | None \<Rightarrow> hex_string (md5 (unwrap_or [] (sd_to_vec S tool)))))"

definition schema_splice :: "serde \<Rightarrow> slice \<Rightarrow> nat \<Rightarrow> tool_shape \<Rightarrow> slice \<Rightarrow> replacement list" where
  "schema_splice S segment base shape tool =
     (case sd_tool_schema_view S tool of
        None \<Rightarrow> []
      | Some schema_view \<Rightarrow>
          (case schema_of shape schema_view of
             None \<Rightarrow> []
           | Some schema \<Rightarrow>
               (case Option.bind (sd_value S (s_text schema)) (sd_to_vec S) of
                  None \<Rightarrow> []
                | Some canonical \<Rightarrow>
                    if canonical = s_text schema then []
                    else (case offset_of segment schema of
                            None \<Rightarrow> []
                          | Some offset \<Rightarrow>
                              [\<lparr>r_start = base + offset, r_end = base + offset + length (s_text schema),
                                r_bytes = canonical\<rparr>]))))"

definition cache_control_splice :: "slice \<Rightarrow> nat \<Rightarrow> slice list \<Rightarrow> replacement list" where
  "cache_control_splice segment base tool_raws =
     (if tool_raws = [] then []
      else
        let last_raw = last tool_raws; last_str = s_text last_raw in
        if \<not> ends_with ''}'' last_str then []
        else (case offset_of segment last_raw of
                None \<Rightarrow> []
              | Some last_offset \<Rightarrow>
                  [insertion (base + last_offset + length last_str - 1)
                     ((if interior_empty last_str then [] else '','') @ CACHE_CONTROL_FIELD)]))"

definition mark_last :: "string list \<Rightarrow> string list" where
  "mark_last pieces =
     (if pieces = [] then [] else butlast pieces @ [append_cache_control_to_piece (last pieces)])"

definition tool_order :: "serde \<Rightarrow> (string \<Rightarrow> string) \<Rightarrow> json list \<Rightarrow> nat list" where
  "tool_order S md5 tools =
     (let before = map (tool_sort_key S md5) tools
      in sort_key (\<lambda>index. before ! index) [0..<length tools])"

definition reordered_tools ::
    "serde \<Rightarrow> tool_shape \<Rightarrow> bool \<Rightarrow> slice list \<Rightarrow> nat list \<Rightarrow> string" where
  "reordered_tools S shape place_cache_control tool_raws order =
     (let pieces = map (\<lambda>index. canonicalized_tool_piece S (tool_raws ! index) shape) order;
          pieces = (if place_cache_control then mark_last pieces else pieces)
      in ''['' @ join '','' pieces @ '']'')"

definition plan_tools_normalization ::
    "serde \<Rightarrow> (string \<Rightarrow> string) \<Rightarrow> slice \<Rightarrow> nat \<Rightarrow> json \<Rightarrow> tool_shape \<Rightarrow> replacement list" where
  "plan_tools_normalization S md5 segment base object_value shape =
     (case get_array ''tools'' object_value of
        None \<Rightarrow> []
      | Some tools \<Rightarrow>
          if tools = [] then []
          else (case Option.bind (sd_tools_array_view S segment) tv_tools of
            None \<Rightarrow> []
          | Some tools_raw \<Rightarrow>
              (case (offset_of segment tools_raw, sd_raw_values S tools_raw) of
                 (Some tools_offset, Some tool_raws) \<Rightarrow>
                   if length tool_raws \<noteq> length tools then []
                   else
                     let marker_present = (\<exists>tool \<in> set tools. has_cache_control tool);
                         place_cache_control = (shape = ToolAnthropic
                           \<and> \<not> anthropic_cache_control_already_set object_value);
                         order = tool_order S md5 tools
                     in if \<not> marker_present \<and> order \<noteq> [0..<length tools] then
                          [\<lparr>r_start = base + tools_offset,
                            r_end = base + tools_offset + length (s_text tools_raw),
                            r_bytes = reordered_tools S shape place_cache_control tool_raws order\<rparr>]
                        else
                          concat (map (schema_splice S segment base shape) tool_raws)
                          @ (if place_cache_control then cache_control_splice segment base tool_raws
                             else [])
               | _ \<Rightarrow> [])))"

text \<open>\<open>parsed.get("requests").and_then(as_array).and_then(|rs| rs.get(index)).and_then(|r| r.get("params"))\<close>\<close>

definition batch_params_value :: "json \<Rightarrow> nat \<Rightarrow> json option" where
  "batch_params_value parsed index =
     (case get_array ''requests'' parsed of
        None \<Rightarrow> None
      | Some requests \<Rightarrow>
          if index < length requests then json_get ''params'' (requests ! index) else None)"

text \<open>The raw \<open>params\<close> of a request with its offset in the body.\<close>

definition batch_params :: "serde \<Rightarrow> slice \<Rightarrow> slice \<Rightarrow> (slice \<times> nat) option" where
  "batch_params S body request_raw =
     (case Option.bind (sd_batch_request_view S request_raw) br_params of
        None \<Rightarrow> None
      | Some params_raw \<Rightarrow> map_option (\<lambda>offset. (params_raw, offset)) (offset_of body params_raw))"

definition plan_batch_metadata ::
    "serde \<Rightarrow> (string \<Rightarrow> string) \<Rightarrow> slice \<Rightarrow> json \<Rightarrow> nat \<times> slice \<Rightarrow> replacement list" where
  "plan_batch_metadata S md5 body parsed = (\<lambda>(index, request_raw).
     (case (batch_params S body request_raw, batch_params_value parsed index) of
        (Some (params_raw, params_offset), Some params_value) \<Rightarrow>
          plan_tools_normalization S md5 params_raw params_offset params_value ToolAnthropic
      | _ \<Rightarrow> []))"

definition plan_provider_metadata_splices ::
    "serde \<Rightarrow> (string \<Rightarrow> string) \<Rightarrow> slice \<Rightarrow> json \<Rightarrow> api_shape \<Rightarrow> replacement list" where
  "plan_provider_metadata_splices S md5 body parsed shape =
     (case shape of
        OpenAiChatCompletions \<Rightarrow> plan_tools_normalization S md5 body 0 parsed ToolOpenAi
      | OpenAiResponses \<Rightarrow> plan_tools_normalization S md5 body 0 parsed ToolOpenAi
      | AnthropicMessages \<Rightarrow> plan_tools_normalization S md5 body 0 parsed ToolAnthropic
      | AnthropicMessageBatches \<Rightarrow>
          (case Option.bind (sd_batch_view S body) bv_requests of
             None \<Rightarrow> []
           | Some requests \<Rightarrow>
               concat (map (plan_batch_metadata S md5 body parsed) (enumerate 0 requests))))"

section \<open>The retrieve tool\<close>

definition retrieve_parameters :: json where
  "retrieve_parameters = json_obj [
     (''type'', JString ''object''),
     (''properties'', json_obj [
        (''hash'', json_obj [
           (''type'', JString ''string''),
           (''description'', JString ''Hash from a <<ccr:HASH>> marker.'')]),
        (''query'', json_obj [
           (''type'', JString ''string''),
           (''description'', JString ''Optional search query used to return matching lines instead of the full original content.'')])]),
     (''required'', JArray [JString ''hash''])]"

definition retrieve_description :: string where
  "retrieve_description = ''Retrieve original uncompressed content that was compressed to save tokens. Use this when a <<ccr:HASH>> marker is present and more detail is needed.''"

definition retrieve_function_definition :: json where
  "retrieve_function_definition = json_obj [
     (''name'', JString ''headroom_retrieve''),
     (''description'', JString retrieve_description),
     (''parameters'', retrieve_parameters)]"

text \<open>\<open>function[key].clone()\<close>\<close>

definition retrieve_field :: "string \<Rightarrow> json" where
  "retrieve_field key = unwrap_or JNull (json_get key retrieve_function_definition)"

definition openai_chat_retrieve_tool :: json where
  "openai_chat_retrieve_tool = json_obj [
     (''type'', JString ''function''), (''function'', retrieve_function_definition)]"

definition openai_responses_retrieve_tool :: json where
  "openai_responses_retrieve_tool = json_obj [
     (''type'', JString ''function''),
     (''name'', retrieve_field ''name''),
     (''description'', retrieve_field ''description''),
     (''parameters'', retrieve_field ''parameters'')]"

definition anthropic_retrieve_tool :: json where
  "anthropic_retrieve_tool = json_obj [
     (''name'', retrieve_field ''name''),
     (''description'', retrieve_field ''description''),
     (''input_schema'', retrieve_field ''parameters'')]"

definition is_retrieve_name :: "string option \<Rightarrow> bool" where
  "is_retrieve_name name = (case name of Some n \<Rightarrow> is_retrieve_tool_name n | None \<Rightarrow> False)"

text \<open>The tool to inject and the test for its presence.\<close>

definition retrieve_tool_for :: "api_shape \<Rightarrow> json \<times> (json \<Rightarrow> bool)" where
  "retrieve_tool_for shape =
     (case shape of
        OpenAiChatCompletions \<Rightarrow>
          (openai_chat_retrieve_tool, \<lambda>tool. is_retrieve_name (get_in_str ''function'' ''name'' tool))
      | OpenAiResponses \<Rightarrow>
          (openai_responses_retrieve_tool,
           \<lambda>tool. is_retrieve_name (option_or (get_str ''name'' tool) (get_in_str ''function'' ''name'' tool)))
      | _ \<Rightarrow> (anthropic_retrieve_tool, \<lambda>tool. is_retrieve_name (get_str ''name'' tool)))"

definition TOOLS_FIELD :: string where
  \<open>TOOLS_FIELD = ''"tools":[''\<close>

definition plan_tool_append ::
    "serde \<Rightarrow> slice \<Rightarrow> nat \<Rightarrow> json \<Rightarrow> json \<Rightarrow> (json \<Rightarrow> bool) \<Rightarrow> bool \<times> replacement list" where
  "plan_tool_append S segment base object_value tool exists =
     (case sd_to_vec S tool of
        None \<Rightarrow> (False, [])
      | Some tool_bytes \<Rightarrow>
          (case json_get ''tools'' object_value of
             Some (JArray tools) \<Rightarrow>
               if \<exists>t \<in> set tools. exists t then (False, [])
               else (case Option.bind (sd_tools_array_view S segment) tv_tools of
                 None \<Rightarrow> (False, [])
               | Some tools_raw \<Rightarrow>
                   let tools_str = s_text tools_raw in
                   if \<not> ends_with '']'' tools_str then (False, [])
                   else (case offset_of segment tools_raw of
                     None \<Rightarrow> (False, [])
                   | Some tools_offset \<Rightarrow>
                       (True, [insertion (base + tools_offset + length tools_str - 1)
                          ((if tools \<noteq> [] then '','' else []) @ tool_bytes)])))
           | Some _ \<Rightarrow> (False, [])
           | None \<Rightarrow>
               let trimmed = trim_end (s_text segment) in
               if \<not> ends_with ''}'' trimmed then (False, [])
               else
                 (True, [insertion (base + length trimmed - 1)
                    ((if interior_empty trimmed then [] else '','') @ TOOLS_FIELD @ tool_bytes @ '']'')])))"

definition plan_retrieve_tool_injection ::
    "serde \<Rightarrow> slice \<Rightarrow> json \<Rightarrow> api_shape \<Rightarrow> bool \<times> replacement list" where
  "plan_retrieve_tool_injection S body parsed shape =
     (let (tool, exists) = retrieve_tool_for shape
      in plan_tool_append S body 0 parsed tool exists)"

definition plan_batch_append ::
    "serde \<Rightarrow> slice \<Rightarrow> json \<Rightarrow> slice list \<Rightarrow> nat \<Rightarrow> bool \<times> replacement list" where
  "plan_batch_append S body parsed requests index =
     (if length requests \<le> index then (False, [])
      else (case (batch_params S body (requests ! index), batch_params_value parsed index) of
        (Some (params_raw, params_offset), Some params_value) \<Rightarrow>
          plan_tool_append S params_raw params_offset params_value anthropic_retrieve_tool
            (\<lambda>tool. is_retrieve_name (get_str ''name'' tool))
      | _ \<Rightarrow> (False, [])))"

text \<open>\<open>compressed_indices\<close>: the \<open>BTreeSet\<close> as the ascending list of its indices.\<close>

definition plan_batch_retrieve_tool_injection ::
    "serde \<Rightarrow> slice \<Rightarrow> json \<Rightarrow> nat list \<Rightarrow> bool \<times> replacement list" where
  "plan_batch_retrieve_tool_injection S body parsed compressed_indices =
     (if compressed_indices = [] then (False, [])
      else (case Option.bind (sd_batch_view S body) bv_requests of
        None \<Rightarrow> (False, [])
      | Some requests \<Rightarrow>
          let plans = map (plan_batch_append S body parsed requests) compressed_indices
          in (\<exists>plan \<in> set plans. fst plan, concat (map snd plans))))"

section \<open>The prompt cache key\<close>

definition first_system_content :: "json \<Rightarrow> json option" where
  "first_system_content items =
     (case as_array items of
        None \<Rightarrow> None
      | Some xs \<Rightarrow>
          map_option (\<lambda>item. unwrap_or JNull (json_get ''content'' item))
            (find (\<lambda>item. get_str ''role'' item = Some ''system'') xs))"

definition openai_system_value :: "json \<Rightarrow> api_shape \<Rightarrow> json" where
  "openai_system_value v shape =
     (let from_messages = unwrap_or JNull (Option.bind (json_get ''messages'' v) first_system_content) in
      if shape = OpenAiResponses then
        (case json_get ''instructions'' v of
           Some instructions \<Rightarrow> instructions
         | None \<Rightarrow>
             (case Option.bind (json_get ''input'' v) first_system_content of
                Some content \<Rightarrow> content
              | None \<Rightarrow> from_messages))
      else from_messages)"

definition canonical_json_sha256 :: "serde \<Rightarrow> (string \<Rightarrow> string) \<Rightarrow> json \<Rightarrow> string" where
  "canonical_json_sha256 S sha256 v = hex_string (sha256 (unwrap_or ''null'' (sd_to_vec S v)))"

definition NUL :: string where
  "NUL = [CHR 0x00]"

definition derive_openai_prompt_cache_key ::
    "serde \<Rightarrow> (string \<Rightarrow> string) \<Rightarrow> json \<Rightarrow> api_shape \<Rightarrow> string" where
  "derive_openai_prompt_cache_key S sha256 v shape =
     (let model = unwrap_or [] (get_str ''model'' v);
          system_hash = canonical_json_sha256 S sha256 (openai_system_value v shape);
          tools_hash = canonical_json_sha256 S sha256 (unwrap_or JNull (json_get ''tools'' v))
      in hex_string (take 16 (sha256 (model @ NUL @ system_hash @ NUL @ tools_hash))))"

definition PROMPT_CACHE_KEY_FIELD :: string where
  \<open>PROMPT_CACHE_KEY_FIELD = ''"prompt_cache_key":''\<close>

definition plan_prompt_cache_key_injection ::
    "serde \<Rightarrow> (string \<Rightarrow> string) \<Rightarrow> slice \<Rightarrow> json \<Rightarrow> api_shape \<Rightarrow> bool \<times> replacement list" where
  "plan_prompt_cache_key_injection S sha256 body parsed shape =
     (if \<not> is_object parsed then (False, [])
      else if (case get_str ''prompt_cache_key'' parsed of Some k \<Rightarrow> k \<noteq> [] | None \<Rightarrow> False)
      then (False, [])
      else
        let key = derive_openai_prompt_cache_key S sha256 parsed shape;
            key_token = [quote] @ key @ [quote]
        in if json_get ''prompt_cache_key'' parsed \<noteq> None then
             (case Option.bind (sd_prompt_cache_key_view S body) pk_prompt_cache_key of
                None \<Rightarrow> (False, [])
              | Some value_raw \<Rightarrow>
                  (case offset_of body value_raw of
                     None \<Rightarrow> (False, [])
                   | Some value_offset \<Rightarrow>
                       (True, [\<lparr>r_start = value_offset,
                                r_end = value_offset + length (s_text value_raw),
                                r_bytes = key_token\<rparr>])))
           else
             let trimmed = trim_end (s_text body) in
             if \<not> ends_with ''}'' trimmed then (False, [])
             else (True, [insertion (length trimmed - 1)
                     ((if interior_empty trimmed then [] else '','') @ PROMPT_CACHE_KEY_FIELD @ key_token)]))"

end
