(* ===== verification/Metadata_Safety.thy ===== *)
theory Metadata_Safety
  imports Tool_Metadata "HOL-Library.Multiset"
begin

text \<open>
  What the metadata planners guarantee: their splices fit the body, a tool is never injected
  twice, the customer's cache key wins, the tool order is a stable sort, and both ways of
  canonicalizing a tool give the same bytes.
\<close>

section \<open>Where metadata splices land\<close>

abbreviation splices_in :: "slice \<Rightarrow> replacement list \<Rightarrow> bool" where
  "splices_in \<equiv> spans_in r_start r_end"

lemma splices_plan_ok:
  assumes "splices_in p rs" "part_of (whole body) p"
  shows "plan_ok (length body) rs"
proof -
  have "sorted_wrt (\<lambda>a b. r_end a \<le> r_start b) rs" "\<forall>r \<in> set rs. r_start r \<le> r_end r \<and> r_end r \<le> length body"
    using assms by (auto simp: spans_in_def ascending_def part_of_def)
  then show ?thesis by (rule chain_plan_ok)
qed

lemma schema_of_inside:
  assumes "borrows_ok S" "sd_tool_schema_view S tool = Some v" "schema_of shape v = Some schema"
  shows "inside tool schema"
proof -
  have "ts_parameters v = Some schema \<or> ts_input_schema v = Some schema
     \<or> (\<exists>f. ts_function v = Some f \<and> fs_parameters f = Some schema)"
    using assms(3)
    by (auto simp: schema_of_def option_or_def split: tool_shape.splits option.splits bind_splits)
  then show ?thesis by (rule tool_schema_view_ok[OF assms(1,2)])
qed

lemma schema_splice_inside:
  assumes "borrows_ok S" "r \<in> set (schema_splice S segment (s_addr segment) shape tool)"
  shows "s_addr tool < r_start r \<and> r_start r \<le> r_end r \<and> r_end r < s_end tool"
proof -
  obtain v schema offset where v: "sd_tool_schema_view S tool = Some v" "schema_of shape v = Some schema"
    "offset_of segment schema = Some offset"
    and r: "r_start r = s_addr segment + offset" "r_end r = s_addr segment + offset + length (s_text schema)"
  proof -
    obtain v where v: "sd_tool_schema_view S tool = Some v"
      using assms(2) by (cases "sd_tool_schema_view S tool") (simp_all add: schema_splice_def)
    then obtain schema where schema: "schema_of shape v = Some schema"
      using assms(2) by (cases "schema_of shape v") (simp_all add: schema_splice_def)
    with v obtain offset where "offset_of segment schema = Some offset"
      using assms(2) by (cases "offset_of segment schema") (simp_all add: schema_splice_def split: option.splits)
    with v schema show ?thesis
      using assms(2) by (intro that[of v schema offset])
        (simp_all add: schema_splice_def split: option.splits if_splits)
  qed
  have "s_addr segment + offset = s_addr schema" using v(3) by (auto simp: offset_of_Some)
  then show ?thesis
    using inside_bounds[OF schema_of_inside[OF assms(1) v(1,2)]] r by (auto simp: s_end_def)
qed

lemma schema_splice_single: "length (schema_splice S segment base shape tool) \<le> 1"
  by (auto simp: schema_splice_def split: option.splits)

lemma schema_splice_in:
  "borrows_ok S \<Longrightarrow> splices_in tool (schema_splice S segment (s_addr segment) shape tool)"
  using schema_splice_inside[of S _ segment shape tool] schema_splice_single[of S segment "s_addr segment" shape tool]
  by (cases "schema_splice S segment (s_addr segment) shape tool") (auto simp: spans_in_def)

lemma cache_control_splice_at:
  assumes "r \<in> set (cache_control_splice segment (s_addr segment) tools)"
  shows "tools \<noteq> []" "r_start r = s_end (last tools) - 1" "r_end r = r_start r" "s_addr (last tools) < s_end (last tools)"
proof -
  from assms show ne: "tools \<noteq> []" by (auto simp: cache_control_splice_def split: if_splits)
  then obtain offset where off: "offset_of segment (last tools) = Some offset"
    and cc: "ends_with ''}'' (s_text (last tools))"
    and r: "r_start r = s_addr segment + offset + length (s_text (last tools)) - 1" "r_end r = r_start r"
    using assms by (auto simp: cache_control_splice_def insertion_def Let_def split: option.splits if_splits)
  from cc have "0 < length (s_text (last tools))" by (auto simp: ends_with_def)
  with off r show "r_start r = s_end (last tools) - 1" "s_addr (last tools) < s_end (last tools)"
    by (auto simp: offset_of_Some s_end_def)
  show "r_end r = r_start r" by (fact r(2))
qed

lemma cache_control_splice_single: "length (cache_control_splice segment base tools) \<le> 1"
  by (auto simp: cache_control_splice_def Let_def split: option.splits)

lemma tools_in_place:
  assumes "borrows_ok S" "elements_ok p tools"
  shows "splices_in p (concat (map (schema_splice S segment (s_addr segment) shape) tools)
    @ (if place then cache_control_splice segment (s_addr segment) tools else []))"
proof -
  let ?xs = "concat (map (schema_splice S segment (s_addr segment) shape) tools)"
  let ?ys = "if place then cache_control_splice segment (s_addr segment) tools else []"
  have xs: "splices_in p ?xs"
    using assms schema_splice_in[OF assms(1)] by (intro spans_in_elements[where g = id]) simp_all
  have y: "r_start y = s_end (last tools) - 1" "r_end y = r_start y" "tools \<noteq> []"
    "s_addr (last tools) < s_end (last tools)" if "y \<in> set ?ys" for y
    using that cache_control_splice_at by (auto split: if_splits)
  have bound: "s_addr p \<le> r_start y \<and> r_end y \<le> s_end p" if "y \<in> set ?ys" for y
    using y[OF that] elements_inside[OF assms(2), of "last tools"] by (auto dest!: inside_bounds)
  have ys: "ascending r_start r_end ?ys"
    using cache_control_splice_single[of segment "s_addr segment" tools] y
    by (cases "cache_control_splice segment (s_addr segment) tools") auto
  have "r_end x \<le> r_start y" if x: "x \<in> set ?xs" and yy: "y \<in> set ?ys" for x y
  proof -
    from x obtain tool where tool: "tool \<in> set tools" "x \<in> set (schema_splice S segment (s_addr segment) shape tool)"
      by auto
    have "s_end tool \<le> s_end (last tools)"
    proof -
      from tool(1) obtain i where i: "i < length tools" "tool = tools ! i" by (auto simp: in_set_conv_nth)
      have "sorted_wrt (\<lambda>a b. s_end a \<le> s_addr b) tools"
        using assms(2) by (simp add: elements_ok_def ascending_def)
      then have "i < length tools - 1 \<Longrightarrow> s_end tool \<le> s_addr (last tools)"
        using i y(3)[OF yy] by (auto simp: last_conv_nth intro: sorted_wrt_nth_less[where P = "\<lambda>a b. s_end a \<le> s_addr b"])
      moreover have "\<not> i < length tools - 1 \<Longrightarrow> tool = last tools"
        using i y(3)[OF yy] by (metis One_nat_def Suc_pred last_conv_nth length_greater_0_conv less_SucE)
      ultimately show ?thesis using y(4)[OF yy] by fastforce
    qed
    then show ?thesis using schema_splice_inside[OF assms(1) tool(2)] y(1)[OF yy] by linarith
  qed
  then have "ascending r_start r_end (?xs @ ?ys)"
    using xs ys by (intro ascending_append) (auto simp: spans_in_def)
  then show ?thesis using xs bound unfolding spans_in_def by auto
qed

lemma normalization_in:
  assumes "borrows_ok S"
  shows "splices_in segment (plan_tools_normalization S md5 segment (s_addr segment) v shape)"
proof (cases "Option.bind (sd_tools_array_view S segment) tv_tools")
  case (Some tools_raw)
  then have inside: "inside segment tools_raw"
    by (auto dest: tools_array_view_ok[OF assms] split: bind_splits)
  have offset: "offset_of segment tools_raw = Some (s_addr tools_raw - s_addr segment)"
    by (rule inside_offset[OF inside])
  have whole_array: "splices_in segment [\<lparr>r_start = s_addr tools_raw, r_end = s_end tools_raw, r_bytes = bs\<rparr>]" for bs
    using inside_bounds[OF inside] by (simp add: spans_in_def)
  have "splices_in segment (concat (map (schema_splice S segment (s_addr segment) shape) tools)
      @ (if place then cache_control_splice segment (s_addr segment) tools else []))"
    if "sd_raw_values S tools_raw = Some tools" for tools place
    by (rule spans_in_part[OF tools_in_place[OF assms raw_values_ok[OF assms that]] inside_part[OF inside]])
  then show ?thesis
    using Some offset whole_array inside_bounds[OF inside]
    by (auto simp: plan_tools_normalization_def Let_def s_end_def split: option.splits)
qed (simp add: plan_tools_normalization_def split: option.splits)

lemma batch_params_inside:
  assumes "borrows_ok S" "batch_params S body request = Some (params, offset)"
  shows "inside request params" "offset = s_addr params - s_addr body" "s_addr body \<le> s_addr params"
  using assms batch_request_view_ok[OF assms(1)]
  by (auto simp: batch_params_def offset_of_Some split: option.splits bind_splits)

lemma metadata_in:
  assumes "borrows_ok S"
  shows "splices_in (whole body) (plan_provider_metadata_splices S md5 (whole body) parsed shape)"
proof -
  have direct: "splices_in (whole body) (plan_tools_normalization S md5 (whole body) 0 parsed sh)" for sh
    using normalization_in[OF assms, of "whole body"] by simp
  have request: "splices_in raw (plan_batch_metadata S md5 (whole body) parsed (i, raw))" for i raw
  proof (cases "batch_params S (whole body) raw")
    case (Some po)
    obtain params offset where po: "po = (params, offset)" by (cases po)
    note b = batch_params_inside[OF assms Some[unfolded po]]
    have "splices_in raw (plan_tools_normalization S md5 params (s_addr params) pv sh)" for pv sh
      by (rule spans_in_part[OF normalization_in[OF assms] inside_part[OF b(1)]])
    then show ?thesis using Some po b(2) by (auto simp: plan_batch_metadata_def split: option.splits)
  qed (simp add: plan_batch_metadata_def)
  have "splices_in (whole body) (concat (map (plan_batch_metadata S md5 (whole body) parsed) (enumerate 0 requests)))"
    if "sd_batch_view S (whole body) = Some v" "bv_requests v = Some requests" for v requests
  proof (rule spans_in_elements[where g = snd])
    show "elements_ok (whole body) (map snd (enumerate 0 requests))"
      using batch_view_ok[OF assms that] by simp
    show "splices_in (snd x) (plan_batch_metadata S md5 (whole body) parsed x)" for x
      using request[of "snd x" "fst x"] by simp
  qed
  then show ?thesis using direct
    by (cases shape) (auto simp: plan_provider_metadata_splices_def split: option.splits bind_splits)
qed

lemma ends_with_length: "ends_with p s \<Longrightarrow> length p \<le> length s"
  by (simp add: ends_with_def)

lemma tool_append_in:
  assumes "borrows_ok S"
  shows "splices_in segment (snd (plan_tool_append S segment (s_addr segment) v tool exists))"
proof (cases "sd_to_vec S tool")
  case (Some bytes)
  have single: "splices_in segment [insertion i bs]" if "s_addr segment \<le> i" "i \<le> s_end segment" for i bs
    using that by (simp add: spans_in_def insertion_def)
  consider (array) tools where "json_get ''tools'' v = Some (JArray tools)"
    | (missing) "json_get ''tools'' v = None"
    | (other) x where "json_get ''tools'' v = Some x" "\<And>ts. x \<noteq> JArray ts"
    by (cases "json_get ''tools'' v") auto
  then show ?thesis
  proof cases
    case array
    show ?thesis
    proof (cases "Option.bind (sd_tools_array_view S segment) tv_tools")
      case view: (Some tools_raw)
      then have inside: "inside segment tools_raw"
        by (auto dest: tools_array_view_ok[OF assms] split: bind_splits)
      show ?thesis using array view Some single inside_bounds[OF inside] inside_offset[OF inside]
        by (auto simp: plan_tool_append_def Let_def s_end_def)
    qed (simp add: plan_tool_append_def array Some)
  next
    case missing
    then show ?thesis using Some trim_end_length[of "s_text segment"]
      by (auto simp: plan_tool_append_def Let_def s_end_def intro!: single dest!: ends_with_length)
  next
    case other
    then show ?thesis using Some by (cases x) (auto simp: plan_tool_append_def)
  qed
qed (simp add: plan_tool_append_def)

lemma batch_append_in:
  assumes "borrows_ok S" "index < length requests"
  shows "splices_in (requests ! index) (snd (plan_batch_append S (whole body) parsed requests index))"
proof (cases "batch_params S (whole body) (requests ! index)")
  case (Some po)
  obtain params offset where po: "po = (params, offset)" by (cases po)
  note b = batch_params_inside[OF assms(1) Some[unfolded po]]
  have "splices_in (requests ! index)
      (snd (plan_tool_append S params (s_addr params) pv anthropic_retrieve_tool exists))" for pv exists
    by (rule spans_in_part[OF tool_append_in[OF assms(1)] inside_part[OF b(1)]])
  then show ?thesis using Some po b(2) assms(2)
    by (auto simp: plan_batch_append_def split: option.splits)
qed (use assms(2) in \<open>simp add: plan_batch_append_def\<close>)

lemma elements_ok_select:
  assumes "elements_ok p cs" "sorted_wrt (<) idxs" "\<forall>i \<in> set idxs. i < length cs"
  shows "elements_ok p (map ((!) cs) idxs)"
proof -
  have asc: "sorted_wrt (\<lambda>a b. s_end a \<le> s_addr b) cs"
    using assms(1) by (simp add: elements_ok_def ascending_def)
  have "sorted_wrt (\<lambda>i j. s_end (cs ! i) \<le> s_addr (cs ! j)) idxs"
    using assms(2,3)
    by (intro sorted_wrt_mono_rel[OF _ assms(2)])
      (auto intro: sorted_wrt_nth_less[OF asc])
  then show ?thesis
    using assms by (auto simp: elements_ok_def ascending_def sorted_wrt_map)
qed

lemma batch_retrieve_in:
  assumes "borrows_ok S" "sorted_wrt (<) idxs"
  shows "splices_in (whole body) (snd (plan_batch_retrieve_tool_injection S (whole body) parsed idxs))"
proof (cases "Option.bind (sd_batch_view S (whole body)) bv_requests")
  case (Some requests)
  then have ok: "elements_ok (whole body) requests"
    by (auto dest: batch_view_ok[OF assms(1)] split: bind_splits)
  define known where "known = filter (\<lambda>i. i < length requests) idxs"
  have drop: "concat (map (snd \<circ> plan_batch_append S (whole body) parsed requests) idxs)
      = concat (map (snd \<circ> plan_batch_append S (whole body) parsed requests) known)"
    unfolding known_def by (induction idxs) (auto simp: plan_batch_append_def)
  have "splices_in (whole body) (concat (map (snd \<circ> plan_batch_append S (whole body) parsed requests) known))"
    using ok assms(2) batch_append_in[OF assms(1)]
    by (intro spans_in_elements[where g = "(!) requests"] elements_ok_select)
      (auto simp: known_def sorted_wrt_filter)
  then show ?thesis
    using Some drop by (simp add: plan_batch_retrieve_tool_injection_def Let_def)
qed (simp add: plan_batch_retrieve_tool_injection_def)

lemma retrieve_in:
  assumes "borrows_ok S"
  shows "splices_in (whole body) (snd (plan_retrieve_tool_injection S (whole body) parsed shape))"
  using tool_append_in[OF assms, of "whole body"]
  by (simp add: plan_retrieve_tool_injection_def split: prod.splits)

lemma cache_key_in:
  assumes "borrows_ok S"
  shows "splices_in (whole body) (snd (plan_prompt_cache_key_injection S sha256 (whole body) parsed shape))"
proof (cases "json_get ''prompt_cache_key'' parsed")
  case None
  then show ?thesis using trim_end_length[of body]
    by (auto simp: plan_prompt_cache_key_injection_def Let_def spans_in_def insertion_def)
next
  case (Some old)
  show ?thesis
  proof (cases "Option.bind (sd_prompt_cache_key_view S (whole body)) pk_prompt_cache_key")
    case view: (Some raw)
    then have "inside (whole body) raw"
      by (auto dest: prompt_cache_key_view_ok[OF assms] split: bind_splits)
    from inside_bounds[OF this] inside_offset[OF this] show ?thesis using Some view
      by (auto simp: plan_prompt_cache_key_injection_def Let_def spans_in_def s_end_def)
  qed (simp add: plan_prompt_cache_key_injection_def Let_def Some)
qed

section \<open>What the splices write\<close>

text \<open>
  A splice of the tool normalization, at a span of \<open>b\<close>. It stays within a \<open>tools\<close> array of
  the body (or of a batch request's \<open>params\<close>), and is one of three: the array again, its
  tools in another order; a schema, reprinted from the value the span parses to; or the
  \<open>cache_control\<close> field, added before the brace that closes the last tool.
\<close>

definition reorders_tools :: "serde \<Rightarrow> slice \<Rightarrow> slice list \<Rightarrow> replacement \<Rightarrow> bool" where
  "reorders_tools S tools raws q \<longleftrightarrow> r_start q = s_addr tools \<and> r_end q = s_end tools
     \<and> (\<exists>shape place order. mset order = mset [0..<length raws]
          \<and> r_bytes q = reordered_tools S shape place raws order)"

definition reprints_schema :: "serde \<Rightarrow> string \<Rightarrow> slice list \<Rightarrow> replacement \<Rightarrow> bool" where
  "reprints_schema S b raws q \<longleftrightarrow>
     (\<exists>raw \<in> set raws. s_addr raw < r_start q \<and> r_start q \<le> r_end q \<and> r_end q < s_end raw)
     \<and> (\<exists>schema. sd_value S (cut b q) = Some schema \<and> sd_to_vec S schema = Some (r_bytes q))"

definition adds_cache_control :: "slice list \<Rightarrow> replacement \<Rightarrow> bool" where
  "adds_cache_control raws q \<longleftrightarrow> raws \<noteq> [] \<and> r_start q = s_end (last raws) - 1 \<and> r_end q = r_start q
     \<and> r_bytes q \<in> {CACHE_CONTROL_FIELD, '','' @ CACHE_CONTROL_FIELD}"

definition tools_splice :: "serde \<Rightarrow> string \<Rightarrow> replacement \<Rightarrow> bool" where
  "tools_splice S b q \<longleftrightarrow>
     (\<exists>segment v tools raws. part_of (whole b) segment \<and> sd_tools_array_view S segment = Some v
        \<and> tv_tools v = Some tools \<and> sd_raw_values S tools = Some raws
        \<and> s_addr tools \<le> r_start q \<and> r_end q \<le> s_end tools
        \<and> (reorders_tools S tools raws q \<or> reprints_schema S b raws q \<or> adds_cache_control raws q))"

text \<open>The retrieve tool: an insertion of the shape's tool, printed, in an array or as one.\<close>

definition retrieve_splice :: "serde \<Rightarrow> api_shape \<Rightarrow> replacement \<Rightarrow> bool" where
  "retrieve_splice S shape q \<longleftrightarrow> r_end q = r_start q
     \<and> (\<exists>printed. sd_to_vec S (fst (retrieve_tool_for shape)) = Some printed
          \<and> r_bytes q \<in> {printed, '','' @ printed, TOOLS_FIELD @ printed @ '']'',
                         '','' @ TOOLS_FIELD @ printed @ '']''})"

text \<open>
  The cache key: the key derived from the body's own value, inserted as a field when the body
  has none, or in place of the value of a field that holds no string or an empty one.
\<close>

definition cache_key_splice :: "serde \<Rightarrow> (string \<Rightarrow> string) \<Rightarrow> api_shape \<Rightarrow> string \<Rightarrow> replacement \<Rightarrow> bool" where
  "cache_key_splice S sha256 shape b q \<longleftrightarrow>
     (\<exists>v. sd_value S b = Some v \<and> get_str ''prompt_cache_key'' v \<in> {None, Some []}
        \<and> (let token = [quote] @ derive_openai_prompt_cache_key S sha256 v shape @ [quote] in
             (if json_get ''prompt_cache_key'' v = None
              then r_end q = r_start q
                \<and> r_bytes q \<in> {PROMPT_CACHE_KEY_FIELD @ token, '','' @ PROMPT_CACHE_KEY_FIELD @ token}
              else r_bytes q = token
                \<and> (\<exists>view raw. sd_prompt_cache_key_view S (whole b) = Some view
                     \<and> pk_prompt_cache_key view = Some raw \<and> cut b q = s_text raw))))"

lemma schema_spliceE:
  assumes "q \<in> set (schema_splice S segment base shape raw)"
  obtains v schema canonical offset where "sd_tool_schema_view S raw = Some v" "schema_of shape v = Some schema"
    "Option.bind (sd_value S (s_text schema)) (sd_to_vec S) = Some canonical" "offset_of segment schema = Some offset"
    "q = \<lparr>r_start = base + offset, r_end = base + offset + length (s_text schema), r_bytes = canonical\<rparr>"
proof -
  obtain v where v: "sd_tool_schema_view S raw = Some v"
    using assms by (cases "sd_tool_schema_view S raw") (simp_all add: schema_splice_def)
  then obtain schema where schema: "schema_of shape v = Some schema"
    using assms by (cases "schema_of shape v") (simp_all add: schema_splice_def)
  obtain canonical where canonical: "Option.bind (sd_value S (s_text schema)) (sd_to_vec S) = Some canonical"
    using assms v schema
    by (cases "Option.bind (sd_value S (s_text schema)) (sd_to_vec S)") (simp_all add: schema_splice_def)
  obtain offset where "offset_of segment schema = Some offset"
    using assms v schema canonical
    by (cases "offset_of segment schema") (simp_all add: schema_splice_def split: if_splits)
  with assms v schema canonical show thesis
    by (intro that[of v schema canonical offset]) (simp_all add: schema_splice_def split: if_splits)
qed

lemma schema_splice_reprints:
  assumes "borrows_ok S" "part_of (whole b) raw" "raw \<in> set raws"
    and "q \<in> set (schema_splice S segment (s_addr segment) shape raw)"
  shows "reprints_schema S b raws q"
  using assms(4)
proof (cases rule: schema_spliceE)
  case (1 v schema canonical offset)
  have "part_of (whole b) schema"
    by (rule part_of_trans[OF assms(2) inside_part[OF schema_of_inside[OF assms(1) 1(1,2)]]])
  moreover have "s_addr segment + offset = s_addr schema" using 1(4) by (auto simp: offset_of_Some)
  ultimately have "cut b q = s_text schema" by (simp add: 1(5) cut_def part_of_def)
  with 1(3) have "\<exists>schema. sd_value S (cut b q) = Some schema \<and> sd_to_vec S schema = Some (r_bytes q)"
    by (simp add: 1(5) bind_eq_Some_conv)
  then show ?thesis
    using schema_splice_inside[OF assms(1,4)] assms(3) unfolding reprints_schema_def by blast
qed

lemma cache_control_splice_adds:
  assumes "q \<in> set (cache_control_splice segment (s_addr segment) raws)"
  shows "adds_cache_control raws q"
proof -
  have "r_bytes q \<in> {CACHE_CONTROL_FIELD, '','' @ CACHE_CONTROL_FIELD}"
    using assms by (auto simp: cache_control_splice_def insertion_def Let_def split: option.splits if_splits)
  then show ?thesis using cache_control_splice_at[OF assms] by (simp add: adds_cache_control_def)
qed

lemma normalizationE:
  assumes "q \<in> set (plan_tools_normalization S md5 segment base v shape)"
  obtains view tools raws offset ts where "sd_tools_array_view S segment = Some view" "tv_tools view = Some tools"
    "sd_raw_values S tools = Some raws" "offset_of segment tools = Some offset" "length raws = length ts"
    "(\<exists>place. q = \<lparr>r_start = base + offset, r_end = base + offset + length (s_text tools),
        r_bytes = reordered_tools S shape place raws (tool_order S md5 ts)\<rparr>)
     \<or> (\<exists>raw \<in> set raws. q \<in> set (schema_splice S segment base shape raw))
     \<or> q \<in> set (cache_control_splice segment base raws)"
proof -
  obtain ts where ts: "get_array ''tools'' v = Some ts" "ts \<noteq> []"
    using assms by (cases "get_array ''tools'' v") (auto simp: plan_tools_normalization_def split: if_splits)
  then obtain tools where tools: "Option.bind (sd_tools_array_view S segment) tv_tools = Some tools"
    using assms by (cases "Option.bind (sd_tools_array_view S segment) tv_tools")
      (auto simp: plan_tools_normalization_def)
  then obtain view where view: "sd_tools_array_view S segment = Some view" "tv_tools view = Some tools"
    by (auto simp: bind_eq_Some_conv)
  obtain offset where offset: "offset_of segment tools = Some offset"
    using assms ts tools by (cases "offset_of segment tools") (auto simp: plan_tools_normalization_def)
  obtain raws where raws: "sd_raw_values S tools = Some raws"
    using assms ts tools offset by (cases "sd_raw_values S tools") (auto simp: plan_tools_normalization_def)
  have "length raws = length ts"
    using assms ts tools offset raws by (auto simp: plan_tools_normalization_def split: if_splits)
  then show thesis
    using assms ts tools offset raws
    by (intro that[OF view raws offset]) (auto simp: plan_tools_normalization_def Let_def split: if_splits)
qed

lemma tool_order_permutes: "mset (tool_order S md5 ts) = mset [0..<length ts]"
  unfolding tool_order_def Let_def mset_sort ..

lemma normalization_splices:
  assumes "borrows_ok S" "part_of (whole b) segment"
    and "q \<in> set (plan_tools_normalization S md5 segment (s_addr segment) v shape)"
  shows "tools_splice S b q"
  using assms(3)
proof (cases rule: normalizationE)
  case (1 view tools raws offset ts)
  note ins = tools_array_view_ok[OF assms(1) 1(1,2)]
  note els = raw_values_ok[OF assms(1) 1(3)]
  have addr: "s_addr segment + offset = s_addr tools" using 1(4) by (auto simp: offset_of_Some)
  have raw: "part_of (whole b) raw" if "raw \<in> set raws" for raw
    by (rule part_of_trans[OF assms(2) part_of_trans[OF inside_part[OF ins] inside_part[OF elements_inside[OF els that]]]])
  have bounds: "s_addr tools < s_addr raw \<and> s_end raw < s_end tools" if "raw \<in> set raws" for raw
    by (rule inside_bounds[OF elements_inside[OF els that]])
  have "(s_addr tools \<le> r_start q \<and> r_end q \<le> s_end tools)
      \<and> (reorders_tools S tools raws q \<or> reprints_schema S b raws q \<or> adds_cache_control raws q)"
    using 1(6)
  proof (elim disjE bexE exE)
    fix place
    assume q: "q = \<lparr>r_start = s_addr segment + offset, r_end = s_addr segment + offset + length (s_text tools),
      r_bytes = reordered_tools S shape place raws (tool_order S md5 ts)\<rparr>"
    then have "reorders_tools S tools raws q"
      using tool_order_permutes[of S md5 ts] 1(5) addr
      by (auto simp: reorders_tools_def s_end_def)
    then show ?thesis by (simp add: reorders_tools_def)
  next
    fix rw assume rw: "rw \<in> set raws" "q \<in> set (schema_splice S segment (s_addr segment) shape rw)"
    show ?thesis
      using schema_splice_reprints[OF assms(1) raw[OF rw(1)] rw] schema_splice_inside[OF assms(1) rw(2)]
        bounds[OF rw(1)] by linarith
  next
    assume q: "q \<in> set (cache_control_splice segment (s_addr segment) raws)"
    show ?thesis
      using cache_control_splice_adds[OF q] cache_control_splice_at[OF q] bounds[of "last raws"]
      by (auto dest: last_in_set)
  qed
  with 1(1-3) assms(2) show ?thesis unfolding tools_splice_def by blast
qed

lemma metadata_splices:
  assumes "borrows_ok S"
    and "q \<in> set (plan_provider_metadata_splices S md5 (whole b) parsed shape)"
  shows "tools_splice S b q"
proof (cases shape)
  case AnthropicMessageBatches
  then obtain requests where requests: "Option.bind (sd_batch_view S (whole b)) bv_requests = Some requests"
    using assms(2) by (cases "Option.bind (sd_batch_view S (whole b)) bv_requests")
      (auto simp: plan_provider_metadata_splices_def)
  then have els: "elements_ok (whole b) requests"
    by (auto simp: bind_eq_Some_conv intro: batch_view_ok[OF assms(1)])
  obtain x where "x \<in> set (enumerate 0 requests)" and q: "q \<in> set (plan_batch_metadata S md5 (whole b) parsed x)"
    using assms(2) AnthropicMessageBatches requests by (auto simp: plan_provider_metadata_splices_def)
  moreover obtain i request where x: "x = (i, request)" by (cases x)
  ultimately have request: "request \<in> set requests" by (auto simp: in_set_enumerate_eq)
  obtain params offset pv where params: "batch_params S (whole b) request = Some (params, offset)"
    and q: "q \<in> set (plan_tools_normalization S md5 params offset pv ToolAnthropic)"
    using q unfolding x
    by (cases "batch_params S (whole b) request"; cases "batch_params_value parsed i")
      (auto simp: plan_batch_metadata_def)
  note p = batch_params_inside[OF assms(1) params]
  have "part_of (whole b) params"
    by (rule part_of_trans[OF inside_part[OF elements_inside[OF els request]] inside_part[OF p(1)]])
  from normalization_splices[OF assms(1) this] q p(2) show ?thesis by simp
qed (use assms normalization_splices[OF assms(1), of b "whole b"] in
  \<open>auto simp: plan_provider_metadata_splices_def\<close>)

lemma tool_append_splice:
  assumes "q \<in> set (snd (plan_tool_append S segment base v (fst (retrieve_tool_for shape)) exists))"
  shows "retrieve_splice S shape q"
proof -
  obtain printed where p: "sd_to_vec S (fst (retrieve_tool_for shape)) = Some printed"
    using assms by (cases "sd_to_vec S (fst (retrieve_tool_for shape))") (auto simp: plan_tool_append_def)
  show ?thesis
  proof (cases "json_get ''tools'' v")
    case None
    then show ?thesis using assms p
      by (auto simp: plan_tool_append_def retrieve_splice_def Let_def insertion_def split: if_splits)
  next
    case (Some x)
    then show ?thesis using assms p
      by (cases x) (auto simp: plan_tool_append_def retrieve_splice_def Let_def insertion_def
          split: if_splits option.splits)
  qed
qed

lemma tool_append_single: "length (snd (plan_tool_append S segment base v tool exists)) \<le> 1"
  by (simp add: plan_tool_append_def Let_def split: option.split json.split)

lemma retrieve_splices:
  "q \<in> set (snd (plan_retrieve_tool_injection S body parsed shape)) \<Longrightarrow> retrieve_splice S shape q"
  using tool_append_splice by (auto simp: plan_retrieve_tool_injection_def split: prod.splits)

lemma batch_retrieve_splices:
  assumes "q \<in> set (snd (plan_batch_retrieve_tool_injection S body parsed idxs))"
  shows "retrieve_splice S AnthropicMessageBatches q \<and> idxs \<noteq> []"
proof -
  obtain requests i where "i \<in> set idxs" "q \<in> set (snd (plan_batch_append S body parsed requests i))"
    using assms by (auto simp: plan_batch_retrieve_tool_injection_def Let_def split: if_splits option.splits)
  then show ?thesis
    using tool_append_splice[of q S _ _ _ AnthropicMessageBatches]
    by (auto simp: plan_batch_append_def retrieve_tool_for_def split: if_splits option.splits)
qed

lemma cache_key_splices:
  assumes "borrows_ok S" "sd_value S b = Some v"
    and "q \<in> set (snd (plan_prompt_cache_key_injection S sha256 (whole b) v shape))"
  shows "cache_key_splice S sha256 shape b q"
proof -
  let ?token = "[quote] @ derive_openai_prompt_cache_key S sha256 v shape @ [quote]"
  have none: "get_str ''prompt_cache_key'' v \<in> {None, Some []}"
    using assms(3) by (auto simp: plan_prompt_cache_key_injection_def split: if_splits option.splits)
  show ?thesis
  proof (cases "json_get ''prompt_cache_key'' v")
    case None
    then show ?thesis using assms none
      by (auto simp: plan_prompt_cache_key_injection_def cache_key_splice_def Let_def insertion_def split: if_splits)
  next
    case (Some old)
    obtain view raw where view: "sd_prompt_cache_key_view S (whole b) = Some view" "pk_prompt_cache_key view = Some raw"
      and q: "q = \<lparr>r_start = s_addr raw, r_end = s_addr raw + length (s_text raw), r_bytes = ?token\<rparr>"
      using assms(3) Some
      by (auto simp: plan_prompt_cache_key_injection_def Let_def offset_of_Some bind_eq_Some_conv
          split: if_splits option.splits)
    have "part_of (whole b) raw" by (rule inside_part[OF prompt_cache_key_view_ok[OF assms(1) view]])
    then have "cut b q = s_text raw" by (simp add: q cut_def part_of_def)
    with Some view none assms(2) q show ?thesis
      by (simp add: cache_key_splice_def Let_def)
  qed
qed

lemma cache_key_single: "length (snd (plan_prompt_cache_key_injection S sha256 body v shape)) \<le> 1"
  by (simp add: plan_prompt_cache_key_injection_def Let_def split: option.split)

section \<open>Properties\<close>

text \<open>
  Metadata splices fit. For every shape, the normalization splices are in ascending,
  non-overlapping order inside the body, so applying them cannot panic and keeps every byte
  outside them; so are the retrieve-tool and cache-key splices.
\<close>

theorem metadata_splices_fit:
  assumes "borrows_ok S" "sorted_wrt (<) idxs"
  shows "plan_ok (length body) (plan_provider_metadata_splices S md5 (whole body) parsed shape)
    \<and> plan_ok (length body) (snd (plan_retrieve_tool_injection S (whole body) parsed shape))
    \<and> plan_ok (length body) (snd (plan_batch_retrieve_tool_injection S (whole body) parsed idxs))
    \<and> plan_ok (length body) (snd (plan_prompt_cache_key_injection S sha256 (whole body) parsed shape))"
  using metadata_in[OF assms(1)] retrieve_in[OF assms(1)] batch_retrieve_in[OF assms] cache_key_in[OF assms(1)]
  by (intro conjI splices_plan_ok[OF _ part_of_refl]) blast+

theorem metadata_splices_fit_witness:
  "plan_ok (length ''{}'') (snd (plan_batch_retrieve_tool_injection demo_serde (whole ''{}'') JNull [0, 2]))"
  using metadata_splices_fit[OF borrows_ok_demo, of "[0, 2]" "''{}''"] by simp

text \<open>
  The retrieve tool is injected at most once: a body whose tools already hold it gets no
  splice and reports no injection, for every shape; and when the tool is injected into an
  array, the splice is the printed tool, after a comma unless the array was empty.
\<close>

theorem retrieve_tool_once:
  assumes "json_get ''tools'' parsed = Some (JArray tools)"
  shows "((\<exists>t \<in> set tools. snd (retrieve_tool_for shape) t) \<longrightarrow>
      plan_retrieve_tool_injection S body parsed shape = (False, []))
    \<and> (\<forall>rs. plan_retrieve_tool_injection S body parsed shape = (True, rs) \<longrightarrow>
      (\<exists>i printed. sd_to_vec S (fst (retrieve_tool_for shape)) = Some printed
        \<and> rs = [insertion i ((if tools = [] then [] else '','') @ printed)]))"
  using assms
  by (cases "retrieve_tool_for shape")
    (auto simp: plan_retrieve_tool_injection_def plan_tool_append_def Let_def
      split: option.splits if_splits)

theorem retrieve_tool_once_witness:
  "plan_retrieve_tool_injection demo_serde (whole ''{}'')
     (JObject [(''tools'', JArray [JObject [(''name'', JString ''mcp__headroom_retrieve'')]])]) AnthropicMessages
   = (False, [])"
proof -
  let ?tool = "JObject [(''name'', JString ''mcp__headroom_retrieve'')]"
  have "snd (retrieve_tool_for AnthropicMessages) ?tool"
    by (simp add: retrieve_tool_for_def is_retrieve_name_def get_str_def is_retrieve_tool_name_def ends_with_def)
  then show ?thesis
    using retrieve_tool_once[of "JObject [(''tools'', JArray [?tool])]" "[?tool]" AnthropicMessages
        demo_serde "whole ''{}''"] by simp
qed

text \<open>The tools each shape injects are recognised by its own test.\<close>

lemma injected_tool_recognised: "snd (retrieve_tool_for shape) (fst (retrieve_tool_for shape))"
  by (cases shape; hypsubst; code_simp)

text \<open>
  The prompt cache key. A non-empty key of the customer's is left alone; otherwise the
  key placed is a function of the model, the system value and the tools alone (two bodies
  that agree on them get one key) and has 32 lower-case hexadecimal digits.
\<close>

theorem prompt_cache_key_spec:
  assumes "digest_ok sha256"
  shows "(\<forall>k. get_str ''prompt_cache_key'' v = Some k \<and> k \<noteq> [] \<longrightarrow>
        plan_prompt_cache_key_injection S sha256 body v shape = (False, []))
    \<and> (get_str ''model'' v = get_str ''model'' v' \<and> openai_system_value v shape = openai_system_value v' shape
        \<and> json_get ''tools'' v = json_get ''tools'' v' \<longrightarrow>
        derive_openai_prompt_cache_key S sha256 v shape = derive_openai_prompt_cache_key S sha256 v' shape)
    \<and> length (derive_openai_prompt_cache_key S sha256 v shape) = 32
    \<and> (\<forall>c \<in> set (derive_openai_prompt_cache_key S sha256 v shape). is_lower_hexdigit c)"
  using assms
  by (auto simp: plan_prompt_cache_key_injection_def derive_openai_prompt_cache_key_def Let_def digest_ok_def
      dest: hex_string_lower)

theorem prompt_cache_key_spec_witness:
  "length (derive_openai_prompt_cache_key demo_serde const_digest JNull OpenAiResponses) = 32"
  using prompt_cache_key_spec[OF digest_ok_const, of JNull demo_serde "whole ''{}''" OpenAiResponses JNull] by blast

lemma insort_key_agree:
  "\<forall>y \<in> insert x (set ys). f y = g y \<Longrightarrow> insort_key f x ys = insort_key g x ys"
  by (induction ys) auto

lemma sort_key_agree: "\<forall>x \<in> set xs. f x = g x \<Longrightarrow> sort_key f xs = sort_key g xs"
proof (induction xs)
  case (Cons x xs)
  then show ?case using insort_key_agree[of x "sort_key g xs" f g] by simp
qed simp

text \<open>
  The tool order is the stable sort by key: it permutes the indices, puts the keys in
  ascending byte order and keeps equal keys in their order; an array already in that order
  is left as it is (the identity order), so normalization applied to its own result moves
  nothing.
\<close>

theorem tool_order_stable:
  "mset (tool_order S md5 tools) = mset [0..<length tools]
   \<and> sorted (map (\<lambda>i. tool_sort_key S md5 (tools ! i)) (tool_order S md5 tools))
   \<and> (\<forall>k. filter (\<lambda>i. tool_sort_key S md5 (tools ! i) = k) (tool_order S md5 tools)
          = filter (\<lambda>i. tool_sort_key S md5 (tools ! i) = k) [0..<length tools])
   \<and> tool_order S md5 (map ((!) tools) (tool_order S md5 tools)) = [0..<length tools]"
proof -
  let ?key = "\<lambda>i. tool_sort_key S md5 (tools ! i)"
  have order: "tool_order S md5 ts = sort_key (\<lambda>i. tool_sort_key S md5 (ts ! i)) [0..<length ts]" for ts
    unfolding tool_order_def Let_def by (rule sort_key_agree) simp
  have len: "length (tool_order S md5 tools) = length tools" by (simp add: order)
  have sorted: "sorted (map ?key (tool_order S md5 tools))" by (simp add: order)
  have range: "\<forall>i \<in> set (tool_order S md5 tools). i < length tools" by (simp add: order)
  let ?ts = "map ((!) tools) (tool_order S md5 tools)"
  have "map (\<lambda>i. tool_sort_key S md5 (?ts ! i)) [0..<length ?ts] = map ?key (tool_order S md5 tools)"
    by (rule nth_equalityI) (simp_all add: len)
  with sorted have "tool_order S md5 ?ts = [0..<length ?ts]"
    unfolding order[of ?ts] by (intro sort_key_id_if_sorted) simp
  moreover have "mset (tool_order S md5 tools) = mset [0..<length tools]"
    by (simp only: order mset_sort)
  moreover have "\<forall>k. filter (\<lambda>i. ?key i = k) (tool_order S md5 tools) = filter (\<lambda>i. ?key i = k) [0..<length tools]"
    unfolding order by (intro allI sort_key_stable)
  ultimately show ?thesis using sorted len by simp
qed

text \<open>
  One canonical form. The piece a reordered array takes for a tool is the tool with the
  in-place schema splice applied to it, so that canonicalization does not depend on whether
  the array moved.
\<close>

theorem canonical_piece_refines:
  "apply_replacements (s_text tool)
      (schema_splice S tool 0 shape tool) = Some (canonicalized_tool_piece S tool shape)"
proof (cases "schema_splice S tool 0 shape tool")
  case Nil
  then have "canonicalized_tool_piece S tool shape = s_text tool"
    by (auto simp: schema_splice_def canonicalized_tool_piece_def split: option.splits if_splits)
  with Nil show ?thesis by simp
next
  case (Cons r rs)
  then obtain v schema offset canonical where v: "sd_tool_schema_view S tool = Some v"
    "schema_of shape v = Some schema" "offset_of tool schema = Some offset"
    "Option.bind (sd_value S (s_text schema)) (sd_to_vec S) = Some canonical" "canonical \<noteq> s_text schema"
    by (auto simp: schema_splice_def split: option.splits if_splits)
  have "offset + length (s_text schema) \<le> length (s_text tool)"
    using v(3) by (auto simp: offset_of_Some s_end_def)
  with v show ?thesis
    by (simp add: schema_splice_def canonicalized_tool_piece_def apply_replacements_def slice_checked_def)
qed

text \<open>
  Whether a comma is needed is judged by \<open>interior_empty\<close>, which looks for the brace at the
  first byte: an empty object after white space gets the field after a comma.
\<close>

lemma leading_space_comma:
  "plan_prompt_cache_key_injection S sha256 (whole '' {}'') (JObject []) OpenAiChatCompletions
     = (True, rs) \<Longrightarrow>
   \<exists>rest. apply_replacements '' {}'' rs = Some ('' {,'' @ rest)"
  by (auto simp: plan_prompt_cache_key_injection_def get_str_def is_object_def Let_def trim_end_def
      drop_while_end_def is_whitespace_def byte_def utf8_width_def interior_empty_def strip_prefix_def
      starts_with_def ends_with_def insertion_def apply_replacements_def slice_checked_def
      split: if_splits)

lemma leading_space_injected:
  "fst (plan_prompt_cache_key_injection S sha256 (whole '' {}'') (JObject []) OpenAiChatCompletions)"
  by (simp add: plan_prompt_cache_key_injection_def get_str_def is_object_def Let_def trim_end_def
      drop_while_end_def is_whitespace_def byte_def utf8_width_def ends_with_def)

end
