(* ===== verification/Request.thy ===== *)
theory Request
  imports Metadata_Safety Live_Zone_Safety "HOL-Library.Sublist"
begin

text \<open>
  \<open>compress_json_request_ctx\<close> of \<open>src/compression.rs\<close>: the whole pipeline over one request
  body. Metadata splices, live-zone slots, retrieve tool, cache key, each planned on the
  bytes the stage before it left. The outer option is a panic.
\<close>

section \<open>Definitions\<close>

record request_compression =
  rc_body :: string
  rc_compressed :: bool
  rc_skipped_reason :: "string option"
  rc_hashes :: "string list"
  rc_bytes_before :: nat
  rc_bytes_after :: nat
  rc_tokens_before :: nat
  rc_tokens_after :: nat

definition rc_unchanged :: "string \<Rightarrow> string \<Rightarrow> string list \<Rightarrow> request_compression" where
  "rc_unchanged body reason hashes =
     \<lparr>rc_body = body, rc_compressed = False, rc_skipped_reason = Some reason, rc_hashes = hashes,
      rc_bytes_before = length body, rc_bytes_after = length body,
      rc_tokens_before = estimate_tokens_bytes body, rc_tokens_after = estimate_tokens_bytes body\<rparr>"

text \<open>The replacements, hashes and batch indices of the slots the gate admits, in order.\<close>

fun compress_slots ::
    "serde \<Rightarrow> (string \<Rightarrow> string) \<Rightarrow> 's ccr_store_ops \<Rightarrow> plan_slot list \<Rightarrow> 's world
       \<Rightarrow> ((replacement list \<times> string list \<times> nat list) \<times> 's world) option" where
  "compress_slots S sha256 ops [] w = Some (([], [], []), w)"
| "compress_slots S sha256 ops (slot # slots) w =
     (case compress_slot S sha256 ops slot w of
        None \<Rightarrow> None
      | Some (replaced, w) \<Rightarrow>
          (case compress_slots S sha256 ops slots w of
             None \<Rightarrow> None
           | Some ((rs, hashes, indices), w) \<Rightarrow>
               Some (case replaced of
                       None \<Rightarrow> (rs, hashes, indices)
                     | Some (r, hash) \<Rightarrow>
                         (r # rs, hash # hashes,
                          (case ps_batch_request_index slot of Some i \<Rightarrow> i # indices | None \<Rightarrow> indices)),
                     w)))"

text \<open>An empty plan leaves the buffer as it is.\<close>

definition apply_plan :: "string \<Rightarrow> replacement list \<Rightarrow> string option" where
  "apply_plan body rs = (if rs = [] then Some body else apply_replacements body rs)"

definition metadata_plan ::
    "serde \<Rightarrow> (string \<Rightarrow> string) \<Rightarrow> compress_context \<Rightarrow> string \<Rightarrow> json \<Rightarrow> api_shape \<Rightarrow> replacement list" where
  "metadata_plan S md5 ctx body parsed shape =
     (if cc_provider_metadata ctx \<and> cc_auth_mode ctx = Payg \<and> utf8_valid body
      then plan_provider_metadata_splices S md5 (whole body) parsed shape else [])"

definition retrieve_plan ::
    "serde \<Rightarrow> api_shape \<Rightarrow> string \<Rightarrow> nat \<Rightarrow> bool \<Rightarrow> nat list \<Rightarrow> bool \<times> replacement list" where
  "retrieve_plan S shape spliced compressed_blocks marker_was_present indices =
     (if \<not> utf8_valid spliced then (False, [])
      else (case sd_value S spliced of
        None \<Rightarrow> (False, [])
      | Some spliced_value \<Rightarrow>
          if shape = AnthropicMessageBatches then
            plan_batch_retrieve_tool_injection S (whole spliced) spliced_value (sort (remdups indices))
          else if compressed_blocks > 0 \<or> marker_was_present then
            plan_retrieve_tool_injection S (whole spliced) spliced_value shape
          else (False, [])))"

definition cache_key_plan ::
    "serde \<Rightarrow> (string \<Rightarrow> string) \<Rightarrow> compress_context \<Rightarrow> api_shape \<Rightarrow> string \<Rightarrow> bool \<times> replacement list" where
  "cache_key_plan S sha256 ctx shape injected =
     (if cc_provider_metadata ctx \<and> cc_auth_mode ctx = Payg
         \<and> (shape = OpenAiChatCompletions \<or> shape = OpenAiResponses) \<and> utf8_valid injected
      then (case sd_value S injected of
              None \<Rightarrow> (False, [])
            | Some injected_value \<Rightarrow>
                plan_prompt_cache_key_injection S sha256 (whole injected) injected_value shape)
      else (False, []))"

definition compress_current ::
    "serde \<Rightarrow> (string \<Rightarrow> string) \<Rightarrow> 's ccr_store_ops \<Rightarrow> string \<Rightarrow> api_shape \<Rightarrow> compress_context
       \<Rightarrow> bool \<Rightarrow> bool \<Rightarrow> string \<Rightarrow> json \<Rightarrow> 's world \<Rightarrow> (request_compression \<times> 's world) option" where
  "compress_current S sha256 ops body shape ctx marker_was_present metadata_mutated current working w =
     (let (plan_reason, slots) = plan_live_zone S (whole current) working ctx shape in
      case compress_slots S sha256 ops slots w of
        None \<Rightarrow> None
      | Some ((replacements, hashes, indices), w) \<Rightarrow>
          let compressed_blocks = length replacements in
          (case apply_plan current replacements of
             None \<Rightarrow> None
           | Some spliced \<Rightarrow>
               let (retrieve_tool_injected, retrieve_splices) =
                     retrieve_plan S shape spliced compressed_blocks marker_was_present indices in
               (case apply_plan spliced retrieve_splices of
                  None \<Rightarrow> None
                | Some injected \<Rightarrow>
                    let (prompt_cache_key_injected, pck_splices) =
                          cache_key_plan S sha256 ctx shape injected in
                    (case apply_plan injected pck_splices of
                       None \<Rightarrow> None
                     | Some final_body \<Rightarrow>
                         if compressed_blocks = 0 \<and> \<not> metadata_mutated
                            \<and> \<not> retrieve_tool_injected \<and> \<not> prompt_cache_key_injected
                         then Some (rc_unchanged body (unwrap_or ''no_live_zone_text'' plan_reason) hashes, w)
                         else
                           Some (\<lparr>rc_body = final_body, rc_compressed = (compressed_blocks > 0),
                             rc_skipped_reason =
                               (if compressed_blocks = 0 then Some ''metadata_injected_only'' else None),
                             rc_hashes = hashes,
                             rc_bytes_before = length body, rc_bytes_after = length final_body,
                             rc_tokens_before = estimate_tokens_bytes body,
                             rc_tokens_after = estimate_tokens_bytes final_body\<rparr>, w)))))"

definition multi_choice :: "json \<Rightarrow> bool" where
  "multi_choice parsed = (case get_u64 ''n'' parsed of Some n \<Rightarrow> n > 1 | None \<Rightarrow> False)"

definition compress_json_request_ctx ::
    "serde \<Rightarrow> (string \<Rightarrow> string) \<Rightarrow> (string \<Rightarrow> string) \<Rightarrow> 's ccr_store_ops \<Rightarrow> string \<Rightarrow> api_shape
       \<Rightarrow> compress_context \<Rightarrow> 's world \<Rightarrow> (request_compression \<times> 's world) option" where
  "compress_json_request_ctx S sha256 md5 ops body shape ctx w =
     (case sd_value S body of
        None \<Rightarrow> Some (rc_unchanged body ''invalid_json'' [], w)
      | Some parsed \<Rightarrow>
          if \<not> utf8_valid body then Some (rc_unchanged body ''invalid_json'' [], w)
          else if shape = OpenAiChatCompletions \<and> multi_choice parsed
          then Some (rc_unchanged body ''multi_choice_n'' [], w)
          else
            let marker_was_present = value_contains_ccr_marker parsed;
                metadata_splices = metadata_plan S md5 ctx body parsed shape;
                metadata_mutated = (metadata_splices \<noteq> [])
            in (case apply_plan body metadata_splices of
                  None \<Rightarrow> None
                | Some current \<Rightarrow>
                    (case (if metadata_mutated then sd_value S current else Some parsed) of
                       None \<Rightarrow> Some (rc_unchanged body ''invalid_json'' [], w)
                     | Some working \<Rightarrow>
                         if \<not> utf8_valid current then Some (rc_unchanged body ''invalid_json'' [], w)
                         else compress_current S sha256 ops body shape ctx marker_was_present
                                metadata_mutated current working w)))"

definition compress_json_request_with_auth ::
    "serde \<Rightarrow> (string \<Rightarrow> string) \<Rightarrow> (string \<Rightarrow> string) \<Rightarrow> 's ccr_store_ops \<Rightarrow> string \<Rightarrow> api_shape
       \<Rightarrow> request_auth_mode \<Rightarrow> 's world \<Rightarrow> (request_compression \<times> 's world) option" where
  "compress_json_request_with_auth S sha256 md5 ops body shape auth_mode =
     compress_json_request_ctx S sha256 md5 ops body shape (compress_context_new auth_mode)"

definition compress_json_request ::
    "serde \<Rightarrow> (string \<Rightarrow> string) \<Rightarrow> (string \<Rightarrow> string) \<Rightarrow> 's ccr_store_ops \<Rightarrow> string \<Rightarrow> api_shape
       \<Rightarrow> 's world \<Rightarrow> (request_compression \<times> 's world) option" where
  "compress_json_request S sha256 md5 ops body shape =
     compress_json_request_with_auth S sha256 md5 ops body shape Payg"

section \<open>The slots the gate admits\<close>

text \<open>Printing a string never fails.\<close>

definition strings_print :: "serde \<Rightarrow> bool" where
  "strings_print S \<longleftrightarrow> (\<forall>t. sd_to_vec S (JString t) \<noteq> None)"

lemma compress_slot_total:
  "strings_print S \<Longrightarrow> compress_slot S sha256 ops slot w \<noteq> None"
proof -
  assume "strings_print S"
  then obtain printed where
    "sd_to_vec S (JString (marker_for_hash (content_hash sha256 (ps_text slot)))) = Some printed"
    by (auto simp: strings_print_def)
  then show ?thesis
    by (auto simp: compress_slot_def Let_def split: prod.splits sum.splits)
qed

lemma compress_slots_total:
  "strings_print S \<Longrightarrow> compress_slots S sha256 ops slots w \<noteq> None"
proof (induction slots arbitrary: w)
  case (Cons slot slots)
  obtain res w1 where "compress_slot S sha256 ops slot w = Some (res, w1)"
    using compress_slot_total[OF Cons.prems, of sha256 ops slot w] by auto
  then show ?case using Cons by (auto split: option.splits)
qed simp

lemma compress_slot_span:
  "compress_slot S sha256 ops slot w = Some (Some (r, hash), w') \<Longrightarrow>
     r_start r = slot_lo slot \<and> r_end r = slot_hi slot \<and> hash = content_hash sha256 (ps_text slot)
     \<and> sd_to_vec S (JString (marker_for_hash hash)) = Some (r_bytes r)"
  by (auto simp: compress_slot_def Let_def slot_lo_def slot_hi_def
      split: if_splits prod.splits sum.splits option.splits)

text \<open>Each replacement stands at a slot of the plan, in the plan's order.\<close>

lemma compress_slots_subseq:
  assumes "compress_slots S sha256 ops slots w = Some ((rs, hashes, indices), w')"
  shows "\<exists>taken. subseq taken slots \<and> map slot_hole taken = map (\<lambda>r. r\<lparr>r_bytes := []\<rparr>) rs
    \<and> hashes = map (content_hash sha256 \<circ> ps_text) taken
    \<and> map Some (map r_bytes rs) = map (\<lambda>h. sd_to_vec S (JString (marker_for_hash h))) hashes"
  using assms
proof (induction slots arbitrary: w w' rs hashes indices)
  case Nil
  then show ?case by auto
next
  case (Cons slot slots)
  obtain res w1 where first: "compress_slot S sha256 ops slot w = Some (res, w1)"
    using Cons.prems by (cases "compress_slot S sha256 ops slot w") auto
  obtain rs0 hs0 is0 w2 where rest: "compress_slots S sha256 ops slots w1 = Some ((rs0, hs0, is0), w2)"
    using Cons.prems first by (cases "compress_slots S sha256 ops slots w1") auto
  obtain taken where taken: "subseq taken slots" "map slot_hole taken = map (\<lambda>r. r\<lparr>r_bytes := []\<rparr>) rs0"
    "hs0 = map (content_hash sha256 \<circ> ps_text) taken"
    "map Some (map r_bytes rs0) = map (\<lambda>h. sd_to_vec S (JString (marker_for_hash h))) hs0"
    using Cons.IH[OF rest] by blast
  show ?case
  proof (cases res)
    case None
    then show ?thesis using Cons.prems first rest taken by auto
  next
    case (Some rh)
    obtain r h where rh: "rh = (r, h)" by (cases rh)
    have eqs: "rs = r # rs0" "hashes = h # hs0" using Cons.prems first rest Some rh by auto
    note span = compress_slot_span[OF first[unfolded Some rh]]
    have "slot_hole slot = r\<lparr>r_bytes := []\<rparr>" using span by (cases r) (simp add: slot_hole_def)
    then show ?thesis using taken eqs span
      by (intro exI[of _ "slot # taken"]) auto
  qed
qed

lemma plan_ok_spans:
  assumes "map (\<lambda>r. r\<lparr>r_bytes := []\<rparr>) rs = map (\<lambda>r. r\<lparr>r_bytes := []\<rparr>) rs'" "plan_ok n rs"
  shows "plan_ok n rs'"
proof -
  have len: "length rs = length rs'" using assms(1) by (metis length_map)
  have nth: "r_start (rs ! i) = r_start (rs' ! i) \<and> r_end (rs ! i) = r_end (rs' ! i)" if "i < length rs" for i
  proof -
    have "(rs ! i)\<lparr>r_bytes := []\<rparr> = (rs' ! i)\<lparr>r_bytes := []\<rparr>"
      using that len assms(1) by (metis nth_map)
    then show ?thesis by (cases "rs ! i"; cases "rs' ! i") simp
  qed
  then show ?thesis
    using assms(2) len
    by (auto simp: plan_ok_def sorted_wrt_iff_nth_less compatible_def all_set_conv_all_nth)
qed

lemma plan_ok_Nil [simp]: "plan_ok n []"
  by (simp add: plan_ok_def)

lemma plan_ok_Cons:
  "plan_ok n (r # rs) \<longleftrightarrow> plan_ok n rs \<and> (\<forall>s \<in> set rs. compatible r s) \<and> r_start r \<le> r_end r \<and> r_end r \<le> n"
  by (auto simp: plan_ok_def)

lemma subseq_subset: "subseq xs ys \<Longrightarrow> set xs \<subseteq> set ys"
  by (auto elim: list_emb_set)

lemma plan_ok_subseq: "subseq rs' rs \<Longrightarrow> plan_ok n rs \<Longrightarrow> plan_ok n rs'"
proof (induction rs arbitrary: rs')
  case (Cons r rs)
  show ?case
  proof (cases rs')
    case inner: (Cons q qs)
    show ?thesis
    proof (cases "q = r")
      case True
      then have "subseq qs rs" using Cons.prems(1) inner by simp
      with Cons.IH[of qs] Cons.prems(2) subseq_subset[of qs rs] show ?thesis
        unfolding inner True plan_ok_Cons by blast
    next
      case False
      then have "subseq rs' rs" using Cons.prems(1) inner by simp
      with Cons.IH[of rs'] Cons.prems(2) show ?thesis by (simp add: plan_ok_Cons)
    qed
  qed simp
qed (auto dest: list_emb_Nil2)

lemma compress_slots_plan_ok:
  assumes "slots_plan_ok body slots"
    and "compress_slots S sha256 ops slots w = Some ((rs, hashes, indices), w')"
  shows "plan_ok (length body) rs"
proof -
  obtain taken where "subseq taken slots" "map slot_hole taken = map (\<lambda>r. r\<lparr>r_bytes := []\<rparr>) rs"
    using compress_slots_subseq[OF assms(2)] by blast
  then have "plan_ok (length body) (map (\<lambda>r. r\<lparr>r_bytes := []\<rparr>) rs)"
    using assms(1) unfolding slots_plan_ok_def by (metis plan_ok_subseq subseq_map)
  then show ?thesis by (rule plan_ok_spans[rotated]) simp
qed

section \<open>The stages of a request\<close>

lemma apply_plan_ok: "plan_ok (length body) rs \<Longrightarrow> apply_plan body rs \<noteq> None"
  using apply_replacements_interleave by (auto simp: apply_plan_def)

lemma apply_plan_apply: "apply_plan body rs = apply_replacements body rs"
  by (simp add: apply_plan_def)

lemma metadata_plan_fits:
  "borrows_ok S \<Longrightarrow> plan_ok (length body) (metadata_plan S md5 ctx body parsed shape)"
  using metadata_in splices_plan_ok[OF _ part_of_refl]
  by (auto simp: metadata_plan_def)

lemma retrieve_plan_fits:
  "borrows_ok S \<Longrightarrow> plan_ok (length body) (snd (retrieve_plan S shape body n m indices))"
  using retrieve_in batch_retrieve_in[of S "sort (remdups indices)"] splices_plan_ok[OF _ part_of_refl]
  by (auto simp: retrieve_plan_def strict_sorted_iff split: option.splits)

lemma cache_key_plan_fits:
  "borrows_ok S \<Longrightarrow> plan_ok (length body) (snd (cache_key_plan S sha256 ctx shape body))"
  using cache_key_in splices_plan_ok[OF _ part_of_refl]
  by (auto simp: cache_key_plan_def split: option.splits)

text \<open>A marker replacement: a string token of \<open>b\<close> gives way to the marker of its text.\<close>

definition marker_splice :: "serde \<Rightarrow> (string \<Rightarrow> string) \<Rightarrow> string \<Rightarrow> string list \<Rightarrow> replacement \<Rightarrow> bool" where
  "marker_splice S sha256 b hashes q \<longleftrightarrow>
     starts_with [quote] (cut b q)
     \<and> (\<exists>t. sd_string S (cut b q) = Some t \<and> content_hash sha256 t \<in> set hashes
          \<and> sd_to_vec S (JString (marker_for_hash (content_hash sha256 t))) = Some (r_bytes q))"

lemma compress_slots_markers:
  assumes "slots_fit S b slots"
    and "compress_slots S sha256 ops slots w = Some ((rs, hashes, indices), w')"
  shows "\<forall>q \<in> set rs. marker_splice S sha256 b hashes q"
proof
  fix q assume "q \<in> set rs"
  obtain taken where taken: "subseq taken slots" "map slot_hole taken = map (\<lambda>r. r\<lparr>r_bytes := []\<rparr>) rs"
    "hashes = map (content_hash sha256 \<circ> ps_text) taken"
    "map Some (map r_bytes rs) = map (\<lambda>h. sd_to_vec S (JString (marker_for_hash h))) hashes"
    using compress_slots_subseq[OF assms(2)] by blast
  obtain i where i: "i < length rs" "q = rs ! i" using \<open>q \<in> set rs\<close> by (auto simp: in_set_conv_nth)
  have len: "length taken = length rs" using taken(2) by (metis length_map)
  have hole: "slot_hole (taken ! i) = q\<lparr>r_bytes := []\<rparr>"
    using taken(2) i len by (metis nth_map)
  have printed: "sd_to_vec S (JString (marker_for_hash (content_hash sha256 (ps_text (taken ! i))))) = Some (r_bytes q)"
    using arg_cong[OF taken(4), of "\<lambda>xs. xs ! i"] taken(3) i len by simp
  have "taken ! i \<in> set slots" using subseq_subset[OF taken(1)] i len by auto
  then have ok: "slot_ok S b (taken ! i)" using assms(1) by (simp add: slots_fit_def)
  have "r_start q = slot_lo (taken ! i)" "r_end q = slot_hi (taken ! i)"
    using hole by (cases q; simp add: slot_hole_def)+
  then have "starts_with [quote] (cut b q) \<and> sd_string S (cut b q) = Some (ps_text (taken ! i))"
    using ok by (simp add: slot_ok_def cut_def Let_def)
  moreover have "content_hash sha256 (ps_text (taken ! i)) \<in> set hashes"
    using taken(3) i len by simp
  ultimately show "marker_splice S sha256 b hashes q"
    using printed unfolding marker_splice_def by blast
qed

lemma compress_slots_indices:
  "compress_slots S sha256 ops slots w = Some ((rs, hashes, indices), w') \<Longrightarrow> length indices \<le> length rs"
proof (induction slots arbitrary: w w' rs hashes indices)
  case (Cons slot slots)
  obtain res w1 where first: "compress_slot S sha256 ops slot w = Some (res, w1)"
    using Cons.prems by (cases "compress_slot S sha256 ops slot w") auto
  obtain rs0 hs0 is0 w2 where rest: "compress_slots S sha256 ops slots w1 = Some ((rs0, hs0, is0), w2)"
    using Cons.prems first by (cases "compress_slots S sha256 ops slots w1") auto
  from Cons.IH[OF rest] Cons.prems first rest show ?case by (cases res) (auto split: option.splits)
qed simp

text \<open>The later plans insert the retrieve tool, and write the cache key, and nothing else.\<close>

lemma retrieve_plan_splices:
  "(\<forall>q \<in> set (snd (retrieve_plan S shape b n marker indices)). retrieve_splice S shape q)
   \<and> (snd (retrieve_plan S shape b n marker indices) = [] \<or> indices \<noteq> [] \<or> n > 0 \<or> marker)
   \<and> (shape = AnthropicMessageBatches \<or> length (snd (retrieve_plan S shape b n marker indices)) \<le> 1)"
proof (cases "sd_value S b")
  case (Some v)
  have batch: "snd (plan_batch_retrieve_tool_injection S (whole b) v []) = []"
    by (simp add: plan_batch_retrieve_tool_injection_def)
  have single: "length (snd (plan_retrieve_tool_injection S (whole b) v shape)) \<le> 1"
    using tool_append_single by (simp add: plan_retrieve_tool_injection_def split: prod.split)
  show ?thesis
    using Some batch single retrieve_splices batch_retrieve_splices
    by (auto simp: retrieve_plan_def)
qed (simp add: retrieve_plan_def)

lemma cache_key_plan_splices:
  assumes "borrows_ok S"
  shows "(\<forall>q \<in> set (snd (cache_key_plan S sha256 ctx shape b)). cache_key_splice S sha256 shape b q)
    \<and> length (snd (cache_key_plan S sha256 ctx shape b)) \<le> 1"
  using cache_key_splices[OF assms] cache_key_single
  by (auto simp: cache_key_plan_def split: option.split)

lemma metadata_plan_splices:
  "borrows_ok S \<Longrightarrow> q \<in> set (metadata_plan S md5 ctx b parsed shape) \<Longrightarrow> tools_splice S b q"
  using metadata_splices by (auto simp: metadata_plan_def split: if_splits)

text \<open>What a run of the later stages did: three splices of the bytes it started from.\<close>

lemma compress_current_stages:
  assumes "borrows_ok S"
    and "compress_current S sha256 ops body shape ctx marker mutated current working w = Some (r, w')"
  obtains rs2 hashes b2 rs3 b3 rs4 where
    "plan_ok (length current) rs2" "apply_replacements current rs2 = Some b2"
    "plan_ok (length b2) rs3" "apply_replacements b2 rs3 = Some b3"
    "plan_ok (length b3) rs4"
    "\<forall>q \<in> set rs2. marker_splice S sha256 current hashes q" "rc_hashes r = hashes"
    "rs4 = [] \<or> cc_provider_metadata ctx \<and> cc_auth_mode ctx = Payg"
    "length rs2 = length hashes"
    "\<forall>q \<in> set rs3. retrieve_splice S shape q" "rs3 = [] \<or> rs2 \<noteq> [] \<or> marker"
    "shape = AnthropicMessageBatches \<or> length rs3 \<le> 1"
    "\<forall>q \<in> set rs4. cache_key_splice S sha256 shape b3 q" "length rs4 \<le> 1"
    "(\<exists>reason. r = rc_unchanged body reason hashes \<and> rs2 = [] \<and> \<not> mutated)
     \<or> (apply_replacements b3 rs4 = Some (rc_body r)
        \<and> rc_compressed r = (rs2 \<noteq> [])
        \<and> rc_skipped_reason r = (if rs2 = [] then Some ''metadata_injected_only'' else None)
        \<and> rc_bytes_before r = length body \<and> rc_bytes_after r = length (rc_body r))"
proof -
  obtain reason slots where plan: "plan_live_zone S (whole current) working ctx shape = (reason, slots)"
    by fastforce
  then have fit: "slots_fit S current slots"
    using live_zone_fit[OF assms(1), of current working ctx shape] by simp
  obtain rs2 hashes indices w1 where slots: "compress_slots S sha256 ops slots w = Some ((rs2, hashes, indices), w1)"
    using assms(2) plan by (cases "compress_slots S sha256 ops slots w") (auto simp: compress_current_def)
  have ok2: "plan_ok (length current) rs2"
    using compress_slots_plan_ok[OF _ slots] fit by (simp add: slots_fit_def)
  then obtain b2 where b2: "apply_plan current rs2 = Some b2" using apply_plan_ok by blast
  obtain inj rs3 where retr: "retrieve_plan S shape b2 (length rs2) marker indices = (inj, rs3)" by fastforce
  then have ok3: "plan_ok (length b2) rs3" using retrieve_plan_fits[OF assms(1)] by (metis snd_conv)
  then obtain b3 where b3: "apply_plan b2 rs3 = Some b3" using apply_plan_ok by blast
  obtain key rs4 where keyp: "cache_key_plan S sha256 ctx shape b3 = (key, rs4)" by fastforce
  then have ok4: "plan_ok (length b3) rs4" using cache_key_plan_fits[OF assms(1)] by (metis snd_conv)
  then obtain b4 where b4: "apply_plan b3 rs4 = Some b4" using apply_plan_ok by blast
  have len: "length rs2 = length hashes"
    using compress_slots_subseq[OF slots] by (metis length_map)
  have rs4: "rs4 = [] \<or> cc_provider_metadata ctx \<and> cc_auth_mode ctx = Payg"
    using keyp by (auto simp: cache_key_plan_def split: if_splits)
  have few: "indices = [] \<or> rs2 \<noteq> []" using compress_slots_indices[OF slots] by auto
  have tool: "\<forall>q \<in> set rs3. retrieve_splice S shape q" "rs3 = [] \<or> rs2 \<noteq> [] \<or> marker"
    "shape = AnthropicMessageBatches \<or> length rs3 \<le> 1"
    using retrieve_plan_splices[of S shape b2 "length rs2" marker indices] few unfolding retr by auto
  have prompt: "\<forall>q \<in> set rs4. cache_key_splice S sha256 shape b3 q" "length rs4 \<le> 1"
    using cache_key_plan_splices[OF assms(1), of sha256 ctx shape b3] unfolding keyp by auto
  have r: "r = (if length rs2 = 0 \<and> \<not> mutated \<and> \<not> inj \<and> \<not> key
      then rc_unchanged body (unwrap_or ''no_live_zone_text'' reason) hashes
      else \<lparr>rc_body = b4, rc_compressed = (length rs2 > 0),
        rc_skipped_reason = (if length rs2 = 0 then Some ''metadata_injected_only'' else None),
        rc_hashes = hashes, rc_bytes_before = length body, rc_bytes_after = length b4,
        rc_tokens_before = estimate_tokens_bytes body, rc_tokens_after = estimate_tokens_bytes b4\<rparr>)"
    using assms(2) plan slots b2 retr b3 keyp b4
    by (auto simp: compress_current_def Let_def split: if_splits)
  have "rc_hashes r = hashes" unfolding r by (simp add: rc_unchanged_def)
  note result = that[OF ok2 b2[unfolded apply_plan_apply] ok3 b3[unfolded apply_plan_apply] ok4
      compress_slots_markers[OF fit slots] this rs4 len tool prompt]
  show thesis
  proof (rule result)
    show "(\<exists>reason. r = rc_unchanged body reason hashes \<and> rs2 = [] \<and> \<not> mutated)
     \<or> (apply_replacements b3 rs4 = Some (rc_body r)
        \<and> rc_compressed r = (rs2 \<noteq> [])
        \<and> rc_skipped_reason r = (if rs2 = [] then Some ''metadata_injected_only'' else None)
        \<and> rc_bytes_before r = length body \<and> rc_bytes_after r = length (rc_body r))"
      using b4 unfolding r apply_plan_apply by auto
  qed
qed

lemma compress_ctx_cases:
  assumes "compress_json_request_ctx S sha256 md5 ops body shape ctx w = Some (r, w')"
  obtains (passed) reason where "r = rc_unchanged body reason []" "w' = w"
  | (run) parsed current working where "apply_plan body (metadata_plan S md5 ctx body parsed shape) = Some current"
      "sd_value S body = Some parsed"
      "compress_current S sha256 ops body shape ctx (value_contains_ccr_marker parsed)
         (metadata_plan S md5 ctx body parsed shape \<noteq> []) current working w = Some (r, w')"
      "metadata_plan S md5 ctx body parsed shape = [] \<Longrightarrow> current = body"
proof (cases "sd_value S body")
  case None
  then show thesis using assms passed by (auto simp: compress_json_request_ctx_def)
next
  case (Some parsed)
  let ?rs = "metadata_plan S md5 ctx body parsed shape"
  show thesis
  proof (cases "\<not> utf8_valid body \<or> shape = OpenAiChatCompletions \<and> multi_choice parsed")
    case True
    then show thesis using assms Some passed
      by (auto simp: compress_json_request_ctx_def split: if_splits)
  next
    case False
    then obtain current where current: "apply_plan body ?rs = Some current"
      using assms Some by (cases "apply_plan body ?rs") (auto simp: compress_json_request_ctx_def Let_def)
    show thesis
    proof (cases "if ?rs \<noteq> [] then sd_value S current else Some parsed")
      case None
      then show thesis using assms Some False current passed
        by (auto simp: compress_json_request_ctx_def Let_def split: if_splits)
    next
      case working: (Some working)
      show thesis
      proof (cases "utf8_valid current")
        case True
        then have "compress_current S sha256 ops body shape ctx (value_contains_ccr_marker parsed)
            (?rs \<noteq> []) current working w = Some (r, w')"
          using assms Some False current working
          by (cases "?rs = []") (auto simp: compress_json_request_ctx_def Let_def)
        then show thesis by (rule run[OF current Some]) (use current in \<open>simp add: apply_plan_def\<close>)
      next
        case bad: False
        then show thesis using assms Some False current working passed
          by (cases "?rs = []") (auto simp: compress_json_request_ctx_def Let_def)
      qed
    qed
  qed
qed

section \<open>Properties\<close>

lemma compress_current_total:
  assumes "borrows_ok S" "strings_print S"
  shows "compress_current S sha256 ops body shape ctx marker mutated current working w \<noteq> None"
proof -
  obtain reason slots where plan: "plan_live_zone S (whole current) working ctx shape = (reason, slots)"
    by fastforce
  then have fit: "slots_fit S current slots"
    using live_zone_fit[OF assms(1), of current working ctx shape] by simp
  obtain rs2 hashes indices w1 where slots: "compress_slots S sha256 ops slots w = Some ((rs2, hashes, indices), w1)"
    using compress_slots_total[OF assms(2), of sha256 ops slots w] by auto
  have "plan_ok (length current) rs2"
    using compress_slots_plan_ok[OF _ slots] fit by (simp add: slots_fit_def)
  then obtain b2 where b2: "apply_plan current rs2 = Some b2" using apply_plan_ok by blast
  obtain inj rs3 where retr: "retrieve_plan S shape b2 (length rs2) marker indices = (inj, rs3)" by fastforce
  then have "plan_ok (length b2) rs3" using retrieve_plan_fits[OF assms(1)] by (metis snd_conv)
  then obtain b3 where b3: "apply_plan b2 rs3 = Some b3" using apply_plan_ok by blast
  obtain key rs4 where keyp: "cache_key_plan S sha256 ctx shape b3 = (key, rs4)" by fastforce
  then have "plan_ok (length b3) rs4" using cache_key_plan_fits[OF assms(1)] by (metis snd_conv)
  then obtain b4 where "apply_plan b3 rs4 = Some b4" using apply_plan_ok by blast
  with plan slots b2 retr b3 keyp show ?thesis by (auto simp: compress_current_def Let_def)
qed

lemma compress_ctx_total:
  assumes "borrows_ok S" "strings_print S"
  shows "compress_json_request_ctx S sha256 md5 ops body shape ctx w \<noteq> None"
proof (cases "sd_value S body")
  case (Some parsed)
  obtain current where "apply_plan body (metadata_plan S md5 ctx body parsed shape) = Some current"
    using apply_plan_ok[OF metadata_plan_fits[OF assms(1)]] by blast
  then show ?thesis
    using Some
    by (simp add: compress_json_request_ctx_def Let_def compress_current_total[OF assms]
        del: not_None_eq split: option.splits)
qed (simp add: compress_json_request_ctx_def)

text \<open>
  C2: The pipeline never panics: if raw values point where the parser says (\<open>borrows_ok\<close>) and
  strings print, every body, shape, context and store gives a result - no slice goes out of
  range, no replacement overlaps another, and the \<open>expect\<close> is never reached.
\<close>

theorem compress_request_total:
  assumes "borrows_ok S" "strings_print S"
  shows "\<exists>r w'. compress_json_request_ctx S sha256 md5 ops body shape ctx w = Some (r, w')"
  using compress_ctx_total[OF assms] by (metis option.exhaust prod.exhaust)

lemma strings_print_demo: "strings_print demo_serde"
  by (simp add: strings_print_def demo_serde_def)

text \<open>A request whose one tool result is \<open>t\<close>, in the demonstration grammar.\<close>

definition wrapped :: "char \<Rightarrow> string \<Rightarrow> char \<Rightarrow> string" where
  "wrapped a t b = a # t @ [b]"

definition demo_body :: "string \<Rightarrow> string" where
  "demo_body t = wrapped (CHR ''{'') (wrapped (CHR ''{'') (wrapped (CHR ''['') (wrapped (CHR ''{'')
     (wrapped quote t quote) (CHR ''}'')) (CHR '']'')) (CHR ''}'')) (CHR ''}'')"

lemma demo_inner_wrapped [simp]: "demo_inner \<lparr>s_addr = n, s_text = wrapped a t b\<rparr> = Some \<lparr>s_addr = n + 1, s_text = t\<rparr>"
  by (simp add: demo_inner_def wrapped_def)

lemma starts_wrapped [simp]: "starts_with [c] (wrapped a t b) \<longleftrightarrow> c = a"
  by (auto simp: wrapped_def starts_with_def)

lemma length_wrapped [simp]: "length (wrapped a t b) = length t + 2"
  by (simp add: wrapped_def)

definition demo_slot :: "string \<Rightarrow> plan_slot" where
  "demo_slot t = \<lparr>ps_range = (4, 6 + length t), ps_text = t, ps_min_bytes = 512, ps_batch_request_index = None,
     ps_label = ''anthropic.tool_result''\<rparr>"

lemma demo_plan: "plan_live_zone demo_serde (whole (demo_body t)) JNull (compress_context_new auth) AnthropicMessages
    = (None, [demo_slot t])"
  by (simp add: plan_live_zone_def plan_anthropic_segment_def demo_serde_def demo_elements_def whole_def demo_body_def
      compress_context_new_def get_array_def plan_anthropic_message_def plan_anthropic_block_def string_slot_def
      offset_of_def s_end_def demo_slot_def LIVE_ZONE_MIN_BYTES_def HOT_ZONE_BLOCK_TYPES_def)
    (simp add: wrapped_def)

lemma request_hashes:
  assumes "compress_json_request_ctx S sha256 md5 ops body shape ctx w = Some (r, w')"
    and "sd_value S body = Some parsed" "utf8_valid body" "shape \<noteq> OpenAiChatCompletions"
    and "cc_auth_mode ctx \<noteq> Payg"
    and "compress_slots S sha256 ops (snd (plan_live_zone S (whole body) parsed ctx shape)) w = Some ((rs, hashes, indices), w1)"
  shows "rc_hashes r = hashes \<and> w' = w1 \<and> (rs \<noteq> [] \<longrightarrow> rc_compressed r)"
proof -
  have "metadata_plan S md5 ctx body parsed shape = []" using assms(5) by (simp add: metadata_plan_def)
  then have "compress_current S sha256 ops body shape ctx (value_contains_ccr_marker parsed) False body parsed w = Some (r, w')"
    using assms(1-4) by (simp add: compress_json_request_ctx_def apply_plan_def)
  then show ?thesis
    using assms(6)
    by (cases "plan_live_zone S (whole body) parsed ctx shape")
      (auto simp: compress_current_def rc_unchanged_def Let_def split: option.splits prod.splits if_splits)
qed

definition demo_text :: string where
  "demo_text = replicate 600 (CHR ''a'')"

lemma demo_text_clean: "\<not> contains ''<<ccr:'' demo_text"
proof -
  have "CHR ''<'' \<notin> set demo_text" by (simp add: demo_text_def)
  then show ?thesis unfolding contains_iff by (metis in_set_conv_decomp Un_iff set_append append_Cons)
qed

lemma demo_request_compressed:
  assumes "compress_json_request_ctx demo_serde const_digest md5 (sqlite_ops now) (demo_body demo_text) AnthropicMessages
     (compress_context_new OAuth) empty_world = Some (r, w')"
  shows "rc_compressed r \<and> rc_hashes r = [content_hash const_digest demo_text]"
proof -
  let ?h = "content_hash const_digest demo_text"
  obtain s' where put: "put_op (sqlite_ops now) ?h demo_text sqlite_in_memory = (Inr True, s')"
    by (auto simp: sqlite_ops_def sqlite_put_def sqlite_in_memory_def)
  have len: "512 \<le> length demo_text" by (simp add: demo_text_def)
  have "compress_slot demo_serde const_digest (sqlite_ops now) (demo_slot demo_text) empty_world =
    Some (Some (\<lparr>r_start = 4, r_end = 6 + length demo_text, r_bytes = quote # marker_for_hash ?h @ [quote]\<rparr>, ?h),
      empty_world\<lparr>the_store := s', the_stats := record_ccr_entry_inserted (the_stats empty_world)\<rparr>)"
    using demo_text_clean put len token_gate_open[OF digest_ok_const len]
    by (simp add: compress_slot_def demo_slot_def demo_serde_def empty_world_def Let_def)
  then obtain rs w1 where slots: "compress_slots demo_serde const_digest (sqlite_ops now)
      (snd (plan_live_zone demo_serde (whole (demo_body demo_text)) JNull (compress_context_new OAuth) AnthropicMessages)) empty_world
      = Some ((rs, [?h], []), w1)" "rs \<noteq> []"
    by (simp add: demo_plan) (simp add: demo_slot_def)
  have "utf8_valid (demo_body demo_text)"
    by (rule utf8_valid_ascii) (auto simp: is_ascii_def demo_body_def wrapped_def demo_text_def byte_def)
  from request_hashes[OF assms _ this _ _ slots(1)] slots(2) show ?thesis
    by (simp add: demo_serde_def compress_context_new_def)
qed

lemma demo_request_runs:
  obtains r w' where "compress_json_request_ctx demo_serde const_digest const_digest (sqlite_ops 1)
     (demo_body demo_text) AnthropicMessages (compress_context_new OAuth) empty_world = Some (r, w')"
  using compress_ctx_total[OF borrows_ok_demo strings_print_demo] by (metis option.exhaust prod.exhaust)

theorem compress_request_total_witness:
  "\<exists>r w'. compress_json_request_ctx demo_serde const_digest const_digest (sqlite_ops 1)
     (demo_body demo_text) AnthropicMessages (compress_context_new OAuth) empty_world = Some (r, w')"
  by (rule compress_request_total[OF borrows_ok_demo strings_print_demo])

text \<open>A marker was in the body before anything was compressed.\<close>

definition body_has_marker :: "serde \<Rightarrow> string \<Rightarrow> bool" where
  "body_has_marker S body \<longleftrightarrow> (case sd_value S body of Some v \<Rightarrow> value_contains_ccr_marker v | None \<Rightarrow> False)"

lemma compress_ctx_splices:
  assumes "borrows_ok S"
    and "compress_json_request_ctx S sha256 md5 ops body shape ctx w = Some (r, w')"
  shows "rc_body r = body \<and> rc_compressed r = False
    \<or> (\<exists>rs1 b1 rs2 b2 rs3 b3 rs4.
        plan_ok (length body) rs1 \<and> apply_replacements body rs1 = Some b1
        \<and> plan_ok (length b1) rs2 \<and> apply_replacements b1 rs2 = Some b2
        \<and> plan_ok (length b2) rs3 \<and> apply_replacements b2 rs3 = Some b3
        \<and> plan_ok (length b3) rs4 \<and> apply_replacements b3 rs4 = Some (rc_body r)
        \<and> (\<forall>q \<in> set rs2. marker_splice S sha256 b1 (rc_hashes r) q)
        \<and> length rs2 = length (rc_hashes r) \<and> rc_compressed r = (rs2 \<noteq> [])
        \<and> (\<forall>q \<in> set rs1. tools_splice S body q)
        \<and> (\<forall>q \<in> set rs3. retrieve_splice S shape q)
        \<and> (rs3 = [] \<or> rs2 \<noteq> [] \<or> body_has_marker S body)
        \<and> (shape = AnthropicMessageBatches \<or> length rs3 \<le> 1)
        \<and> (\<forall>q \<in> set rs4. cache_key_splice S sha256 shape b3 q) \<and> length rs4 \<le> 1
        \<and> (rs1 \<noteq> [] \<or> rs4 \<noteq> [] \<longrightarrow> cc_provider_metadata ctx \<and> cc_auth_mode ctx = Payg))"
  using assms(2)
proof (cases rule: compress_ctx_cases)
  case (passed reason)
  then show ?thesis by (simp add: rc_unchanged_def)
next
  case (run parsed current working)
  let ?rs1 = "metadata_plan S md5 ctx body parsed shape"
  have ok1: "plan_ok (length body) ?rs1" by (rule metadata_plan_fits[OF assms(1)])
  have tools: "\<forall>q \<in> set ?rs1. tools_splice S body q" using metadata_plan_splices[OF assms(1)] by blast
  have marked: "value_contains_ccr_marker parsed \<Longrightarrow> body_has_marker S body"
    using run(2) by (simp add: body_has_marker_def)
  have payg: "?rs1 \<noteq> [] \<longrightarrow> cc_provider_metadata ctx \<and> cc_auth_mode ctx = Payg"
    by (auto simp: metadata_plan_def)
  obtain rs2 hashes b2 rs3 b3 rs4 where st:
    "plan_ok (length current) rs2" "apply_replacements current rs2 = Some b2"
    "plan_ok (length b2) rs3" "apply_replacements b2 rs3 = Some b3" "plan_ok (length b3) rs4"
    "\<forall>q \<in> set rs2. marker_splice S sha256 current hashes q" "rc_hashes r = hashes"
    "rs4 = [] \<or> cc_provider_metadata ctx \<and> cc_auth_mode ctx = Payg" "length rs2 = length hashes"
    "\<forall>q \<in> set rs3. retrieve_splice S shape q"
    "rs3 = [] \<or> rs2 \<noteq> [] \<or> value_contains_ccr_marker parsed"
    "shape = AnthropicMessageBatches \<or> length rs3 \<le> 1"
    "\<forall>q \<in> set rs4. cache_key_splice S sha256 shape b3 q" "length rs4 \<le> 1"
    "(\<exists>reason. r = rc_unchanged body reason hashes \<and> rs2 = [] \<and> \<not> ?rs1 \<noteq> [])
     \<or> (apply_replacements b3 rs4 = Some (rc_body r) \<and> rc_compressed r = (rs2 \<noteq> [])
        \<and> rc_skipped_reason r = (if rs2 = [] then Some ''metadata_injected_only'' else None)
        \<and> rc_bytes_before r = length body \<and> rc_bytes_after r = length (rc_body r))"
    by (rule compress_current_stages[OF assms(1) run(3)]) (rule that)
  from st(15) show ?thesis
  proof
    assume "\<exists>reason. r = rc_unchanged body reason hashes \<and> rs2 = [] \<and> \<not> ?rs1 \<noteq> []"
    then show ?thesis by (auto simp: rc_unchanged_def)
  next
    assume finish: "apply_replacements b3 rs4 = Some (rc_body r) \<and> rc_compressed r = (rs2 \<noteq> [])
        \<and> rc_skipped_reason r = (if rs2 = [] then Some ''metadata_injected_only'' else None)
        \<and> rc_bytes_before r = length body \<and> rc_bytes_after r = length (rc_body r)"
    have "plan_ok (length body) ?rs1 \<and> apply_replacements body ?rs1 = Some current
        \<and> plan_ok (length current) rs2 \<and> apply_replacements current rs2 = Some b2
        \<and> plan_ok (length b2) rs3 \<and> apply_replacements b2 rs3 = Some b3
        \<and> plan_ok (length b3) rs4 \<and> apply_replacements b3 rs4 = Some (rc_body r)
        \<and> (\<forall>q \<in> set rs2. marker_splice S sha256 current (rc_hashes r) q)
        \<and> length rs2 = length (rc_hashes r) \<and> rc_compressed r = (rs2 \<noteq> [])
        \<and> (\<forall>q \<in> set ?rs1. tools_splice S body q)
        \<and> (\<forall>q \<in> set rs3. retrieve_splice S shape q)
        \<and> (rs3 = [] \<or> rs2 \<noteq> [] \<or> body_has_marker S body)
        \<and> (shape = AnthropicMessageBatches \<or> length rs3 \<le> 1)
        \<and> (\<forall>q \<in> set rs4. cache_key_splice S sha256 shape b3 q) \<and> length rs4 \<le> 1
        \<and> (?rs1 \<noteq> [] \<or> rs4 \<noteq> [] \<longrightarrow> cc_provider_metadata ctx \<and> cc_auth_mode ctx = Payg)"
      using finish st(1-14) ok1 payg run(1) tools marked unfolding apply_plan_apply st(7) by blast
    then show ?thesis by (intro disjI2 exI)
  qed
qed

text \<open>
  C3: What a request may become. The body sent on is the body received, verbatim, or comes
  from it by at most four plans of splices, each plan within the bytes it is applied to and
  without overlaps, so that everything outside the spans is copied; and what stands in each
  span is fixed. First (PAYG only), within a tools array: its tools in another order, a
  schema reprinted from its own value, or the cache_control field, inserted. Second, one per
  reported hash, a marker in place of the string token whose text it names. Third, insertions
  of the shape's printed retrieve tool, only beside a marker, and one at most unless the body
  is a batch. Fourth (PAYG only), one cache key at most, derived from the body it enters,
  inserted as a field or in place of a value that is no non-empty string.
\<close>

theorem compress_request_splices:
  assumes "borrows_ok S"
    and "compress_json_request_ctx S sha256 md5 ops body shape ctx w = Some (r, w')"
  shows "rc_body r = body \<and> rc_compressed r = False
    \<or> (\<exists>rs1 b1 rs2 b2 rs3 b3 rs4.
        plan_ok (length body) rs1 \<and> apply_replacements body rs1 = Some b1
        \<and> plan_ok (length b1) rs2 \<and> apply_replacements b1 rs2 = Some b2
        \<and> plan_ok (length b2) rs3 \<and> apply_replacements b2 rs3 = Some b3
        \<and> plan_ok (length b3) rs4 \<and> apply_replacements b3 rs4 = Some (rc_body r)
        \<and> (\<forall>q \<in> set rs2. marker_splice S sha256 b1 (rc_hashes r) q)
        \<and> length rs2 = length (rc_hashes r) \<and> rc_compressed r = (rs2 \<noteq> [])
        \<and> (\<forall>q \<in> set rs1. tools_splice S body q)
        \<and> (\<forall>q \<in> set rs3. retrieve_splice S shape q)
        \<and> (rs3 = [] \<or> rs2 \<noteq> [] \<or> body_has_marker S body)
        \<and> (shape = AnthropicMessageBatches \<or> length rs3 \<le> 1)
        \<and> (\<forall>q \<in> set rs4. cache_key_splice S sha256 shape b3 q) \<and> length rs4 \<le> 1
        \<and> (rs1 \<noteq> [] \<or> rs4 \<noteq> [] \<longrightarrow> cc_provider_metadata ctx \<and> cc_auth_mode ctx = Payg))"
  by (rule compress_ctx_splices[OF assms])

theorem compress_request_splices_witness:
  "\<exists>r w' rs2 b2 rs3. compress_json_request_ctx demo_serde const_digest const_digest (sqlite_ops 1)
     (demo_body demo_text) AnthropicMessages (compress_context_new OAuth) empty_world = Some (r, w')
   \<and> apply_replacements (demo_body demo_text) rs2 = Some b2 \<and> apply_replacements b2 rs3 = Some (rc_body r)
   \<and> length rs2 = 1 \<and> length rs3 \<le> 1 \<and> list_all (retrieve_splice demo_serde AnthropicMessages) rs3
   \<and> list_all (marker_splice demo_serde const_digest (demo_body demo_text)
       [content_hash const_digest demo_text]) rs2"
proof -
  obtain r w' where run: "compress_json_request_ctx demo_serde const_digest const_digest (sqlite_ops 1)
     (demo_body demo_text) AnthropicMessages (compress_context_new OAuth) empty_world = Some (r, w')"
    by (rule demo_request_runs)
  note c = demo_request_compressed[OF run]
  from compress_request_splices[OF borrows_ok_demo run] c obtain rs1 b1 rs2 b2 rs3 b3 rs4 where
    st: "apply_replacements (demo_body demo_text) rs1 = Some b1" "apply_replacements b1 rs2 = Some b2"
    "apply_replacements b2 rs3 = Some b3" "apply_replacements b3 rs4 = Some (rc_body r)"
    "\<forall>q \<in> set rs2. marker_splice demo_serde const_digest b1 (rc_hashes r) q" "length rs2 = length (rc_hashes r)"
    "\<forall>q \<in> set rs3. retrieve_splice demo_serde AnthropicMessages q"
    "AnthropicMessages = AnthropicMessageBatches \<or> length rs3 \<le> 1"
    "rs1 \<noteq> [] \<or> rs4 \<noteq> [] \<longrightarrow> cc_provider_metadata (compress_context_new OAuth)
       \<and> cc_auth_mode (compress_context_new OAuth) = Payg" by blast
  have "rs1 = [] \<and> rs4 = []" using st(9) by (auto simp: compress_context_new_def)
  then show ?thesis
    using run c st(1-8) by (intro exI[of _ r] exI[of _ w'] exI[of _ rs2] exI[of _ b2] exI[of _ rs3])
      (simp add: list_all_iff)
qed

text \<open>
  A request is reported unchanged only when it is: if the result is not compressed and its
  reason is not \<open>metadata_injected_only\<close>, the body, byte and token counts are those received;
  and \<open>compressed\<close> holds exactly when no reason to skip is given.
\<close>

theorem compress_request_unchanged:
  assumes "borrows_ok S"
    and "compress_json_request_ctx S sha256 md5 ops body shape ctx w = Some (r, w')"
  shows "(rc_skipped_reason r \<notin> {None, Some ''metadata_injected_only''} \<longrightarrow>
        rc_body r = body \<and> rc_bytes_after r = length body \<and> rc_tokens_after r = rc_tokens_before r)
    \<and> (rc_compressed r \<longleftrightarrow> rc_skipped_reason r = None)
    \<and> rc_bytes_before r = length body \<and> rc_bytes_after r = length (rc_body r)"
  using assms(2)
proof (cases rule: compress_ctx_cases)
  case (passed reason)
  then show ?thesis by (simp add: rc_unchanged_def)
next
  case (run parsed current working)
  show ?thesis
    by (rule compress_current_stages[OF assms(1) run(3)]) (auto simp: rc_unchanged_def)
qed

theorem compress_request_unchanged_witness:
  "rc_bytes_before (fst (the (compress_json_request_ctx demo_serde const_digest const_digest (sqlite_ops 1)
     (demo_body demo_text) AnthropicMessages (compress_context_new OAuth) empty_world))) = 610"
proof -
  obtain r w' where run: "compress_json_request_ctx demo_serde const_digest const_digest (sqlite_ops 1)
     (demo_body demo_text) AnthropicMessages (compress_context_new OAuth) empty_world = Some (r, w')"
    by (rule demo_request_runs)
  then show ?thesis
    using compress_request_unchanged[OF borrows_ok_demo run] by (simp add: demo_body_def demo_text_def)
qed

section \<open>The store a request leaves\<close>

text \<open>Every entry is stored under the hash of its content.\<close>

definition addressed :: "(string \<Rightarrow> string) \<Rightarrow> (string \<rightharpoonup> string) \<Rightarrow> bool" where
  "addressed sha256 m \<longleftrightarrow> (\<forall>h t. m h = Some t \<longrightarrow> h = content_hash sha256 t)"

context growing_store
begin

definition kept :: "'s world \<Rightarrow> 's world \<Rightarrow> string list \<Rightarrow> bool" where
  "kept w w' hashes \<longleftrightarrow> sound (the_store w') \<and> addressed sha256 (entries (the_store w'))
     \<and> entries (the_store w) \<subseteq>\<^sub>m entries (the_store w')
     \<and> (\<forall>h \<in> set hashes. entries (the_store w') h \<noteq> None)"

lemma kept_refl: "sound (the_store w) \<Longrightarrow> addressed sha256 (entries (the_store w)) \<Longrightarrow> kept w w []"
  by (simp add: kept_def)

lemma kept_trans:
  assumes "kept w w1 hs" "kept w1 w2 hs'"
  shows "kept w w2 (hs @ hs')"
proof -
  have le: "entries (the_store w) \<subseteq>\<^sub>m entries (the_store w1)" "entries (the_store w1) \<subseteq>\<^sub>m entries (the_store w2)"
    using assms by (simp_all add: kept_def)
  have "entries (the_store w2) h \<noteq> None" if "entries (the_store w1) h \<noteq> None" for h
    using map_le_implies_dom_le[OF le(2)] that by blast
  then have "\<forall>h \<in> set (hs @ hs'). entries (the_store w2) h \<noteq> None"
    using assms unfolding kept_def by (metis Un_iff set_append)
  then show ?thesis using map_le_trans[OF le] assms(2) by (simp add: kept_def)
qed

lemma slot_kept:
  assumes "sound (the_store w)" "addressed sha256 (entries (the_store w))"
    and "compress_slot S sha256 ops slot w = Some (res, w')"
  shows "kept w w' (case res of Some (r, h) \<Rightarrow> [h] | None \<Rightarrow> [])"
proof -
  let ?h = "content_hash sha256 (ps_text slot)"
  obtain pr s' where put: "put_op ops ?h (ps_text slot) (the_store w) = (pr, s')" by fastforce
  have "addressed sha256 (entries s')"
    using grow_origin[OF assms(1) put] assms(2) unfolding addressed_def by (metis prod.inject)
  then have after: "sound s' \<and> addressed sha256 (entries s') \<and> entries (the_store w) \<subseteq>\<^sub>m entries s'
      \<and> (\<forall>b. pr = Inr b \<longrightarrow> entries s' ?h \<noteq> None)"
    using grow_sound[OF assms(1) put] grow_extends[OF assms(1) put] grow_stores[OF assms(1)] put by blast
  show ?thesis
    using assms put after
    by (auto simp: compress_slot_def Let_def kept_def
        split: if_splits prod.splits sum.splits option.splits)
qed

lemma slots_kept:
  assumes "sound (the_store w)" "addressed sha256 (entries (the_store w))"
    and "compress_slots S sha256 ops slots w = Some ((rs, hashes, indices), w')"
  shows "kept w w' hashes"
  using assms
proof (induction slots arbitrary: w w' rs hashes indices)
  case Nil
  then show ?case by (simp add: kept_refl)
next
  case (Cons slot slots)
  obtain res w1 where first: "compress_slot S sha256 ops slot w = Some (res, w1)"
    using Cons.prems(3) by (cases "compress_slot S sha256 ops slot w") auto
  obtain rs0 hs0 is0 w2 where rest: "compress_slots S sha256 ops slots w1 = Some ((rs0, hs0, is0), w2)"
    using Cons.prems(3) first by (cases "compress_slots S sha256 ops slots w1") auto
  have k1: "kept w w1 (case res of Some (r, h) \<Rightarrow> [h] | None \<Rightarrow> [])"
    by (rule slot_kept[OF Cons.prems(1,2) first])
  then have "kept w1 w2 hs0" using Cons.IH[OF _ _ rest] by (simp add: kept_def)
  from kept_trans[OF k1 this] show ?case
    using Cons.prems(3) first rest by (cases res) auto
qed

lemma request_kept:
  assumes "sound (the_store w)" "addressed sha256 (entries (the_store w))"
    and "compress_json_request_ctx S sha256 md5 ops body shape ctx w = Some (r, w')"
  shows "kept w w' (rc_hashes r)"
  using assms(3)
proof (cases rule: compress_ctx_cases)
  case (passed reason)
  then show ?thesis using kept_refl[OF assms(1,2)] by (simp add: rc_unchanged_def)
next
  case (run parsed current working)
  obtain reason slots where plan: "plan_live_zone S (whole current) working ctx shape = (reason, slots)"
    by fastforce
  obtain rs2 hashes indices w1 where slots: "compress_slots S sha256 ops slots w = Some ((rs2, hashes, indices), w1)"
    using run(3) plan by (cases "compress_slots S sha256 ops slots w") (auto simp: compress_current_def)
  have "w' = w1 \<and> rc_hashes r = hashes"
    using run(3) plan slots
    by (auto simp: compress_current_def rc_unchanged_def Let_def split: option.splits prod.splits if_splits)
  then show ?thesis using slots_kept[OF assms(1,2) slots] by simp
qed

end

text \<open>What every \<open>put\<close> keeps of the store, a request keeps.\<close>

lemma slots_store_inv:
  assumes "\<And>t s. P s \<Longrightarrow> P (snd (put_op ops (content_hash sha256 t) t s))"
    and "compress_slots S sha256 ops slots w = Some (res, w')" "P (the_store w)"
  shows "P (the_store w')"
  using assms(2,3)
proof (induction slots arbitrary: w w' res)
  case (Cons slot slots)
  obtain out w1 where first: "compress_slot S sha256 ops slot w = Some (out, w1)"
    using Cons.prems(1) by (cases "compress_slot S sha256 ops slot w") auto
  obtain res1 w2 where rest: "compress_slots S sha256 ops slots w1 = Some (res1, w2)"
    using Cons.prems(1) first by (cases "compress_slots S sha256 ops slots w1") auto
  have "P (the_store w1)"
    using first Cons.prems(2) assms(1)[of "the_store w" "ps_text slot"]
    by (auto simp: compress_slot_def Let_def split: if_splits prod.splits sum.splits option.splits)
  moreover have "w' = w2" using Cons.prems(1) first rest by (auto split: prod.splits)
  ultimately show ?case using Cons.IH[OF rest] by simp
qed simp

lemma request_store_inv:
  assumes "\<And>t s. P s \<Longrightarrow> P (snd (put_op ops (content_hash sha256 t) t s))"
    and "compress_json_request_ctx S sha256 md5 ops body shape ctx w = Some (r, w')" "P (the_store w)"
  shows "P (the_store w')"
  using assms(2)
proof (cases rule: compress_ctx_cases)
  case (run parsed current working)
  obtain reason slots where plan: "plan_live_zone S (whole current) working ctx shape = (reason, slots)"
    by fastforce
  obtain res w1 where slots: "compress_slots S sha256 ops slots w = Some (res, w1)"
    using run(3) plan by (cases "compress_slots S sha256 ops slots w") (auto simp: compress_current_def)
  have "w' = w1"
    using run(3) plan slots
    by (auto simp: compress_current_def rc_unchanged_def Let_def split: option.splits prod.splits if_splits)
  then show ?thesis using slots_store_inv[of P, OF assms(1) slots assms(3)] by simp
qed (use assms(3) in simp)

text \<open>
  Nothing is replaced that cannot be retrieved. A request leaves the store consistent,
  content-addressed and with all its entries, and every hash it reports resolves to an
  original with that very content hash.
\<close>

theorem compress_request_retrievable:
  assumes "sqlite_sound (the_store w)" "addressed sha256 (sqlite_entries (the_store w))"
    and "compress_json_request_ctx S sha256 md5 (sqlite_ops now) body shape ctx w = Some (r, w')"
  shows "sqlite_sound (the_store w') \<and> addressed sha256 (sqlite_entries (the_store w'))
    \<and> sqlite_entries (the_store w) \<subseteq>\<^sub>m sqlite_entries (the_store w')
    \<and> (\<forall>h \<in> set (rc_hashes r). \<exists>t. sqlite_entries (the_store w') h = Some t \<and> content_hash sha256 t = h)"
  using sqlite.request_kept[OF assms] unfolding sqlite.kept_def addressed_def by auto

theorem compress_request_retrievable_witness:
  "\<exists>r w' t. compress_json_request_ctx demo_serde const_digest const_digest (sqlite_ops 1)
     (demo_body demo_text) AnthropicMessages (compress_context_new OAuth) empty_world = Some (r, w')
   \<and> sqlite_entries (the_store w') (content_hash const_digest demo_text) = Some t"
proof -
  obtain r w' where run: "compress_json_request_ctx demo_serde const_digest const_digest (sqlite_ops 1)
     (demo_body demo_text) AnthropicMessages (compress_context_new OAuth) empty_world = Some (r, w')"
    by (rule demo_request_runs)
  have "sqlite_sound (the_store empty_world)" "addressed const_digest (sqlite_entries (the_store empty_world))"
    using sqlite_sound_empty
    by (simp_all add: empty_world_def addressed_def sqlite_entries_def sqlite_in_memory_def)
  from compress_request_retrievable[OF this run] demo_request_compressed[OF run] run show ?thesis by auto
qed

end
