(* ===== verification/Chunk_Framing.thy ===== *)
theory Chunk_Framing
  imports Rust_Text
begin

text \<open>
  Cutting a byte stream that arrives in chunks into blocks. A cutter takes the first complete
  block off a buffer, or answers that there is none yet. The interface \<open>chunk_framer\<close> states
  what makes framing independent of how the stream was split: bytes that arrive later never
  change a block already complete, and every cut consumes something.
\<close>

text \<open>All the complete blocks of a buffer, and what is left.\<close>

function drain :: "(string \<Rightarrow> ('b \<times> string) option) \<Rightarrow> string \<Rightarrow> 'b list \<times> string" where
  "drain cutter buf =
     (case cutter buf of
        None \<Rightarrow> ([], buf)
      | Some (b, rest) \<Rightarrow>
          if length rest < length buf then let (bs, left) = drain cutter rest in (b # bs, left)
          else ([], buf))"
  by pat_completeness auto
termination
  by (relation "measure (length \<circ> snd)") auto

declare drain.simps [simp del]

text \<open>Chunks pushed one by one, drained after each.\<close>

fun feed :: "(string \<Rightarrow> ('b \<times> string) option) \<Rightarrow> string \<Rightarrow> string list \<Rightarrow> 'b list \<times> string" where
  "feed cutter buf [] = ([], buf)"
| "feed cutter buf (chunk # chunks) =
     (let (bs, left) = drain cutter (buf @ chunk); (bs', left') = feed cutter left chunks
      in (bs @ bs', left'))"

locale chunk_framer =
  fixes cutter :: "string \<Rightarrow> ('b \<times> string) option"
  assumes cut_append [laws]: "cutter buf = Some (b, rest) \<Longrightarrow> cutter (buf @ more) = Some (b, rest @ more)"
    and cut_shrinks [laws]: "cutter buf = Some (b, rest) \<Longrightarrow> length rest < length buf"
begin

lemma drain_None: "cutter buf = None \<Longrightarrow> drain cutter buf = ([], buf)"
  by (simp add: drain.simps)

lemma drain_Some:
  "cutter buf = Some (b, rest) \<Longrightarrow> drain cutter buf = (b # fst (drain cutter rest), snd (drain cutter rest))"
  using cut_shrinks by (subst drain.simps) (simp add: split_beta)

lemma drain_left: "cutter (snd (drain cutter buf)) = None"
proof (induction "length buf" arbitrary: buf rule: less_induct)
  case less
  show ?case
  proof (cases "cutter buf")
    case (Some br)
    obtain b rest where br: "br = (b, rest)" by (cases br)
    with Some less[of rest] cut_shrinks show ?thesis by (simp add: drain_Some)
  qed (simp add: drain_None)
qed

lemma drain_append:
  "drain cutter (buf @ more) =
     (fst (drain cutter buf) @ fst (drain cutter (snd (drain cutter buf) @ more)),
      snd (drain cutter (snd (drain cutter buf) @ more)))"
proof (induction "length buf" arbitrary: buf rule: less_induct)
  case less
  show ?case
  proof (cases "cutter buf")
    case None
    then show ?thesis by (simp add: drain_None)
  next
    case (Some br)
    obtain b rest where br: "br = (b, rest)" by (cases br)
    have "drain cutter (buf @ more) = (b # fst (drain cutter (rest @ more)), snd (drain cutter (rest @ more)))"
      using Some br by (intro drain_Some cut_append) simp
    then show ?thesis using less[of rest] cut_shrinks Some br by (simp add: drain_Some)
  qed
qed

lemma feed_concat:
  "cutter buf = None \<Longrightarrow> feed cutter buf chunks = drain cutter (buf @ concat chunks)"
proof (induction chunks arbitrary: buf)
  case Nil
  then show ?case by (simp add: drain_None)
next
  case (Cons chunk chunks)
  obtain bs left where d: "drain cutter (buf @ chunk) = (bs, left)" by fastforce
  then have "cutter left = None" using drain_left by (metis snd_conv)
  then have "feed cutter left chunks = drain cutter (left @ concat chunks)" by (rule Cons.IH)
  then show ?case
    using drain_append[of "buf @ chunk" "concat chunks"] d by (simp add: split_beta)
qed

end

end
