(* ===== verification/Sse.thy ===== *)
theory Sse
  imports Chunk_Framing Live_Zone
begin

text \<open>
  \<open>src/sse.rs\<close>: the byte-level framer of server-sent events, the per-provider telemetry
  state machine, and the rate-limit headers. The process counters and the session trackers
  the machine writes to are the record \<open>sse_env\<close>; the parser task reads the chunks in the
  order of its queue, so a run is a fold over the chunks.
\<close>

section \<open>Framing\<close>

datatype sse_kind = SseOpenAiChat | SseOpenAiResponses | SseAnthropic

fun provider_label :: "sse_kind \<Rightarrow> string" where
  "provider_label SseAnthropic = ''anthropic''"
| "provider_label SseOpenAiChat = ''openai_chat''"
| "provider_label SseOpenAiResponses = ''openai_responses''"

record sse_event =
  event_name :: "string option"
  event_data :: string

definition data_str :: "sse_event \<Rightarrow> string option" where
  "data_str e = (if utf8_valid (event_data e) then Some (event_data e) else None)"

definition is_done_sentinel :: "sse_event \<Rightarrow> bool" where
  "is_done_sentinel e \<longleftrightarrow> event_data e = ''[DONE]''"

definition LF :: char where "LF = CHR 0x0A"
definition CR :: char where "CR = CHR 0x0D"

text \<open>The scan from \<open>index\<close>; the list is the rest of the buffer.\<close>

fun find_from :: "nat \<Rightarrow> string \<Rightarrow> (nat \<times> nat) option" where
  "find_from index (a # b # rest) =
     (if a = LF \<and> b = LF then Some (index, 2)
      else if a = CR \<and> b = LF \<and> starts_with [CR, LF] rest then Some (index, 4)
      else find_from (index + 1) (b # rest))"
| "find_from index _ = None"

definition find_double_newline :: "string \<Rightarrow> (nat \<times> nat) option" where
  "find_double_newline buf = find_from 0 buf"

definition strip_cr :: "string \<Rightarrow> string" where
  "strip_cr line = (if line \<noteq> [] \<and> last line = CR then butlast line else line)"

text \<open>One line of a block: the event name and the data parts so far.\<close>

definition parse_line :: "string \<Rightarrow> string option \<times> string list \<Rightarrow> string option \<times> string list" where
  "parse_line raw = (\<lambda>(name, parts).
     let line = strip_cr raw in
     if line = [] then (name, parts)
     else if hd line = CHR '':'' then (name, parts)
     else
       let (field, v) = (case split_once (CHR '':'') line of Some fv \<Rightarrow> fv | None \<Rightarrow> (line, []));
           v = (case strip_prefix '' '' v of Some rest \<Rightarrow> rest | None \<Rightarrow> v)
       in if field = ''event'' then (if utf8_valid v then Some v else name, parts)
          else if field = ''data'' then (name, parts @ [v])
          else (name, parts))"

definition parse_event_block :: "string \<Rightarrow> sse_event option" where
  "parse_event_block block =
     (let (name, parts) = fold parse_line (split_on (\<lambda>c. c = LF) block) (None, [])
      in if parts = [] then None
         else Some \<lparr>event_name = name, event_data = join [LF] parts\<rparr>)"

record sse_framer =
  fr_buf :: string
  fr_done_seen :: bool

definition framer_new :: sse_framer where
  "framer_new = \<lparr>fr_buf = [], fr_done_seen = False\<rparr>"

definition framer_push :: "string \<Rightarrow> sse_framer \<Rightarrow> sse_framer" where
  "framer_push chunk f = (if chunk = [] then f else f\<lparr>fr_buf := fr_buf f @ chunk\<rparr>)"

lemma find_from_bounds:
  "find_from index buf = Some (i, n) \<Longrightarrow> index \<le> i \<and> 2 \<le> n \<and> i + n \<le> index + length buf"
proof (induction index buf rule: find_from.induct)
  case (1 index a b rest)
  show ?case
  proof (cases "a = LF \<and> b = LF")
    case False
    then show ?thesis
      using 1 by (auto simp: starts_with_iff split: if_splits)
  qed (use 1 in auto)
qed auto

lemma find_double_newline_bounds:
  "find_double_newline buf = Some (i, n) \<Longrightarrow> 2 \<le> n \<and> i + n \<le> length buf"
  using find_from_bounds[of 0] by (auto simp: find_double_newline_def)

function next_event :: "sse_framer \<Rightarrow> sse_event option \<times> sse_framer" where
  "next_event f =
     (case find_double_newline (fr_buf f) of
        None \<Rightarrow> (None, f)
      | Some (stop, term_len) \<Rightarrow>
          let block = take stop (fr_buf f);
              f = f\<lparr>fr_buf := drop (stop + term_len) (fr_buf f)\<rparr>
          in (case parse_event_block block of
                Some event \<Rightarrow>
                  (Some event, if is_done_sentinel event then f\<lparr>fr_done_seen := True\<rparr> else f)
              | None \<Rightarrow> next_event f))"
  by pat_completeness auto
termination
  by (relation "measure (length \<circ> fr_buf)") (auto dest: find_double_newline_bounds)

declare next_event.simps [simp del]

section \<open>The telemetry state machine\<close>

record sse_session =
  sx_provider :: session_provider
  sx_session_id :: string
  sx_estimates :: "u64 list"

record sse_state =
  ss_kind :: sse_kind
  ss_input :: u64
  ss_output :: u64
  ss_cache_read :: u64
  ss_cache_creation :: u64
  ss_emitted :: bool
  ss_last_status :: "string option"
  ss_assistant_chars :: nat
  ss_session :: "sse_session option"

record sse_env =
  env_stats :: stats
  env_trackers :: inner

definition sse_state_new :: "sse_kind \<Rightarrow> sse_session option \<Rightarrow> sse_state" where
  "sse_state_new kind session =
     \<lparr>ss_kind = kind, ss_input = 0, ss_output = 0, ss_cache_read = 0, ss_cache_creation = 0,
      ss_emitted = False, ss_last_status = None, ss_assistant_chars = 0, ss_session = session\<rparr>"

definition usage_u64_opt :: "json \<Rightarrow> string list \<Rightarrow> u64 option" where
  "usage_u64_opt v keys =
     (case find (\<lambda>k. get_u64 k v \<noteq> None) keys of Some k \<Rightarrow> get_u64 k v | None \<Rightarrow> None)"

definition usage_u64 :: "json \<Rightarrow> string list \<Rightarrow> u64" where
  "usage_u64 v keys = unwrap_or 0 (usage_u64_opt v keys)"

definition absorb_usage :: "json \<Rightarrow> sse_state \<Rightarrow> sse_state" where
  "absorb_usage usage st =
     (let input = usage_u64 usage [''prompt_tokens'', ''input_tokens''];
          output = usage_u64 usage [''completion_tokens'', ''output_tokens''];
          details = option_or (json_get ''prompt_tokens_details'' usage) (json_get ''input_tokens_details'' usage);
          cache_read = unwrap_or 0 (option_or
            (Option.bind details (\<lambda>d. usage_u64_opt d [''cached_tokens'']))
            (usage_u64_opt usage [''cache_read_input_tokens'']));
          cache_creation = usage_u64 usage [''cache_creation_input_tokens'']
      in st\<lparr>ss_input := max (ss_input st) input, ss_output := max (ss_output st) output,
           ss_cache_read := max (ss_cache_read st) cache_read,
           ss_cache_creation := max (ss_cache_creation st) cache_creation\<rparr>)"

definition infers_write :: "sse_state \<Rightarrow> bool" where
  "infers_write st \<longleftrightarrow> ss_kind st \<noteq> SseAnthropic \<and> \<not> ss_cache_creation st > 0"

definition cache_write_tokens :: "sse_state \<Rightarrow> u64" where
  "cache_write_tokens st =
     (if infers_write st then saturating_sub (ss_input st) (ss_cache_read st) else ss_cache_creation st)"

definition hit_denominator :: "sse_state \<Rightarrow> u64" where
  "hit_denominator st =
     (if ss_kind st = SseAnthropic
      then saturating_add (saturating_add (ss_input st) (ss_cache_read st)) (ss_cache_creation st)
      else ss_input st)"

text \<open>\<open>t0\<close>, \<open>t1\<close>: the clock readings of the tracker update.\<close>

definition emit_final :: "nat \<Rightarrow> nat \<Rightarrow> sse_state \<times> sse_env \<Rightarrow> sse_state \<times> sse_env" where
  "emit_final t0 t1 = (\<lambda>(st, env).
     if ss_emitted st then (st, env)
     else
       let st = st\<lparr>ss_emitted := True\<rparr> in
       if ss_input st = 0 \<and> ss_output st = 0 \<and> ss_cache_read st = 0 \<and> ss_cache_creation st = 0
       then (st, env)
       else
         let s = record_sse_usage (ss_input st) (ss_output st) (ss_cache_read st)
                   (ss_cache_creation st) (env_stats env);
             s = (if infers_write st then record_inferred_cache_write_tokens (cache_write_tokens st) s else s);
             denominator = hit_denominator st;
             s = (if denominator > 0 \<and> ss_cache_read st \<le> denominator
                  then record_sse_cache_hit_rate (provider_label (ss_kind st))
                         (of_nat (unat (ss_cache_read st)) / of_nat (unat denominator)) s
                  else s);
             trackers =
               (case ss_session st of
                  None \<Rightarrow> env_trackers env
                | Some session \<Rightarrow>
                    let estimates = sx_estimates session @
                          (if ss_kind st = SseAnthropic \<and> ss_assistant_chars st > 0
                           then [token_floor (ss_assistant_chars st + 20)] else [])
                    in update_from_response t0 t1 (sx_provider session) (sx_session_id session)
                         (ss_cache_read st) (cache_write_tokens st) estimates (env_trackers env))
         in (st, \<lparr>env_stats = s, env_trackers = trackers\<rparr>))"

definition is_retrieve_call :: "string \<Rightarrow> json \<Rightarrow> bool" where
  "is_retrieve_call kind v \<longleftrightarrow> get_str ''type'' v = Some kind
     \<and> (case get_str ''name'' v of Some n \<Rightarrow> is_retrieve_tool_name n | None \<Rightarrow> False)"

definition ccr_stream_tool_call_detected :: "sse_kind \<Rightarrow> json \<Rightarrow> bool" where
  "ccr_stream_tool_call_detected kind v =
     (case kind of
        SseAnthropic \<Rightarrow>
          get_str ''type'' v = Some ''content_block_start''
          \<and> (case json_get ''content_block'' v of
                Some block \<Rightarrow> is_retrieve_call ''tool_use'' block | None \<Rightarrow> False)
      | SseOpenAiChat \<Rightarrow>
          (case get_array ''choices'' v of
             None \<Rightarrow> False
           | Some choices \<Rightarrow>
               list_ex (\<lambda>choice.
                 case Option.bind (get_in ''delta'' ''tool_calls'' choice) as_array of
                   None \<Rightarrow> False
                 | Some calls \<Rightarrow>
                     list_ex (\<lambda>call. case get_in_str ''function'' ''name'' call of
                                       Some n \<Rightarrow> is_retrieve_tool_name n | None \<Rightarrow> False) calls) choices)
      | SseOpenAiResponses \<Rightarrow>
          get_str ''type'' v = Some ''response.output_item.added''
          \<and> (case json_get ''item'' v of
                Some item \<Rightarrow> is_retrieve_call ''function_call'' item | None \<Rightarrow> False))"

definition service_tier_validate :: "string \<Rightarrow> string" where
  "service_tier_validate raw =
     (if raw \<in> {''auto'', ''default'', ''flex'', ''on_demand'', ''priority'', ''scale''} then raw
      else ''other'')"

definition object_only :: "json option \<Rightarrow> json option" where
  "object_only v = option_filter is_object v"

definition absorb_opt :: "json option \<Rightarrow> sse_state \<Rightarrow> sse_state" where
  "absorb_opt usage st = (case usage of Some u \<Rightarrow> absorb_usage u st | None \<Rightarrow> st)"

definition terminal_status :: "string \<Rightarrow> string option" where
  "terminal_status kind =
     (if kind = ''response.completed'' then Some ''completed''
      else if kind = ''response.failed'' then Some ''failed''
      else if kind = ''response.incomplete'' then Some ''incomplete'' else None)"

definition apply_chat :: "nat \<Rightarrow> nat \<Rightarrow> json \<Rightarrow> sse_state \<times> sse_env \<Rightarrow> sse_state \<times> sse_env" where
  "apply_chat t0 t1 v = (\<lambda>(st, env).
     case object_only (json_get ''usage'' v) of
       Some usage \<Rightarrow> emit_final t0 t1 (absorb_usage usage st, env)
     | None \<Rightarrow> (st, env))"

definition apply_responses ::
    "nat \<Rightarrow> nat \<Rightarrow> string option \<Rightarrow> json \<Rightarrow> sse_state \<times> sse_env \<Rightarrow> sse_state \<times> sse_env" where
  "apply_responses t0 t1 name v = (\<lambda>(st, env).
     case terminal_status (unwrap_or [] (option_or (get_str ''type'' v) name)) of
       None \<Rightarrow> (st, env)
     | Some status \<Rightarrow>
         let st = st\<lparr>ss_last_status := Some status\<rparr>;
             st = absorb_opt (object_only (option_or (json_get ''usage'' v)
                     (get_in ''response'' ''usage'' v))) st;
             env = (case Option.bind (option_or (get_in ''response'' ''service_tier'' v)
                          (json_get ''service_tier'' v)) as_str of
                      Some tier \<Rightarrow>
                        env\<lparr>env_stats := record_service_tier (service_tier_validate tier) (env_stats env)\<rparr>
                    | None \<Rightarrow> env)
         in emit_final t0 t1 (st, env))"

definition delta_chars :: "json \<Rightarrow> nat" where
  "delta_chars delta = sum_list (map (\<lambda>field. case get_str field delta of
      Some t \<Rightarrow> char_count t | None \<Rightarrow> 0) [''text'', ''partial_json'', ''thinking''])"

definition apply_anthropic ::
    "nat \<Rightarrow> nat \<Rightarrow> string option \<Rightarrow> json \<Rightarrow> sse_state \<times> sse_env \<Rightarrow> sse_state \<times> sse_env" where
  "apply_anthropic t0 t1 name v = (\<lambda>(st, env).
     let kind = option_or (get_str ''type'' v) name in
     if kind = Some ''message_start'' then
       (absorb_opt (object_only (option_or (get_in ''message'' ''usage'' v) (json_get ''usage'' v))) st, env)
     else if kind = Some ''message_delta'' then (absorb_opt (object_only (json_get ''usage'' v)) st, env)
     else if kind = Some ''content_block_delta'' then
       (case json_get ''delta'' v of
          Some delta \<Rightarrow> (st\<lparr>ss_assistant_chars := ss_assistant_chars st + delta_chars delta\<rparr>, env)
        | None \<Rightarrow> (st, env))
     else if kind = Some ''message_stop'' then emit_final t0 t1 (st, env)
     else (st, env))"

definition apply_event ::
    "serde \<Rightarrow> nat \<Rightarrow> nat \<Rightarrow> sse_event \<Rightarrow> sse_state \<times> sse_env \<Rightarrow> sse_state \<times> sse_env" where
  "apply_event S t0 t1 event = (\<lambda>(st, env).
     if is_done_sentinel event then (st, env)
     else case Option.bind (data_str event) (sd_value S) of
       None \<Rightarrow> (st, env)
     | Some v \<Rightarrow>
         let env = (if ccr_stream_tool_call_detected (ss_kind st) v
                    then env\<lparr>env_stats := record_ccr_stream_tool_call (env_stats env)\<rparr> else env)
         in (case ss_kind st of
               SseOpenAiChat \<Rightarrow> apply_chat t0 t1 v (st, env)
             | SseOpenAiResponses \<Rightarrow> apply_responses t0 t1 (event_name event) v (st, env)
             | SseAnthropic \<Rightarrow> apply_anthropic t0 t1 (event_name event) v (st, env)))"

definition finish :: "sse_state \<times> sse_env \<Rightarrow> sse_env" where
  "finish = (\<lambda>(st, env).
     if ss_kind st = SseOpenAiResponses then
       (case ss_last_status st of
          Some status \<Rightarrow> env\<lparr>env_stats := record_response_status status (env_stats env)\<rparr>
        | None \<Rightarrow> env)
     else env)"

section \<open>The parser task\<close>

text \<open>\<open>while let Some(event) = framer.next_event()\<close>: the events ready in the buffer.\<close>

lemma next_event_shrinks: "next_event f = (Some e, f') \<Longrightarrow> length (fr_buf f') < length (fr_buf f)"
proof (induction f rule: next_event.induct)
  case (1 f)
  show ?case
  proof (cases "find_double_newline (fr_buf f)")
    case (Some st)
    obtain stop n where st: "st = (stop, n)" by (cases st)
    note b = find_double_newline_bounds[OF Some[unfolded st]]
    show ?thesis
    proof (cases "parse_event_block (take stop (fr_buf f))")
      case None
      then show ?thesis
        using 1(1)[OF Some st[symmetric] refl refl None] "1.prems" Some st b
        by (subst (asm) next_event.simps[of f]) (auto simp: Let_def)
    next
      case parsed: (Some e')
      then show ?thesis
        using "1.prems" Some st b by (subst (asm) next_event.simps[of f]) (auto simp: Let_def split: if_splits)
    qed
  qed (use "1.prems" in \<open>simp add: next_event.simps[of f]\<close>)
qed

function ready_events :: "sse_framer \<Rightarrow> sse_event list \<times> sse_framer" where
  "ready_events f =
     (case next_event f of
        (None, f') \<Rightarrow> ([], f')
      | (Some e, f') \<Rightarrow> let (es, f'') = ready_events f' in (e # es, f''))"
  by pat_completeness auto
termination
  by (relation "measure (length \<circ> fr_buf)") (auto dest: next_event_shrinks[OF sym])

declare ready_events.simps [simp del]

fun framed_events :: "sse_framer \<Rightarrow> string list \<Rightarrow> sse_event list" where
  "framed_events f [] = []"
| "framed_events f (chunk # chunks) =
     (let (es, f') = ready_events (framer_push chunk f) in es @ framed_events f' chunks)"

text \<open>Each event comes with the clock readings of its step.\<close>

definition apply_steps ::
    "serde \<Rightarrow> (nat \<times> nat \<times> sse_event) list \<Rightarrow> sse_state \<times> sse_env \<Rightarrow> sse_state \<times> sse_env" where
  "apply_steps S = fold (\<lambda>(t0, t1, e). apply_event S t0 t1 e)"

definition timed :: "(nat \<Rightarrow> nat \<times> nat) \<Rightarrow> sse_event list \<Rightarrow> (nat \<times> nat \<times> sse_event) list" where
  "timed clock events = map (\<lambda>(i, e). (fst (clock i), snd (clock i), e)) (enumerate 0 events)"

definition run_sse_state_machine ::
    "serde \<Rightarrow> (nat \<Rightarrow> nat \<times> nat) \<Rightarrow> sse_kind \<Rightarrow> sse_session option \<Rightarrow> string list \<Rightarrow> sse_env \<Rightarrow> sse_env" where
  "run_sse_state_machine S clock kind session chunks env =
     finish (apply_steps S (timed clock (framed_events framer_new chunks)) (sse_state_new kind session, env))"

section \<open>Rate-limit headers\<close>

definition digits_value :: "string \<Rightarrow> nat option" where
  "digits_value ds =
     (if ds \<noteq> [] \<and> (\<forall>c \<in> set ds. 48 \<le> byte c \<and> byte c \<le> 57)
      then Some (fold (\<lambda>c n. 10 * n + (byte c - 48)) ds 0) else None)"

text \<open>\<open>str::parse::<i64>\<close>: an optional sign, digits, and no overflow.\<close>

definition parse_i64 :: "string \<Rightarrow> i64 option" where
  "parse_i64 s =
     (if starts_with ''-'' s then
        Option.bind (digits_value (tl s)) (\<lambda>n. if n \<le> 2 ^ 63 then Some (- int n) else None)
      else
        let ds = (if starts_with ''+'' s then tl s else s)
        in Option.bind (digits_value ds) (\<lambda>n. if n < 2 ^ 63 then Some (int n) else None))"

definition header_i64 :: "http_lib \<Rightarrow> header_map \<Rightarrow> string \<Rightarrow> i64 option" where
  "header_i64 H hs name = Option.bind (header_str H name hs) (\<lambda>v. parse_i64 (trim v))"

definition extract_rate_limit_snapshot :: "http_lib \<Rightarrow> header_map \<Rightarrow> rate_limit_snapshot" where
  "extract_rate_limit_snapshot H hs =
     \<lparr>remaining_requests = option_or (header_i64 H hs ''anthropic-ratelimit-requests-remaining'')
                             (header_i64 H hs ''x-ratelimit-remaining-requests''),
      remaining_tokens = option_or (header_i64 H hs ''anthropic-ratelimit-tokens-remaining'')
                           (header_i64 H hs ''x-ratelimit-remaining-tokens''),
      remaining_input_tokens = header_i64 H hs ''anthropic-ratelimit-input-tokens-remaining'',
      remaining_output_tokens = header_i64 H hs ''anthropic-ratelimit-output-tokens-remaining''\<rparr>"

end
