(* ===== verification/Sse_Safety.thy ===== *)
theory Sse_Safety
  imports Sse
begin

text \<open>
  What the SSE parser guarantees: the events do not depend on how the bytes were split into
  chunks; usage is reported at most once; the response status is counted once, at the end.
\<close>

section \<open>Framing does not depend on the chunks\<close>

text \<open>The framer as a cutter of blocks.\<close>

definition cut_block :: "string \<Rightarrow> (string \<times> string) option" where
  "cut_block buf = map_option (\<lambda>(stop, n). (take stop buf, drop (stop + n) buf)) (find_double_newline buf)"

lemma find_from_append:
  "find_from index buf = Some (i, n) \<Longrightarrow> find_from index (buf @ extra) = Some (i, n)"
proof (induction index buf rule: find_from.induct)
  case (1 index a b rest)
  have nl: "LF \<noteq> CR" by (simp add: LF_def CR_def)
  have early: "\<not> (a = CR \<and> b = LF \<and> starts_with [CR, LF] (rest @ extra))"
    if "find_from (index + 1) (b # rest) = Some (i, n)" "\<not> starts_with [CR, LF] rest" "a = CR" "b = LF"
  proof
    assume *: "a = CR \<and> b = LF \<and> starts_with [CR, LF] (rest @ extra)"
    show False
    proof (cases rest)
      case Nil
      then show False using that(1) by simp
    next
      case (Cons c cs)
      then have c: "c = CR" using * by (auto simp: starts_with_iff)
      show False
      proof (cases cs)
        case Nil
        then show False using that Cons c nl by simp
      next
        case inner: (Cons d ds)
        then show False using that(2) * Cons by (auto simp: starts_with_iff)
      qed
    qed
  qed
  show ?case
    using "1.prems" "1.IH" early nl by (auto simp: starts_with_iff split: if_splits)
qed auto

interpretation blocks: chunk_framer cut_block
proof
  fix buf b rest extra
  assume cut: "cut_block buf = Some (b, rest)"
  then obtain i n where f: "find_double_newline buf = Some (i, n)" "b = take i buf" "rest = drop (i + n) buf"
    by (auto simp: cut_block_def)
  have "find_double_newline (buf @ extra) = Some (i, n)"
    using f(1) unfolding find_double_newline_def by (rule find_from_append)
  then show "cut_block (buf @ extra) = Some (b, rest @ extra)"
    using f find_double_newline_bounds[OF f(1)] by (simp add: cut_block_def)
  have "length rest = length buf - (i + n)" using f(3) by simp
  then show "length rest < length buf"
    using find_double_newline_bounds[OF f(1)] by linarith
qed

lemma cut_block_empty: "cut_block [] = None"
  by (simp add: cut_block_def find_double_newline_def)

lemma next_event_drain:
  "next_event f = (r, f') \<Longrightarrow>
     (case r of
        None \<Rightarrow> List.map_filter parse_event_block (fst (drain cut_block (fr_buf f))) = []
          \<and> fr_buf f' = snd (drain cut_block (fr_buf f))
      | Some e \<Rightarrow> List.map_filter parse_event_block (fst (drain cut_block (fr_buf f)))
            = e # List.map_filter parse_event_block (fst (drain cut_block (fr_buf f')))
          \<and> snd (drain cut_block (fr_buf f)) = snd (drain cut_block (fr_buf f')))"
proof (induction f rule: next_event.induct)
  case (1 f)
  show ?case
  proof (cases "find_double_newline (fr_buf f)")
    case None
    then have "cut_block (fr_buf f) = None" by (simp add: cut_block_def)
    from blocks.drain_None[OF this] show ?thesis using "1.prems" None
      by (subst (asm) next_event.simps) (auto simp: map_filter_def)
  next
    case (Some st)
    obtain stop n where st: "st = (stop, n)" by (cases st)
    let ?block = "take stop (fr_buf f)" and ?rest = "drop (stop + n) (fr_buf f)"
    have "cut_block (fr_buf f) = Some (?block, ?rest)" using Some st by (simp add: cut_block_def)
    note drain = blocks.drain_Some[OF this]
    show ?thesis
    proof (cases "parse_event_block ?block")
      case None
      have "next_event (f\<lparr>fr_buf := ?rest\<rparr>) = (r, f')"
        using "1.prems" Some st None by (subst (asm) next_event.simps) (simp add: Let_def)
      from 1(1)[OF Some st[symmetric] refl refl None this] show ?thesis
        by (simp add: drain None map_filter_def split: option.splits)
    next
      case parsed: (Some e)
      have "r = Some e \<and> fr_buf f' = ?rest"
        using "1.prems" Some st parsed by (subst (asm) next_event.simps) (auto simp: Let_def split: if_splits)
      then show ?thesis by (simp add: drain parsed map_filter_def)
    qed
  qed
qed

lemma ready_events_drain:
  "fst (ready_events f) = List.map_filter parse_event_block (fst (drain cut_block (fr_buf f)))
   \<and> fr_buf (snd (ready_events f)) = snd (drain cut_block (fr_buf f))"
proof (induction f rule: ready_events.induct)
  case (1 f)
  obtain r f' where n: "next_event f = (r, f')" by fastforce
  show ?case
  proof (cases r)
    case None
    then show ?thesis using n next_event_drain[OF n] by (subst (1 2) ready_events.simps) simp
  next
    case (Some e)
    then show ?thesis using n next_event_drain[OF n] 1[OF n[symmetric] Some]
      by (subst (1 2) ready_events.simps) (simp add: split_beta)
  qed
qed

lemma framed_events_feed:
  "framed_events f chunks = List.map_filter parse_event_block (fst (feed cut_block (fr_buf f) chunks))"
proof (induction chunks arbitrary: f)
  case Nil
  then show ?case by (simp add: map_filter_def)
next
  case (Cons chunk chunks)
  have push: "fr_buf (framer_push chunk f) = fr_buf f @ chunk" by (simp add: framer_push_def)
  show ?case
    using ready_events_drain[of "framer_push chunk f"] Cons.IH
    by (simp add: split_beta push map_filter_def)
qed

text \<open>
  C22: Chunking is invisible. The events framed from a stream depend only on its bytes: any two
  ways of splitting it into chunks - inside lines, terminators or characters - give the same
  events, and so the same telemetry.
\<close>

theorem sse_chunking_invariant:
  assumes "concat chunks = concat chunks'"
  shows "framed_events framer_new chunks = framed_events framer_new chunks'
    \<and> run_sse_state_machine S clock kind session chunks env
        = run_sse_state_machine S clock kind session chunks' env"
proof -
  have "framed_events framer_new cs
      = List.map_filter parse_event_block (fst (drain cut_block (concat cs)))" for cs
    using blocks.feed_concat[OF cut_block_empty, of cs]
    by (simp add: framed_events_feed framer_new_def)
  then show ?thesis using assms by (simp add: run_sse_state_machine_def)
qed

theorem sse_chunking_invariant_witness:
  "framed_events framer_new [''data: a'', [LF], LF # ''data: b'' @ [LF, LF]]
     = framed_events framer_new [''data: a'' @ [LF, LF] @ ''data: b'' @ [LF, LF]]"
  using sse_chunking_invariant[of "[''data: a'', [LF], LF # ''data: b'' @ [LF, LF]]"
      "[''data: a'' @ [LF, LF] @ ''data: b'' @ [LF, LF]]"] by simp

section \<open>Usage is reported once\<close>

text \<open>What \<open>emit_final\<close> writes.\<close>

definition usage_part :: "sse_env \<Rightarrow> (u64 \<times> u64 \<times> u64 \<times> u64 \<times> u64) \<times> (string \<rightharpoonup> cache_hit_rate_stats) \<times> inner" where
  "usage_part env = (let s = env_stats env in
     ((sse_input_tokens s, sse_output_tokens s, sse_cache_read_input_tokens s,
       sse_cache_creation_input_tokens s, sse_inferred_cache_write_tokens s),
      sse_cache_hit_rates s, env_trackers env))"

lemma emit_final_emitted: "ss_emitted (fst (emit_final t0 t1 p))"
  by (cases p) (auto simp: emit_final_def Let_def)

lemma emit_final_once: "ss_emitted st \<Longrightarrow> emit_final t0 t1 (st, env) = (st, env)"
  by (simp add: emit_final_def)

lemma absorb_emitted [simp]: "ss_emitted (absorb_usage u st) = ss_emitted st"
  "ss_kind (absorb_usage u st) = ss_kind st" "ss_session (absorb_usage u st) = ss_session st"
  "ss_emitted (absorb_opt x st) = ss_emitted st" "ss_kind (absorb_opt x st) = ss_kind st"
  "ss_session (absorb_opt x st) = ss_session st"
  by (simp_all add: absorb_usage_def absorb_opt_def Let_def split: option.splits)

lemma usage_part_frame [simp]:
  "usage_part (env\<lparr>env_stats := record_ccr_stream_tool_call (env_stats env)\<rparr>) = usage_part env"
  "usage_part (env\<lparr>env_stats := record_service_tier t (env_stats env)\<rparr>) = usage_part env"
  "usage_part (env\<lparr>env_stats := record_response_status t (env_stats env)\<rparr>) = usage_part env"
  by (simp_all add: usage_part_def record_ccr_stream_tool_call_def record_service_tier_def
      record_response_status_def Let_def)

text \<open>A step either leaves the usage alone, or is the first to emit.\<close>

lemma apply_event_usage:
  assumes "apply_event S t0 t1 e (st, env) = (st', env')"
  shows "(ss_emitted st \<longrightarrow> ss_emitted st' \<and> usage_part env' = usage_part env)
    \<and> (\<not> ss_emitted st' \<longrightarrow> usage_part env' = usage_part env)"
proof -
  have emit: "(ss_emitted x \<longrightarrow> ss_emitted x' \<and> usage_part y' = usage_part y)
      \<and> (\<not> ss_emitted x' \<longrightarrow> usage_part y' = usage_part y)"
    if "emit_final t0 t1 (x, y) = (x', y')" for x y x' y'
    using that emit_final_emitted[of t0 t1 "(x, y)"] emit_final_once[of x t0 t1 y] by auto
  show ?thesis
  proof (cases "is_done_sentinel e")
    case True
    then show ?thesis using assms by (simp add: apply_event_def)
  next
    case live: False
    show ?thesis
    proof (cases "Option.bind (data_str e) (sd_value S)")
      case None
      then show ?thesis using assms live unfolding apply_event_def by simp
    next
      case v: (Some v)
    define env1 where "env1 = (if ccr_stream_tool_call_detected (ss_kind st) v
        then env\<lparr>env_stats := record_ccr_stream_tool_call (env_stats env)\<rparr> else env)"
    have env1: "usage_part env1 = usage_part env" by (simp add: env1_def)
    show ?thesis
    proof (cases "ss_kind st")
      case SseOpenAiChat
      then have "apply_chat t0 t1 v (st, env1) = (st', env')"
        using assms v live by (simp add: apply_event_def env1_def Let_def)
      then show ?thesis using emit[of "absorb_usage _ st" env1 st' env'] env1
        by (auto simp: apply_chat_def split: option.splits)
    next
      case SseOpenAiResponses
      then have "apply_responses t0 t1 (event_name e) v (st, env1) = (st', env')"
        using assms v live by (simp add: apply_event_def env1_def Let_def)
      then show ?thesis using emit env1
        by (auto simp: apply_responses_def Let_def split: option.splits dest!: emit)
    next
      case SseAnthropic
      then have "apply_anthropic t0 t1 (event_name e) v (st, env1) = (st', env')"
        using assms v live by (simp add: apply_event_def env1_def Let_def)
      then show ?thesis using emit[of st env1 st' env'] env1
        by (auto simp: apply_anthropic_def Let_def split: option.splits if_splits)
    qed
    qed
  qed
qed

lemma apply_steps_Nil [simp]: "apply_steps S [] p = p"
  by (simp add: apply_steps_def)

lemma apply_steps_snoc:
  "apply_steps S (xs @ [(t0, t1, e)]) p = apply_event S t0 t1 e (apply_steps S xs p)"
  by (simp add: apply_steps_def)

lemma apply_steps_append: "apply_steps S (xs @ ys) p = apply_steps S ys (apply_steps S xs p)"
  by (simp add: apply_steps_def)

lemma apply_steps_usage:
  "(ss_emitted (fst p) \<longrightarrow> ss_emitted (fst (apply_steps S xs p)) \<and> usage_part (snd (apply_steps S xs p)) = usage_part (snd p))
   \<and> (\<not> ss_emitted (fst (apply_steps S xs p)) \<longrightarrow> usage_part (snd (apply_steps S xs p)) = usage_part (snd p))"
proof (induction xs rule: rev_induct)
  case (snoc x xs)
  obtain t0 t1 e where x: "x = (t0, t1, e)" by (cases x)
  obtain st env where mid: "apply_steps S xs p = (st, env)" by fastforce
  obtain st' env' where step: "apply_event S t0 t1 e (st, env) = (st', env')" by fastforce
  show ?case using snoc apply_event_usage[OF step] by (auto simp: x apply_steps_snoc mid step)
qed simp

text \<open>
  C23: A stream reports its usage at most once. Along any run there is one step at which the
  token counters, hit rates and session trackers may change: before it they are those of the
  start, from it on those of the end.
\<close>

theorem sse_usage_once:
  "\<exists>k. \<forall>n \<le> length xs. usage_part (snd (apply_steps S (take n xs) (st, env))) =
     (if n < k then usage_part env else usage_part (snd (apply_steps S xs (st, env))))"
proof -
  define em where "em n = ss_emitted (fst (apply_steps S (take n xs) (st, env)))" for n
  define k where "k = (if \<exists>n \<le> length xs. em n then LEAST n. n \<le> length xs \<and> em n else length xs)"
  have pre: "usage_part (snd (apply_steps S (take n xs) (st, env))) = usage_part env" if "\<not> em n" for n
    using apply_steps_usage[of "(st, env)" S "take n xs"] that by (simp add: em_def)
  have post: "usage_part (snd (apply_steps S (take n xs) (st, env))) = usage_part (snd (apply_steps S xs (st, env)))"
    if "em n" for n
  proof -
    have "apply_steps S xs (st, env) = apply_steps S (drop n xs) (apply_steps S (take n xs) (st, env))"
      by (metis append_take_drop_id apply_steps_append)
    then show ?thesis
      using apply_steps_usage[of "apply_steps S (take n xs) (st, env)" S "drop n xs"] that
      by (simp add: em_def)
  qed
  have mono: "em n" if "em m" "m \<le> n" for m n
  proof -
    have "take n xs = take m xs @ take (n - m) (drop m xs)"
      using that(2) by (metis le_add_diff_inverse take_add)
    then show ?thesis
      using apply_steps_usage[of "apply_steps S (take m xs) (st, env)" S "take (n - m) (drop m xs)"] that(1)
      by (simp add: em_def apply_steps_append)
  qed
  show ?thesis
  proof (cases "\<exists>n \<le> length xs. em n")
    case True
    then have least: "k \<le> length xs \<and> em k" and below: "n \<le> length xs \<Longrightarrow> n < k \<Longrightarrow> \<not> em n" for n
      unfolding k_def using LeastI_ex[of "\<lambda>n. n \<le> length xs \<and> em n"]
        not_less_Least[of n "\<lambda>n. n \<le> length xs \<and> em n"] by auto
    have "usage_part (snd (apply_steps S (take n xs) (st, env))) =
       (if n < k then usage_part env else usage_part (snd (apply_steps S xs (st, env))))" if "n \<le> length xs" for n
      using that below[of n] mono[of k n] least pre[of n] post[of n] by (cases "n < k") auto
    then show ?thesis by blast
  next
    case False
    then have "usage_part (snd (apply_steps S (take n xs) (st, env))) = usage_part env" if "n \<le> length xs" for n
      using pre that by blast
    from this this[of "length xs"] show ?thesis by (intro exI[of _ "length xs"]) simp
  qed
qed

definition empty_env :: sse_env where
  "empty_env = \<lparr>env_stats = stats_default, env_trackers = inner_default\<rparr>"

theorem sse_usage_once_witness:
  "\<exists>k. usage_part (snd (apply_steps demo_serde (take 0 [(1 :: nat, 2 :: nat, \<lparr>event_name = None, event_data = ''x''\<rparr>)])
      (sse_state_new SseAnthropic None, empty_env))) =
     (if (0 :: nat) < k then usage_part empty_env else usage_part (snd (apply_steps demo_serde
      [(1 :: nat, 2 :: nat, \<lparr>event_name = None, event_data = ''x''\<rparr>)] (sse_state_new SseAnthropic None, empty_env))))"
proof -
  let ?xs = "[(1 :: nat, 2 :: nat, \<lparr>event_name = None, event_data = ''x''\<rparr>)]"
  obtain k :: nat where "\<forall>n \<le> length ?xs.
      usage_part (snd (apply_steps demo_serde (take n ?xs) (sse_state_new SseAnthropic None, empty_env))) =
      (if n < k then usage_part empty_env
       else usage_part (snd (apply_steps demo_serde ?xs (sse_state_new SseAnthropic None, empty_env))))"
    using sse_usage_once[of ?xs demo_serde "sse_state_new SseAnthropic None" empty_env] by (elim exE)
  from this[rule_format, OF le0] show ?thesis by (rule exI)
qed

section \<open>The response status\<close>

definition event_status :: "serde \<Rightarrow> sse_event \<Rightarrow> string option" where
  "event_status S e =
     (if is_done_sentinel e then None
      else Option.bind (Option.bind (data_str e) (sd_value S))
             (\<lambda>v. terminal_status (unwrap_or [] (option_or (get_str ''type'' v) (event_name e)))))"

lemma status_counts_frame [frame, simp]:
  "response_status_counts (record_sse_usage a b c d s) = response_status_counts s"
  "response_status_counts (record_inferred_cache_write_tokens n s) = response_status_counts s"
  "response_status_counts (record_sse_cache_hit_rate p r s) = response_status_counts s"
  "response_status_counts (record_ccr_stream_tool_call s) = response_status_counts s"
  "response_status_counts (record_service_tier t s) = response_status_counts s"
  by (simp_all add: record_sse_usage_def record_inferred_cache_write_tokens_def
      record_sse_cache_hit_rate_def record_ccr_stream_tool_call_def record_service_tier_def Let_def)

lemma emit_final_status:
  "ss_last_status (fst (emit_final t0 t1 (st, env))) = ss_last_status st"
  "ss_kind (fst (emit_final t0 t1 (st, env))) = ss_kind st"
  "response_status_counts (env_stats (snd (emit_final t0 t1 (st, env)))) = response_status_counts (env_stats env)"
  by (simp_all add: emit_final_def Let_def)

lemma absorb_status [simp]: "ss_last_status (absorb_usage u st) = ss_last_status st"
  "ss_last_status (absorb_opt x st) = ss_last_status st"
  by (simp_all add: absorb_usage_def absorb_opt_def Let_def split: option.splits)

lemma apply_event_status:
  "ss_kind (fst (apply_event S t0 t1 e (st, env))) = ss_kind st
   \<and> response_status_counts (env_stats (snd (apply_event S t0 t1 e (st, env)))) = response_status_counts (env_stats env)
   \<and> (ss_kind st = SseOpenAiResponses \<longrightarrow>
        ss_last_status (fst (apply_event S t0 t1 e (st, env))) = option_or (event_status S e) (ss_last_status st))"
proof (cases "is_done_sentinel e")
  case True
  then show ?thesis by (simp add: apply_event_def event_status_def)
next
  case live: False
  show ?thesis
  proof (cases "Option.bind (data_str e) (sd_value S)")
    case None
    then show ?thesis using live unfolding apply_event_def event_status_def by simp
  next
    case v: (Some v)
    define env1 where "env1 = (if ccr_stream_tool_call_detected (ss_kind st) v
        then env\<lparr>env_stats := record_ccr_stream_tool_call (env_stats env)\<rparr> else env)"
    have env1: "response_status_counts (env_stats env1) = response_status_counts (env_stats env)"
      by (simp add: env1_def)
    have step: "apply_event S t0 t1 e (st, env) = (case ss_kind st of
          SseOpenAiChat \<Rightarrow> apply_chat t0 t1 v (st, env1)
        | SseOpenAiResponses \<Rightarrow> apply_responses t0 t1 (event_name e) v (st, env1)
        | SseAnthropic \<Rightarrow> apply_anthropic t0 t1 (event_name e) v (st, env1))"
      unfolding env1_def using v live by (simp add: apply_event_def Let_def)
    show ?thesis
    proof (cases "ss_kind st")
      case SseOpenAiChat
      then show ?thesis unfolding step
        by (simp add: apply_chat_def emit_final_status env1 split: option.splits)
    next
      case SseOpenAiResponses
      then show ?thesis using v live unfolding step event_status_def
        by (cases "terminal_status (unwrap_or [] (option_or (get_str ''type'' v) (event_name e)))")
          (simp_all add: apply_responses_def emit_final_status env1 Let_def split: option.splits)
    next
      case SseAnthropic
      then show ?thesis unfolding step
        by (simp add: apply_anthropic_def emit_final_status env1 Let_def split: option.splits)
    qed
  qed
qed

lemma apply_steps_status:
  "ss_kind (fst (apply_steps S xs p)) = ss_kind (fst p)
   \<and> response_status_counts (env_stats (snd (apply_steps S xs p))) = response_status_counts (env_stats (snd p))
   \<and> (ss_kind (fst p) = SseOpenAiResponses \<longrightarrow> ss_last_status (fst p) = None \<longrightarrow>
        ss_last_status (fst (apply_steps S xs p)) =
          (case List.map_filter (\<lambda>(t0, t1, e). event_status S e) xs of [] \<Rightarrow> None | ss \<Rightarrow> Some (last ss)))"
proof (induction xs rule: rev_induct)
  case Nil
  then show ?case by (simp add: map_filter_def)
next
  case (snoc x xs)
  obtain t0 t1 e where x: "x = (t0, t1, e)" by (cases x)
  obtain st env where mid: "apply_steps S xs p = (st, env)" by fastforce
  show ?case
    using snoc apply_event_status[of S t0 t1 e st env]
    by (cases "event_status S e")
      (auto simp: x apply_steps_snoc mid map_filter_def split: list.splits)
qed

text \<open>
  The terminal status is counted once, at the end. A Responses stream counts exactly the
  last \<open>response.completed\<close>, \<open>failed\<close> or \<open>incomplete\<close> event it carried, and nothing when it
  closes without one; other streams never count a status.
\<close>

theorem sse_status_counted:
  "response_status_counts (env_stats (run_sse_state_machine S clock kind session chunks env)) =
     (let seen = List.map_filter (event_status S) (framed_events framer_new chunks);
          counts = response_status_counts (env_stats env)
      in if kind = SseOpenAiResponses \<and> seen \<noteq> [] then bump (last seen) counts else counts)"
proof -
  let ?es = "framed_events framer_new chunks"
  have seen: "List.map_filter (\<lambda>(t0, t1, e). event_status S e) (timed clock es) = List.map_filter (event_status S) es" for es
    by (simp add: timed_def map_filter_def filter_map comp_def split_beta enumerate_eq_zip)
       (induction es rule: rev_induct; simp)
  have new: "ss_kind (sse_state_new kind session) = kind" "ss_last_status (sse_state_new kind session) = None"
    by (simp_all add: sse_state_new_def)
  obtain st env' where run: "apply_steps S (timed clock ?es) (sse_state_new kind session, env) = (st, env')"
    by fastforce
  have "ss_kind st = kind
      \<and> response_status_counts (env_stats env') = response_status_counts (env_stats env)
      \<and> (kind = SseOpenAiResponses \<longrightarrow> ss_last_status st =
           (case List.map_filter (event_status S) ?es of [] \<Rightarrow> None | ss \<Rightarrow> Some (last ss)))"
    using apply_steps_status[of S "timed clock ?es" "(sse_state_new kind session, env)"]
    unfolding run fst_conv snd_conv new seen by blast
  then show ?thesis
    by (auto simp: run_sse_state_machine_def run finish_def Let_def record_response_status_def
        split: list.splits)
qed

end
