(* ===== verification/Proxy_Headers.thy ===== *)
theory Proxy_Headers
  imports Sse Request
begin

text \<open>
  The stateless parts of \<open>src/proxy.rs\<close>: request classification, authentication mode, the
  headers sent upstream and back, request ids, base64url and the ChatGPT account id.
\<close>

section \<open>Routing\<close>

datatype upstream_provider = UpstreamOpenAi | UpstreamAnthropic

datatype compression_target =
  TargetOpenAiChatCompletions | TargetOpenAiResponses | TargetAnthropicMessages
  | TargetAnthropicMessageBatches

datatype compression_mode = ModeCcr | ModePassthrough | ModeOff

definition mode_parse :: "string \<Rightarrow> hr_error + compression_mode" where
  "mode_parse v =
     (let other = to_ascii_lowercase (trim v) in
      if other \<in> {''ccr'', ''compress'', ''compression'', ''on'', ''auto''} then Inr ModeCcr
      else if other \<in> {''passthrough'', ''pass-through'', ''pass''} then Inr ModePassthrough
      else if other \<in> {''off'', ''none'', ''disabled'', ''false''} then Inr ModeOff
      else Inl (''unsupported compression mode: '' @ other @ ''; expected ccr, passthrough, or off''))"

definition allows_compression :: "compression_mode \<Rightarrow> bool" where
  "allows_compression m \<longleftrightarrow> m = ModeCcr"

record request_class =
  rq_provider :: upstream_provider
  rq_target :: "compression_target option"
  rq_skipped_reason :: "string option"

definition skipped_reason_for_path :: "string \<Rightarrow> compression_target option \<Rightarrow> string option" where
  "skipped_reason_for_path path target =
     (if target \<noteq> None then None
      else if path = ''/v1/retrieve'' \<or> path = ''/v1/retrieve/stats'' \<or> path = ''/v1/retrieve/tool_call''
           \<or> starts_with ''/v1/retrieve/'' path \<or> path = ''/v1/compress''
      then Some ''reserved_proxy_endpoint''
      else if path \<in> {''/healthz'', ''/healthz/upstream'', ''/livez'', ''/readyz'', ''/health'',
                       ''/metrics'', ''/stats''}
      then Some ''reserved_proxy_endpoint''
      else if path = ''/v1/conversations'' \<or> starts_with ''/v1/conversations/'' path
      then Some ''conversations_passthrough''
      else Some ''non_target_path'')"

definition is_messages_path :: "string \<Rightarrow> bool" where
  "is_messages_path path \<longleftrightarrow> path = ''/v1/messages'' \<or> starts_with ''/v1/messages/'' path"

definition is_responses_path :: "string \<Rightarrow> bool" where
  "is_responses_path path \<longleftrightarrow>
     path \<in> {''/v1/responses'', ''/v1/codex/responses'', ''/backend-api/responses'',
             ''/backend-api/codex/responses''}"

definition target_of_path :: "string \<Rightarrow> compression_target option" where
  "target_of_path path =
     (if path = ''/v1/chat/completions'' then Some TargetOpenAiChatCompletions
      else if is_responses_path path then Some TargetOpenAiResponses
      else if path = ''/v1/messages/batches'' then Some TargetAnthropicMessageBatches
      else if path = ''/v1/messages'' then Some TargetAnthropicMessages
      else None)"

definition classify_request :: "string \<Rightarrow> string \<Rightarrow> request_class" where
  "classify_request http_method path =
     (let provider = (if is_messages_path path then UpstreamAnthropic else UpstreamOpenAi) in
      if http_method \<noteq> ''POST'' then
        \<lparr>rq_provider = provider, rq_target = None, rq_skipped_reason = Some ''non_post_method''\<rparr>
      else
        let target = target_of_path path in
        \<lparr>rq_provider = provider, rq_target = target,
         rq_skipped_reason = skipped_reason_for_path path target\<rparr>)"

definition media_type :: "string \<Rightarrow> string" where
  "media_type v = trim (hd (split_on (\<lambda>c. c = CHR '';'') v))"

definition has_media_type :: "http_lib \<Rightarrow> header_map \<Rightarrow> string \<Rightarrow> bool" where
  "has_media_type H hs expected \<longleftrightarrow>
     (case header_str H ''content-type'' hs of
        Some v \<Rightarrow> eq_ignore_ascii_case (media_type v) expected | None \<Rightarrow> False)"

definition is_application_json :: "http_lib \<Rightarrow> header_map \<Rightarrow> bool" where
  "is_application_json H hs = has_media_type H hs ''application/json''"

definition sse_stream_kind :: "http_lib \<Rightarrow> header_map \<Rightarrow> string \<Rightarrow> sse_kind option" where
  "sse_stream_kind H hs request_path =
     (if \<not> has_media_type H hs ''text/event-stream'' then None
      else if is_messages_path request_path then Some SseAnthropic
      else if request_path = ''/v1/chat/completions'' then Some SseOpenAiChat
      else if is_responses_path request_path then Some SseOpenAiResponses
      else None)"

definition record_rate_limit_headers :: "http_lib \<Rightarrow> header_map \<Rightarrow> string \<Rightarrow> stats \<Rightarrow> stats" where
  "record_rate_limit_headers H hs request_path s =
     (let snapshot = extract_rate_limit_snapshot H hs in
      if is_messages_path request_path then record_rate_limit_snapshot ''anthropic'' snapshot s
      else if request_path = ''/v1/chat/completions'' then
        record_rate_limit_snapshot ''openai_chat'' snapshot s
      else if is_responses_path request_path then
        record_rate_limit_snapshot ''openai_responses'' snapshot s
      else s)"

section \<open>Request ids\<close>

fun dec :: "nat \<Rightarrow> string" where
  "dec n = (if n < 10 then [char_of (48 + n)] else dec (n div 10) @ [char_of (48 + n mod 10)])"

declare dec.simps [simp del]

definition generate_request_id :: "nat \<Rightarrow> u64 \<Rightarrow> string \<times> u64" where
  "generate_request_id nanos counter =
     (''hr-'' @ dec nanos @ ''-'' @ dec (unat counter), counter + 1)"

definition nonblank_header :: "http_lib \<Rightarrow> string \<Rightarrow> header_map \<Rightarrow> string option" where
  "nonblank_header H name hs = option_filter (\<lambda>v. trim v \<noteq> []) (header_str H name hs)"

definition ensure_request_id :: "http_lib \<Rightarrow> nat \<Rightarrow> header_map \<Rightarrow> u64 \<Rightarrow> string \<times> u64" where
  "ensure_request_id H nanos hs counter =
     (case nonblank_header H ''x-request-id'' hs of
        Some v \<Rightarrow> (v, counter)
      | None \<Rightarrow> generate_request_id nanos counter)"

definition upstream_request_id :: "http_lib \<Rightarrow> header_map \<Rightarrow> string option" where
  "upstream_request_id H hs =
     option_filter (\<lambda>v. trim v \<noteq> [])
       (Option.bind (option_or (header_get ''request-id'' hs) (header_get ''x-request-id'' hs)) (hv_to_str H))"

section \<open>Authentication\<close>

definition SUBSCRIPTION_AGENTS :: "string list" where
  "SUBSCRIPTION_AGENTS = [''claude-cli/'', ''claude-code/'', ''codex-cli/'', ''cursor/'',
     ''claude-vscode/'', ''github-copilot/'', ''anthropic-cli/'', ''antigravity/'']"

definition bearer_auth_mode :: "string \<Rightarrow> request_auth_mode option" where
  "bearer_auth_mode token =
     (if starts_with ''sk-ant-oat-'' token then Some OAuth
      else if starts_with ''sk-ant-api'' token \<or> starts_with ''sk-'' token then Some Payg
      else if length (split_on (\<lambda>c. c = CHR ''.'') token) \<ge> 3 then Some OAuth
      else None)"

text \<open>Both arms of the final key test give \<open>Payg\<close>.\<close>

definition classify_auth_mode :: "http_lib \<Rightarrow> header_map \<Rightarrow> request_auth_mode" where
  "classify_auth_mode H hs =
     (let user_agent = unwrap_or [] (map_option to_ascii_lowercase (header_str H ''user-agent'' hs)) in
      if \<exists>agent \<in> set SUBSCRIPTION_AGENTS. contains agent user_agent then Subscription
      else
        let auth = unwrap_or [] (header_str H ''authorization'' hs);
            decided = (case strip_prefix ''Bearer '' auth of
                         Some token \<Rightarrow> bearer_auth_mode token
                       | None \<Rightarrow> if auth \<noteq> [] then Some OAuth else None)
        in (case decided of
              Some m \<Rightarrow> m
            | None \<Rightarrow>
                if header_get ''x-api-key'' hs \<noteq> None \<or> header_get ''x-goog-api-key'' hs \<noteq> None
                then Payg else Payg))"

definition base64_url_value :: "char \<Rightarrow> nat option" where
  "base64_url_value c =
     (let b = byte c in
      if 65 \<le> b \<and> b \<le> 90 then Some (b - 65)
      else if 97 \<le> b \<and> b \<le> 122 then Some (b - 97 + 26)
      else if 48 \<le> b \<and> b \<le> 57 then Some (b - 48 + 52)
      else if c = CHR ''-'' \<or> c = CHR ''+'' then Some 62
      else if c = CHR ''_'' \<or> c = CHR ''/'' then Some 63
      else None)"

text \<open>
  \<open>buffer: u32\<close> and \<open>bits: u8\<close> stay below \<open>2 ^ 13\<close> and 14, so no shift loses a bit.
\<close>

unbundle bit_operations_syntax

fun decode_base64_loop :: "string \<Rightarrow> nat \<Rightarrow> nat \<Rightarrow> string \<Rightarrow> string option" where
  "decode_base64_loop [] buffer bits out = Some out"
| "decode_base64_loop (c # cs) buffer bits out =
     (if c = CHR ''='' then Some out
      else (case base64_url_value c of
              None \<Rightarrow> None
            | Some v \<Rightarrow>
                let buffer = (push_bit 6 buffer) OR v; bits = bits + 6 in
                if bits \<ge> 8 then
                  let bits = bits - 8;
                      out = out @ [char_of ((drop_bit bits buffer) AND 255)]
                  in decode_base64_loop cs (buffer AND (2 ^ bits - 1)) bits out
                else decode_base64_loop cs buffer bits out))"

definition decode_base64_url :: "string \<Rightarrow> string option" where
  "decode_base64_url input = decode_base64_loop input 0 0 []"

definition chatgpt_account_id_from_authorization :: "http_lib \<Rightarrow> serde \<Rightarrow> header_map \<Rightarrow> string option" where
  "chatgpt_account_id_from_authorization H S hs =
     (if header_get ''chatgpt-account-id'' hs \<noteq> None then None
      else case Option.bind (header_str H ''authorization'' hs) (split_once (CHR '' '')) of
        None \<Rightarrow> None
      | Some (scheme, token) \<Rightarrow>
          if \<not> eq_ignore_ascii_case scheme ''bearer'' then None
          else
            let parts = split_on (\<lambda>c. c = CHR ''.'') token in
            if length parts < 2 then None
            else
              option_filter (\<lambda>a. a \<noteq> [])
                (map_option trim
                  (Option.bind (Option.bind (decode_base64_url (parts ! 1)) (sd_value S))
                    (get_in_str ''https://api.openai.com/auth'' ''chatgpt_account_id''))))"

section \<open>Headers upstream and back\<close>

definition compression_bypass_requested :: "http_lib \<Rightarrow> header_map \<Rightarrow> bool" where
  "compression_bypass_requested H hs \<longleftrightarrow>
     (case header_str H ''x-headroom-bypass'' hs of
        Some v \<Rightarrow> eq_ignore_ascii_case (trim v) ''true'' | None \<Rightarrow> False)
     \<or> (case header_str H ''x-headroom-mode'' hs of
          Some v \<Rightarrow> eq_ignore_ascii_case (trim v) ''passthrough'' | None \<Rightarrow> False)"

definition forwarded_for :: "http_lib \<Rightarrow> header_map \<Rightarrow> string option \<Rightarrow> string option" where
  "forwarded_for H hs client_ip =
     (case (nonblank_header H ''x-forwarded-for'' hs, client_ip) of
        (Some existing, Some ip) \<Rightarrow> Some (existing @ '', '' @ ip)
      | (Some existing, None) \<Rightarrow> Some existing
      | (None, Some ip) \<Rightarrow> Some ip
      | (None, None) \<Rightarrow> None)"

definition connection_listed_headers :: "http_lib \<Rightarrow> header_map \<Rightarrow> string list" where
  "connection_listed_headers H hs =
     filter (\<lambda>v. v \<noteq> [])
       (map (\<lambda>v. to_ascii_lowercase (trim v))
         (concat (map (split_on (\<lambda>c. c = CHR '',''))
           (List.map_filter (hv_to_str H) (header_get_all ''connection'' hs)))))"

definition is_hop_by_hop :: "string \<Rightarrow> bool" where
  "is_hop_by_hop name \<longleftrightarrow>
     to_ascii_lowercase name \<in> {''connection'', ''keep-alive'', ''proxy-authenticate'',
       ''proxy-authorization'', ''te'', ''trailer'', ''trailers'', ''transfer-encoding'', ''upgrade''}"

definition is_request_drop_header :: "string \<Rightarrow> bool" where
  "is_request_drop_header name \<longleftrightarrow>
     is_hop_by_hop name \<or> name = ''host'' \<or> name = ''content-length''
     \<or> eq_ignore_ascii_case name ''x-request-id'' \<or> eq_ignore_ascii_case name ''x-forwarded-for''
     \<or> eq_ignore_ascii_case name ''x-forwarded-proto'' \<or> eq_ignore_ascii_case name ''x-forwarded-host''
     \<or> eq_ignore_ascii_case name ''x-headroom-bypass'' \<or> eq_ignore_ascii_case name ''x-headroom-mode''
     \<or> starts_with ''x-headroom-'' name"

definition is_response_drop_header :: "string \<Rightarrow> bool" where
  "is_response_drop_header name = is_hop_by_hop name"

definition opt_header :: "string \<Rightarrow> string option \<Rightarrow> header_map" where
  "opt_header name v = (case v of Some x \<Rightarrow> [(name, x)] | None \<Rightarrow> [])"

text \<open>The headers the proxy itself sets on the upstream request.\<close>

definition proxy_headers :: "http_lib \<Rightarrow> serde \<Rightarrow> header_map \<Rightarrow> string option \<Rightarrow> string \<Rightarrow> header_map" where
  "proxy_headers H S hs client_ip request_id =
     [(''x-request-id'', request_id), (''x-forwarded-proto'', ''http'')]
     @ opt_header ''x-forwarded-host'' (header_get ''host'' hs)
     @ opt_header ''x-forwarded-for'' (forwarded_for H hs client_ip)
     @ opt_header ''chatgpt-account-id'' (chatgpt_account_id_from_authorization H S hs)"

definition apply_headers ::
    "http_lib \<Rightarrow> serde \<Rightarrow> header_map \<Rightarrow> string option \<Rightarrow> string \<Rightarrow> header_map" where
  "apply_headers H S hs client_ip request_id =
     proxy_headers H S hs client_ip request_id
     @ filter (\<lambda>(name, v). \<not> is_request_drop_header name
         \<and> \<not> (\<exists>listed \<in> set (connection_listed_headers H hs). eq_ignore_ascii_case listed name)) hs"

definition insert_header :: "http_lib \<Rightarrow> string \<Rightarrow> string \<Rightarrow> header_map \<Rightarrow> header_map" where
  "insert_header H name v hs =
     (case hv_from_str H v of Some hv \<Rightarrow> header_insert name hv hs | None \<Rightarrow> hs)"

definition apply_compression_response_headers ::
    "http_lib \<Rightarrow> request_compression \<Rightarrow> header_map \<Rightarrow> header_map" where
  "apply_compression_response_headers H mutation hs =
     (let tokens_saved = rc_tokens_before mutation - rc_tokens_after mutation;
          hs = insert_header H ''x-headroom-tokens-before'' (dec (rc_tokens_before mutation)) hs;
          hs = insert_header H ''x-headroom-tokens-after'' (dec (rc_tokens_after mutation)) hs;
          hs = insert_header H ''x-headroom-tokens-saved'' (dec tokens_saved) hs;
          hs = (if rc_compressed mutation then insert_header H ''x-headroom-transforms'' ''ccr_live_zone'' hs
                else hs);
          hs = (if rc_hashes mutation \<noteq> []
                then insert_header H ''x-headroom-ccr-hashes'' (join '','' (rc_hashes mutation)) hs else hs)
      in (case rc_skipped_reason mutation of
            Some reason \<Rightarrow> insert_header H ''x-headroom-skipped-reason'' reason hs
          | None \<Rightarrow> hs))"

end
