(* ===== verification/Proxy_Headers_Safety.thy ===== *)
theory Proxy_Headers_Safety
  imports Proxy_Headers
begin

text \<open>
  Properties of routing, header forwarding, base64url and request ids.
\<close>

section \<open>Routing\<close>

fun target_provider :: "compression_target \<Rightarrow> upstream_provider" where
  "target_provider TargetOpenAiChatCompletions = UpstreamOpenAi"
| "target_provider TargetOpenAiResponses = UpstreamOpenAi"
| "target_provider TargetAnthropicMessages = UpstreamAnthropic"
| "target_provider TargetAnthropicMessageBatches = UpstreamAnthropic"

fun target_sse_kind :: "compression_target \<Rightarrow> sse_kind" where
  "target_sse_kind TargetOpenAiChatCompletions = SseOpenAiChat"
| "target_sse_kind TargetOpenAiResponses = SseOpenAiResponses"
| "target_sse_kind TargetAnthropicMessages = SseAnthropic"
| "target_sse_kind TargetAnthropicMessageBatches = SseAnthropic"

text \<open>
  Classification is total and consistent: a request has a compression target exactly when
  it has no reason to be skipped, only \<open>POST\<close> requests have one, the target's provider is the
  one the request is sent to, and an event stream answering a target is parsed by that
  target's machine.
\<close>

theorem classify_request_consistent:
  "(rq_target (classify_request m path) = None \<longleftrightarrow> rq_skipped_reason (classify_request m path) \<noteq> None)
   \<and> (case rq_target (classify_request m path) of
        None \<Rightarrow> True
      | Some t \<Rightarrow> m = ''POST'' \<and> rq_provider (classify_request m path) = target_provider t
          \<and> sse_stream_kind H hs path \<in> {None, Some (target_sse_kind t)})"
proof -
  have skip: "skipped_reason_for_path path t = None \<longleftrightarrow> t \<noteq> None" for t
    by (simp add: skipped_reason_for_path_def)
  have kinds: "target_of_path path = Some t \<Longrightarrow>
      (if is_messages_path path then UpstreamAnthropic else UpstreamOpenAi) = target_provider t
      \<and> sse_stream_kind H hs path \<in> {None, Some (target_sse_kind t)}" for t
    by (auto simp: target_of_path_def is_responses_path_def is_messages_path_def sse_stream_kind_def
        starts_with_def split: if_splits)
  show ?thesis
    using skip kinds by (auto simp: classify_request_def Let_def split: option.splits)
qed

section \<open>Forwarded headers\<close>

text \<open>
  What reaches the upstream under a header name: the proxy's own value for it, if it sets
  one, then - unless the name is dropped (hop-by-hop, host, length, request id, forwarding and
  \<open>x-headroom-*\<close> headers) or listed in \<open>Connection\<close> - every value the client sent, in order.
\<close>

theorem apply_headers_values:
  "header_get_all name (apply_headers H S hs ip rid) =
     header_get_all name (proxy_headers H S hs ip rid)
     @ (if is_request_drop_header name
           \<or> (\<exists>listed \<in> set (connection_listed_headers H hs). eq_ignore_ascii_case listed name)
        then [] else header_get_all name hs)"
proof -
  have "map snd (filter (\<lambda>(n, _). n = name) (filter (\<lambda>(n, v). P n) xs))
      = (if P name then map snd (filter (\<lambda>(n, _). n = name) xs) else [])" for P and xs :: header_map
    by (induction xs) auto
  from this[of "\<lambda>n. \<not> is_request_drop_header n
      \<and> \<not> (\<exists>listed \<in> set (connection_listed_headers H hs). eq_ignore_ascii_case listed n)" hs]
  show ?thesis by (auto simp: apply_headers_def header_get_all_def)
qed

text \<open>
  C37: No header of the connection itself and none of the proxy's controls leaves it: after
  \<open>apply_headers\<close> there is no hop-by-hop name, no \<open>Host\<close> or \<open>Content-Length\<close>, no
  \<open>x-headroom-*\<close> name, and the request id sent is the proxy's, once.
\<close>

theorem apply_headers_no_leak:
  "(\<forall>(name, v) \<in> set (apply_headers H S hs ip rid).
      \<not> is_hop_by_hop name \<and> name \<noteq> ''host'' \<and> name \<noteq> ''content-length''
      \<and> \<not> starts_with ''x-headroom-'' name)
   \<and> header_get_all ''x-request-id'' (apply_headers H S hs ip rid) = [rid]"
proof
  have lower: "to_ascii_lowercase s = s" if "\<forall>c \<in> set s. \<not> (65 \<le> byte c \<and> byte c \<le> 90)" for s
    using that unfolding to_ascii_lowercase_def by (intro map_idI) (auto simp: to_ascii_lower_def)
  have own: "name \<in> {''x-request-id'', ''x-forwarded-proto'', ''x-forwarded-host'', ''x-forwarded-for'', ''chatgpt-account-id''}"
    if "(name, v) \<in> set (proxy_headers H S hs ip rid)" for name v
    using that by (auto simp: proxy_headers_def opt_header_def split: option.splits)
  have safe: "\<not> is_hop_by_hop name \<and> name \<noteq> ''host'' \<and> name \<noteq> ''content-length'' \<and> \<not> starts_with ''x-headroom-'' name"
    if "name \<in> {''x-request-id'', ''x-forwarded-proto'', ''x-forwarded-host'', ''x-forwarded-for'', ''chatgpt-account-id''}" for name
    using that by (auto simp: is_hop_by_hop_def lower byte_def starts_with_def)
  show "\<forall>(name, v) \<in> set (apply_headers H S hs ip rid).
      \<not> is_hop_by_hop name \<and> name \<noteq> ''host'' \<and> name \<noteq> ''content-length'' \<and> \<not> starts_with ''x-headroom-'' name"
  proof (intro ballI, clarify)
    fix name v assume "(name, v) \<in> set (apply_headers H S hs ip rid)"
    then consider "(name, v) \<in> set (proxy_headers H S hs ip rid)" | "\<not> is_request_drop_header name"
      unfolding apply_headers_def by auto
    then show "\<not> is_hop_by_hop name \<and> name \<noteq> ''host'' \<and> name \<noteq> ''content-length'' \<and> \<not> starts_with ''x-headroom-'' name"
    proof cases
      case 1
      from safe[OF own[OF this]] show ?thesis .
    next
      case 2
      then show ?thesis unfolding is_request_drop_header_def by blast
    qed
  qed
  have drop: "is_request_drop_header ''x-request-id''"
    by (simp add: is_request_drop_header_def)
  have "header_get_all ''x-request-id'' (apply_headers H S hs ip rid)
      = header_get_all ''x-request-id'' (proxy_headers H S hs ip rid)"
    using drop
    by (auto simp: apply_headers_def header_get_all_def filter_empty_conv)
  also have "\<dots> = [rid]"
    by (auto simp: proxy_headers_def header_get_all_def opt_header_def split: option.splits)
  finally show "header_get_all ''x-request-id'' (apply_headers H S hs ip rid) = [rid]" .
qed

theorem apply_headers_no_leak_witness:
  "\<not> (\<exists>v. (''connection'', v) \<in> set (apply_headers \<lparr>hv_to_str = Some, hv_from_str = Some\<rparr> demo_serde
      [(''connection'', ''close''), (''x-a'', ''b'')] None ''r''))"
proof
  let ?hs = "apply_headers \<lparr>hv_to_str = Some, hv_from_str = Some\<rparr> demo_serde
      [(''connection'', ''close''), (''x-a'', ''b'')] None ''r''"
  assume "\<exists>v. (''connection'', v) \<in> set ?hs"
  then obtain v where "(''connection'', v) \<in> set ?hs" ..
  then have "\<not> is_hop_by_hop ''connection''"
    using conjunct1[OF apply_headers_no_leak[of "\<lparr>hv_to_str = Some, hv_from_str = Some\<rparr>" demo_serde
        "[(''connection'', ''close''), (''x-a'', ''b'')]" None "''r''"]] by blast
  then show False
    by (simp add: is_hop_by_hop_def to_ascii_lowercase_def to_ascii_lower_def byte_def)
qed

section \<open>base64url\<close>

text \<open>The number a list of digits stands for, most significant first.\<close>

definition big_endian :: "nat \<Rightarrow> nat list \<Rightarrow> nat" where
  "big_endian base = foldl (\<lambda>n d. n * base + d) 0"

lemma big_endian_snoc: "big_endian base (ds @ [d]) = big_endian base ds * base + d"
  by (simp add: big_endian_def)

text \<open>The digits before the first padding character, if all of them are base64url.\<close>

fun sextets :: "string \<Rightarrow> nat list option" where
  "sextets [] = Some []"
| "sextets (c # cs) =
     (if c = CHR ''='' then Some []
      else case base64_url_value c of
        None \<Rightarrow> None
      | Some v \<Rightarrow> map_option ((#) v) (sextets cs))"

lemma base64_url_value_bound: "base64_url_value c = Some v \<Longrightarrow> v < 64"
  by (auto simp: base64_url_value_def Let_def split: if_splits)

lemma shift_or: "(v :: nat) < 64 \<Longrightarrow> push_bit 6 b OR v = b * 64 + v"
proof -
  assume v: "v < 64"
  have "\<not> bit (push_bit 6 b) n \<or> \<not> bit v n" for n
  proof (cases "n < 6")
    case True
    then show ?thesis by (simp add: bit_push_bit_iff)
  next
    case False
    then have "(2 :: nat) ^ 6 \<le> 2 ^ n" by (intro power_increasing) auto
    then have "v < 2 ^ n" using v by simp
    then show ?thesis by (simp add: bit_iff_odd)
  qed
  then have "push_bit 6 b OR v = push_bit 6 b + v"
    by (metis (mono_tags, lifting) disjunctive_add)
  then show ?thesis by (simp add: push_bit_eq_mult)
qed

lemma and_255: "(n :: nat) AND 255 = n mod 256"
  using take_bit_eq_mask[of 8 n] by (simp add: take_bit_eq_mod mask_eq_exp_minus_1)

lemma and_ones: "(n :: nat) AND (2 ^ k - 1) = n mod 2 ^ k"
  using take_bit_eq_mask[of k n] by (simp add: take_bit_eq_mod mask_eq_exp_minus_1)

lemma big_endian_Cons: "big_endian base (d # ds) = d * base ^ length ds + big_endian base ds"
proof (induction ds rule: rev_induct)
  case (snoc x xs)
  have "big_endian base (d # xs @ [x]) = big_endian base (d # xs) * base + x"
    using big_endian_snoc[of base "d # xs" x] by simp
  then show ?case using snoc by (simp add: big_endian_snoc algebra_simps)
qed (simp add: big_endian_def)

lemma decode_none: "sextets cs = None \<Longrightarrow> decode_base64_loop cs buffer bits out = None"
  by (induction cs buffer bits out rule: decode_base64_loop.induct)
    (auto simp: Let_def split: if_splits option.splits)

lemma decode_loop:
  assumes "sextets cs = Some vs" "buffer < 2 ^ bits" "bits < 8"
  shows "\<exists>new. decode_base64_loop cs buffer bits out = Some (out @ new)
     \<and> length new = (bits + 6 * length vs) div 8
     \<and> big_endian 256 (map byte new)
         = (buffer * 64 ^ length vs + big_endian 64 vs) div 2 ^ ((bits + 6 * length vs) mod 8)"
  using assms
proof (induction cs arbitrary: buffer bits out vs)
  case Nil
  then show ?case by (simp add: big_endian_def)
next
  case (Cons c cs)
  show ?case
  proof (cases "c = CHR ''=''")
    case True
    then show ?thesis using Cons.prems by (simp add: big_endian_def)
  next
    case False
    then obtain v rest where v: "base64_url_value c = Some v" "sextets cs = Some rest" "vs = v # rest"
      using Cons.prems(1) by (auto split: option.splits)
    note vb = base64_url_value_bound[OF v(1)]
    define buf where "buf = buffer * 64 + v"
    have buf: "buf < 2 ^ (bits + 6)" "push_bit 6 buffer OR v = buf"
      using Cons.prems(2) vb shift_or[OF vb] by (simp_all add: buf_def power_add)
    have total: "buffer * 64 ^ length vs + big_endian 64 vs = buf * 64 ^ length rest + big_endian 64 rest"
      by (simp add: v(3) big_endian_Cons buf_def algebra_simps)
    show ?thesis
    proof (cases "bits + 6 \<ge> 8")
      case False
      have "buf < 2 ^ (bits + 6)" "bits + 6 < 8" using buf(1) False by auto
      note ih = Cons.IH[OF v(2) this, of out]
      have size: "bits + 6 * length vs = bits + 6 + 6 * length rest" using v(3) by simp
      have "decode_base64_loop (c # cs) buffer bits out = decode_base64_loop cs buf (bits + 6) out"
        using \<open>c \<noteq> _\<close> v False buf(2) by (simp add: Let_def)
      then show ?thesis using ih unfolding total size by simp
    next
      case True
      define b where "b = bits - 2"
      have b: "bits + 6 = b + 8" "b < 8" "bits + 6 - 8 = b" using True Cons.prems(3) by (auto simp: b_def)
      define hi where "hi = buf div 2 ^ b"
      define r where "r = buf mod 2 ^ b"
      have split: "buf = hi * 2 ^ b + r" "r < 2 ^ b"
        by (simp_all only: hi_def r_def div_mult_mod_eq) simp
      have hi: "hi < 256"
        using buf(1) unfolding hi_def b(1) by (simp add: power_add less_mult_imp_div_less mult.commute)
      obtain new where new: "decode_base64_loop cs r b (out @ [char_of hi]) = Some ((out @ [char_of hi]) @ new)"
        "length new = (b + 6 * length rest) div 8"
        "big_endian 256 (map byte new)
           = (r * 64 ^ length rest + big_endian 64 rest) div 2 ^ ((b + 6 * length rest) mod 8)"
        using Cons.IH[OF v(2) split(2) b(2), of "out @ [char_of hi]"] by blast
      have step: "decode_base64_loop (c # cs) buffer bits out = decode_base64_loop cs r b (out @ [char_of hi])"
        using \<open>c \<noteq> _\<close> v True buf(2) b hi
        by (simp add: Let_def and_255 and_ones[unfolded One_nat_def] drop_bit_eq_div hi_def r_def)
      let ?n = "b + 6 * length rest"
      have sizes: "bits + 6 * length vs = ?n + 8" using b(1) v(3) by simp
      have "2 ^ b * 64 ^ length rest = (2 :: nat) ^ ?n" by (simp add: power_add power_mult)
      also have "\<dots> = 2 ^ (8 * (?n div 8) + ?n mod 8)" by simp
      also have "\<dots> = 256 ^ length new * 2 ^ (?n mod 8)"
        unfolding new(2) power_add power_mult by simp
      finally have shift: "2 ^ b * 64 ^ length rest = 256 ^ length new * (2 :: nat) ^ (?n mod 8)" .
      have "buf * 64 ^ length rest + big_endian 64 rest
          = hi * 256 ^ length new * 2 ^ (?n mod 8) + (r * 64 ^ length rest + big_endian 64 rest)"
        unfolding split(1) using shift by (simp add: algebra_simps)
      then have "(buf * 64 ^ length rest + big_endian 64 rest) div 2 ^ (?n mod 8)
          = hi * 256 ^ length new + big_endian 256 (map byte new)"
        unfolding new(3) by (simp only: div_mult_self3 power_not_zero zero_neq_numeral not_False_eq_True)
      moreover have "big_endian 256 (map byte (char_of hi # new)) = hi * 256 ^ length new + big_endian 256 (map byte new)"
        using hi by (simp add: big_endian_Cons byte_def of_char_of)
      ultimately show ?thesis
        unfolding total sizes step using new(1,2)
        by (intro exI[of _ "char_of hi # new"]) simp
    qed
  qed
qed

text \<open>
  C38: base64url decoding. It succeeds exactly when every character before the padding is in
  the alphabet; \<open>n\<close> characters give \<open>6 * n div 8\<close> bytes, and read as a big-endian number
  those bytes are the number the characters spell, without its last \<open>6 * n mod 8\<close> bits.
\<close>

theorem decode_base64_url_spec:
  "case sextets input of
     None \<Rightarrow> decode_base64_url input = None
   | Some vs \<Rightarrow> \<exists>out. decode_base64_url input = Some out \<and> length out = 6 * length vs div 8
       \<and> big_endian 256 (map byte out) = big_endian 64 vs div 2 ^ (6 * length vs mod 8)"
  using decode_none[of input] decode_loop[of input _ 0 0 "[]"]
  by (auto simp: decode_base64_url_def split: option.splits)

section \<open>Request ids\<close>

lemma dec_digits: "c \<in> set (dec n) \<Longrightarrow> 48 \<le> byte c \<and> byte c \<le> 57"
proof (induction n rule: dec.induct)
  case (1 n)
  then show ?case by (subst (asm) (2) dec.simps) (auto simp: byte_def of_char_of split: if_splits)
qed

lemma dec_value: "fold (\<lambda>c n. 10 * n + (byte c - 48)) (dec n) 0 = n"
proof (induction n rule: dec.induct)
  case (1 n)
  then show ?case by (subst dec.simps) (simp add: byte_def of_char_of)
qed

lemma dec_nonempty: "dec n \<noteq> []"
  by (subst dec.simps) simp

lemma dec_inject: "dec m = dec n \<longleftrightarrow> m = n"
  by (metis dec_value)

text \<open>
  Decimal printing and parsing. The digits a number prints as read back as the number, so
  counters sent in headers parse to what was sent.
\<close>

theorem parse_dec_roundtrip:
  "parse_i64 (dec n) = (if n < 2 ^ 63 then Some (int n) else None)"
proof -
  obtain c cs where c: "dec n = c # cs" using dec_nonempty by (cases "dec n") auto
  then have "c \<noteq> CHR ''-''" "c \<noteq> CHR ''+''"
    using dec_digits[of c n] by (auto simp: byte_def)
  moreover have "digits_value (dec n) = Some n"
    using dec_digits dec_nonempty dec_value by (simp add: digits_value_def)
  ultimately show ?thesis unfolding c by (simp add: parse_i64_def starts_with_def)
qed

text \<open>
  Generated request ids are unique: two requests of one process, whatever the clock says,
  get different ids as long as the counter has not wrapped around to the same value.
\<close>

theorem generated_ids_distinct:
  "fst (generate_request_id t c) = fst (generate_request_id t' c') \<longleftrightarrow> t = t' \<and> c = c'"
proof -
  have no_dash: "CHR ''-'' \<notin> set (dec n)" for n
    using dec_digits[of "CHR ''-''" n] by (auto simp: byte_def)
  have "dec t @ CHR ''-'' # dec (unat c) = dec t' @ CHR ''-'' # dec (unat c') \<longleftrightarrow>
      dec t = dec t' \<and> dec (unat c) = dec (unat c')"
    using split_once_Some[of "CHR ''-''" _ "dec t" "dec (unat c)"]
      split_once_Some[of "CHR ''-''" _ "dec t'" "dec (unat c')"] no_dash[of t] no_dash[of t']
    by (metis option.inject prod.inject)
  then show ?thesis by (simp add: generate_request_id_def dec_inject word_unat_eq_iff)
qed

end

