(* ===== verification/Server.thy ===== *)
theory Server
  imports Proxy_Headers
begin

text \<open>
  What the handlers of \<open>src/proxy.rs\<close> share: the requests and replies of the two HTTP
  libraries, the state of one proxy process, and the libraries and configuration it runs
  with. A body is the list of its chunks, a failed read ending it. The upstreams are a
  function on a state of type \<open>'u\<close>; so is every effect of a request sent to them. It stands
  for the HTTP client as well: an error is also what \<open>send\<close> returns for a request whose headers
  the client could not encode, so a request that is sent is one handed to the client.
\<close>

section \<open>Requests, replies, errors\<close>

text \<open>\<open>Box<dyn Error>\<close>: a \<open>reqwest::Error\<close> knows whether it is a timeout.\<close>

datatype proxy_error = PlainError hr_error | NetError bool hr_error

fun error_text :: "proxy_error \<Rightarrow> hr_error" where
  "error_text (PlainError m) = m"
| "error_text (NetError timeout m) = m"

type_synonym body_chunks = "(proxy_error + string) list"

record http_request =
  hq_method :: string
  hq_url :: string
  hq_headers :: header_map
  hq_chunks :: body_chunks

record http_reply =
  hp_status :: nat
  hp_headers :: header_map
  hp_chunks :: body_chunks

record client_request =
  cq_method :: string
  cq_path :: string
  cq_query :: "string option"
  cq_headers :: header_map
  cq_chunks :: body_chunks

record client_response =
  rs_status :: nat
  rs_headers :: header_map
  rs_chunks :: body_chunks

text \<open>\<open>response.bytes()\<close>: the whole body, or the error that ended it.\<close>

fun read_all :: "body_chunks \<Rightarrow> proxy_error + string" where
  "read_all [] = Inr []"
| "read_all (Inl e # cs) = Inl e"
| "read_all (Inr c # cs) = (case read_all cs of Inl e \<Rightarrow> Inl e | Inr rest \<Rightarrow> Inr (c @ rest))"

section \<open>Libraries and configuration\<close>

text \<open>
  The texts of errors the libraries raise, and of a status, are theirs: \<open>ev_ser_error\<close>,
  \<open>ev_parse_error\<close>, \<open>ev_limit_error\<close>, \<open>ev_status_text\<close>. \<open>str::to_lowercase\<close> needs the Unicode
  tables: \<open>ev_lowercase\<close>. A clock is the sequence of its readings.
\<close>

text \<open>The operations of the \<open>url\<close> crate the proxy uses, on printed URLs.\<close>

record url_lib =
  url_path :: "string \<Rightarrow> string"
  url_scheme :: "string \<Rightarrow> string"
  url_set_path :: "string \<Rightarrow> string \<Rightarrow> string"
  url_set_query :: "string option \<Rightarrow> string \<Rightarrow> string"
  url_set_scheme :: "string \<Rightarrow> string \<Rightarrow> string option"

record ('s, 'u) server_env =
  ev_serde :: serde
  ev_http :: http_lib
  ev_url :: url_lib
  ev_sha256 :: "string \<Rightarrow> string"
  ev_md5 :: "string \<Rightarrow> string"
  ev_lowercase :: "string \<Rightarrow> string"
  ev_ser_error :: "json \<Rightarrow> hr_error"
  ev_parse_error :: "string \<Rightarrow> hr_error"
  ev_status_text :: "nat \<Rightarrow> string"
  ev_limit_error :: hr_error
  ev_ops :: "nat \<Rightarrow> 's ccr_store_ops"
  ev_instant :: "nat \<Rightarrow> nat"
  ev_wall :: "nat \<Rightarrow> nat"
  ev_send :: "http_request \<Rightarrow> 'u \<Rightarrow> (proxy_error + http_reply) \<times> 'u"
  ev_openai_upstream :: string
  ev_anthropic_upstream :: string
  ev_max_body_bytes :: nat
  ev_compression_enabled :: bool
  ev_compression_mode :: compression_mode
  ev_compress_user_text :: bool

section \<open>The process\<close>

record batch_context_entry =
  bc_batch_id :: string
  bc_contexts :: "(string \<times> json) list"
  bc_expires_at :: nat

text \<open>A spawned SSE parser: its kind, its session and the chunks of its stream.\<close>

record sse_task =
  st_kind :: sse_kind
  st_session :: "sse_session option"
  st_chunks :: "string list"

text \<open>
  Store and counters, session trackers, batch contexts, the request-id counter, the number
  of clock readings so far, the SSE parsers spawned, and the upstreams.
\<close>

record ('s, 'u) server =
  sv_world :: "'s world"
  sv_trackers :: inner
  sv_batches :: "batch_context_entry list"
  sv_counter :: u64
  sv_ticks :: nat
  sv_tasks :: "sse_task list"
  sv_net :: 'u

definition on_stats :: "(stats \<Rightarrow> stats) \<Rightarrow> ('s, 'u) server \<Rightarrow> ('s, 'u) server" where
  "on_stats f sv = sv\<lparr>sv_world := (sv_world sv)\<lparr>the_stats := f (the_stats (sv_world sv))\<rparr>\<rparr>"

text \<open>\<open>Instant::now()\<close> and \<open>SystemTime::now()\<close>\<close>

definition instant_now :: "('s, 'u) server_env \<Rightarrow> ('s, 'u) server \<Rightarrow> nat \<times> ('s, 'u) server" where
  "instant_now E sv = (ev_instant E (sv_ticks sv), sv\<lparr>sv_ticks := Suc (sv_ticks sv)\<rparr>)"

definition wall_now :: "('s, 'u) server_env \<Rightarrow> ('s, 'u) server \<Rightarrow> nat \<times> ('s, 'u) server" where
  "wall_now E sv = (ev_wall E (sv_ticks sv), sv\<lparr>sv_ticks := Suc (sv_ticks sv)\<rparr>)"

text \<open>
  The store's method table. A \<open>put\<close> reads the wall clock for its time columns; all the
  \<open>put\<close>s of one request share a reading here.
\<close>

definition store_ops :: "('s, 'u) server_env \<Rightarrow> ('s, 'u) server \<Rightarrow> 's ccr_store_ops \<times> ('s, 'u) server" where
  "store_ops E sv = (let (t, sv) = wall_now E sv in (ev_ops E t, sv))"

definition new_request_id :: "('s, 'u) server_env \<Rightarrow> ('s, 'u) server \<Rightarrow> string \<times> ('s, 'u) server" where
  "new_request_id E sv =
     (let (t, sv) = wall_now E sv; (rid, c) = generate_request_id t (sv_counter sv)
      in (rid, sv\<lparr>sv_counter := c\<rparr>))"

definition request_id_for ::
    "('s, 'u) server_env \<Rightarrow> header_map \<Rightarrow> ('s, 'u) server \<Rightarrow> string \<times> ('s, 'u) server" where
  "request_id_for E hs sv =
     (let (t, sv) = wall_now E sv; (rid, c) = ensure_request_id (ev_http E) t hs (sv_counter sv)
      in (rid, sv\<lparr>sv_counter := c\<rparr>))"

text \<open>\<open>builder.send().await\<close>\<close>

definition send_request ::
    "('s, 'u) server_env \<Rightarrow> http_request \<Rightarrow> ('s, 'u) server \<Rightarrow> (proxy_error + http_reply) \<times> ('s, 'u) server" where
  "send_request E q sv = (let (r, u) = ev_send E q (sv_net sv) in (r, sv\<lparr>sv_net := u\<rparr>))"

section \<open>Responses of the proxy's own\<close>

definition error_response :: "nat \<Rightarrow> string \<Rightarrow> client_response" where
  "error_response status message =
     \<lparr>rs_status = status, rs_headers = [(''content-type'', ''text/plain; charset=utf-8'')],
      rs_chunks = [Inr message]\<rparr>"

definition upstream_error_response :: "proxy_error \<Rightarrow> client_response" where
  "upstream_error_response err =
     error_response (case err of NetError True m \<Rightarrow> 504 | _ \<Rightarrow> 502) (error_text err)"

definition json_response :: "('s, 'u) server_env \<Rightarrow> nat \<Rightarrow> json \<Rightarrow> client_response" where
  "json_response E status v =
     (case sd_to_vec (ev_serde E) v of
        Some body \<Rightarrow> \<lparr>rs_status = status, rs_headers = [(''content-type'', ''application/json'')],
                      rs_chunks = [Inr body]\<rparr>
      | None \<Rightarrow> error_response 500 (ev_ser_error E v))"

definition json_nat :: "nat \<Rightarrow> json" where
  "json_nat n = JNumber (PosInt (of_nat n))"

section \<open>Upstream URLs\<close>

definition apply_uri_path_and_query :: "url_lib \<Rightarrow> string \<Rightarrow> string option \<Rightarrow> string \<Rightarrow> string" where
  "apply_uri_path_and_query U request_path query url =
     (let base_path = drop_while_end (\<lambda>c. c = CHR ''/'') (url_path U url);
          combined = (if base_path = [] \<or> base_path = ''/'' then request_path
                      else base_path @ request_path)
      in url_set_query U query (url_set_path U combined url))"

definition upstream_url :: "('s, 'u) server_env \<Rightarrow> upstream_provider \<Rightarrow> string \<Rightarrow> string option \<Rightarrow> string" where
  "upstream_url E provider path query =
     apply_uri_path_and_query (ev_url E) path query
       (case provider of UpstreamOpenAi \<Rightarrow> ev_openai_upstream E
        | UpstreamAnthropic \<Rightarrow> ev_anthropic_upstream E)"

definition websocket_url ::
    "('s, 'u) server_env \<Rightarrow> upstream_provider \<Rightarrow> string \<Rightarrow> string option \<Rightarrow> hr_error + string" where
  "websocket_url E provider path query =
     (let url = upstream_url E provider path query; s = url_scheme (ev_url E) url;
          mapped = (if s = ''http'' then Inr ''ws'' else if s = ''https'' then Inr ''wss''
                    else if s = ''ws'' \<or> s = ''wss'' then Inr s
                    else Inl (''unsupported upstream websocket scheme: '' @ s))
      in case mapped of
           Inl e \<Rightarrow> Inl e
         | Inr s \<Rightarrow> (case url_set_scheme (ev_url E) s url of
             Some url \<Rightarrow> Inr url | None \<Rightarrow> Inl ''failed to set websocket upstream scheme''))"

section \<open>Frames\<close>

lemma on_stats_frame [frame]:
  "the_store (sv_world (on_stats f sv)) = the_store (sv_world sv)" "sv_net (on_stats f sv) = sv_net sv"
  "sv_trackers (on_stats f sv) = sv_trackers sv" "sv_batches (on_stats f sv) = sv_batches sv"
  "sv_counter (on_stats f sv) = sv_counter sv" "sv_ticks (on_stats f sv) = sv_ticks sv"
  "sv_tasks (on_stats f sv) = sv_tasks sv"
  by (simp_all add: on_stats_def)

lemma send_request_frame [frame]:
  "send_request E q sv = (r, sv') \<Longrightarrow> sv' = sv\<lparr>sv_net := sv_net sv'\<rparr>"
  by (auto simp: send_request_def split: prod.splits)

end
