(* ===== verification/Retrieve.thy ===== *)
theory Retrieve
  imports Server
begin

text \<open>
  The retrieval endpoints of \<open>src/proxy.rs\<close>: an original by its hash, or the lines of it
  that match a query; the same answers as tool results; and the compress-only endpoint.
\<close>

section \<open>Searching an original\<close>

text \<open>\<open>str::lines\<close>: a line ends at a line feed, which takes a carriage return before it along.\<close>

function lines_of :: "string \<Rightarrow> string list" where
  "lines_of s =
     (if s = [] then []
      else
        let line = takeWhile (\<lambda>c. c \<noteq> LF) s; rest = dropWhile (\<lambda>c. c \<noteq> LF) s in
        case rest of
          [] \<Rightarrow> [line]
        | c # rest' \<Rightarrow> strip_cr line # lines_of rest')"
  by pat_completeness auto
termination
  by (relation "measure length") (auto, metis Suc_le_lessD length_Cons length_dropWhile_le)

declare lines_of.simps [simp del]

record retrieve_search_result =
  sr_line :: nat
  sr_text :: string

definition search_content :: "(string \<Rightarrow> string) \<Rightarrow> string \<Rightarrow> string \<Rightarrow> retrieve_search_result list" where
  "search_content lowercase content query =
     (let query = lowercase query in
      map (\<lambda>(index, line). \<lparr>sr_line = index + 1, sr_text = line\<rparr>)
        (filter (\<lambda>(index, line). contains query (lowercase line)) (enumerate 0 (lines_of content))))"

definition search_result_json :: "retrieve_search_result \<Rightarrow> json" where
  "search_result_json r = json_obj [(''line'', json_nat (sr_line r)), (''text'', JString (sr_text r))]"

section \<open>Retrieving\<close>

definition valid_hash :: "string \<Rightarrow> bool" where
  "valid_hash hash \<longleftrightarrow> length hash = HASH_HEX_LEN \<and> (\<forall>c \<in> set hash. is_ascii_hexdigit c)"

definition invalid_hash_value :: "string \<Rightarrow> json" where
  "invalid_hash_value hash = json_obj [(''hash'', JString hash),
     (''error'', JString (''invalid hash format; expected '' @ dec HASH_HEX_LEN @ '' hex characters''))]"

definition retrieve_value ::
    "(string \<Rightarrow> string) \<Rightarrow> 's ccr_store_ops \<Rightarrow> string \<Rightarrow> string option \<Rightarrow> 's world \<Rightarrow> json \<times> 's world" where
  "retrieve_value lowercase ops hash query w =
     (if \<not> valid_hash hash then (invalid_hash_value hash, w)
      else case decompress_hash ops hash w of
        (None, w) \<Rightarrow> (json_obj [(''hash'', JString hash), (''error'', JString ''entry not found'')], w)
      | (Some original, w) \<Rightarrow>
          (case option_filter (\<lambda>q. trim q \<noteq> []) query of
             Some q \<Rightarrow>
               let results = search_content lowercase original q in
               (json_obj [(''hash'', JString hash), (''query'', JString q),
                  (''results'', JArray (map search_result_json results)),
                  (''count'', json_nat (length results))], w)
           | None \<Rightarrow>
               (json_obj [(''hash'', JString hash), (''original_content'', JString original),
                  (''original_tokens'', json_nat (estimate_tokens original)),
                  (''original_item_count'', json_nat 1), (''compressed_item_count'', json_nat 1),
                  (''tool_name'', JString ''headroom_retrieve''), (''retrieval_count'', json_nat 1)], w)))"

definition retrieve_status :: "string \<Rightarrow> json \<Rightarrow> nat" where
  "retrieve_status hash v =
     (if json_get ''error'' v \<noteq> None then (if \<not> valid_hash hash then 400 else 404) else 200)"

definition retrieve_response ::
    "('s, 'u) server_env \<Rightarrow> string \<Rightarrow> string option \<Rightarrow> ('s, 'u) server \<Rightarrow> client_response \<times> ('s, 'u) server" where
  "retrieve_response E hash query sv =
     (let (ops, sv) = store_ops E sv;
          (v, w) = retrieve_value (ev_lowercase E) ops hash query (sv_world sv)
      in (json_response E (retrieve_status hash v) v, sv\<lparr>sv_world := w\<rparr>))"

text \<open>The bodies of the two routes: the JSON of a \<open>POST\<close>, and the path and query of a \<open>GET\<close>.\<close>

record retrieve_request =
  rr_hash :: string
  rr_query :: "string option"

definition retrieve_post_handler ::
    "('s, 'u) server_env \<Rightarrow> retrieve_request \<Rightarrow> ('s, 'u) server \<Rightarrow> client_response \<times> ('s, 'u) server" where
  "retrieve_post_handler E request sv = retrieve_response E (rr_hash request) (rr_query request) sv"

definition retrieve_get_handler ::
    "('s, 'u) server_env \<Rightarrow> string \<Rightarrow> string option \<Rightarrow> ('s, 'u) server \<Rightarrow> client_response \<times> ('s, 'u) server" where
  "retrieve_get_handler E hash query sv = retrieve_response E hash query sv"

section \<open>Tool calls\<close>

record parsed_tool_call =
  pt_hash :: string
  pt_query :: "string option"

definition parse_retrieve_arguments :: "json \<Rightarrow> parsed_tool_call option" where
  "parse_retrieve_arguments arguments =
     (case get_str ''hash'' arguments of
        None \<Rightarrow> None
      | Some hash \<Rightarrow> Some \<lparr>pt_hash = hash, pt_query = get_str ''query'' arguments\<rparr>)"

definition parse_retrieve_tool_call :: "serde \<Rightarrow> json \<Rightarrow> string \<Rightarrow> parsed_tool_call option" where
  "parse_retrieve_tool_call S tool_call provider =
     (if eq_ignore_ascii_case provider ''openai'' then
        (case json_get ''function'' tool_call of
           None \<Rightarrow> None
         | Some function_value \<Rightarrow>
             (case get_str ''name'' function_value of
                None \<Rightarrow> None
              | Some name \<Rightarrow>
                  if \<not> is_retrieve_tool_name name then None
                  else Option.bind
                    (sd_value S (unwrap_or ''{}'' (get_str ''arguments'' function_value)))
                    parse_retrieve_arguments))
      else
        let name = unwrap_or [] (get_str ''name'' tool_call) in
        if \<not> is_retrieve_tool_name name then None
        else Option.bind (json_get ''input'' tool_call) parse_retrieve_arguments)"

definition format_tool_result :: "serde \<Rightarrow> json \<Rightarrow> string \<Rightarrow> json \<Rightarrow> json" where
  "format_tool_result S tool_call provider data =
     (let content = unwrap_or ''{}'' (sd_to_vec S data);
          call_id = unwrap_or [] (get_str ''id'' tool_call)
      in if eq_ignore_ascii_case provider ''openai''
         then json_obj [(''role'', JString ''tool''), (''tool_call_id'', JString call_id),
                        (''content'', JString content)]
         else json_obj [(''type'', JString ''tool_result''), (''tool_use_id'', JString call_id),
                        (''content'', JString content)])"

definition failure_value :: "string \<Rightarrow> json" where
  "failure_value message = json_obj [(''success'', JBool False), (''error'', JString message)]"

definition retrieve_tool_call_handler ::
    "('s, 'u) server_env \<Rightarrow> json \<Rightarrow> ('s, 'u) server \<Rightarrow> client_response \<times> ('s, 'u) server" where
  "retrieve_tool_call_handler E request sv =
     (let provider = unwrap_or ''anthropic'' (get_str ''provider'' request) in
      case json_get ''tool_call'' request of
        None \<Rightarrow> (json_response E 400 (failure_value ''tool_call required''), sv)
      | Some tool_call \<Rightarrow>
          (case parse_retrieve_tool_call (ev_serde E) tool_call provider of
             None \<Rightarrow> (json_response E 400
               (failure_value ''invalid tool call or not a headroom_retrieve call''), sv)
           | Some parsed \<Rightarrow>
               let (ops, sv) = store_ops E sv;
                   (data, w) = retrieve_value (ev_lowercase E) ops (pt_hash parsed) (pt_query parsed)
                     (sv_world sv);
                   success = (json_get ''error'' data = None);
                   tool_result = format_tool_result (ev_serde E) tool_call provider data
               in (json_response E 200 (json_obj [(''success'', JBool success),
                     (''tool_result'', tool_result), (''data'', data)]), sv\<lparr>sv_world := w\<rparr>)))"

section \<open>Properties\<close>

lemma enumerate_nth: "enumerate 0 xs = map (\<lambda>i. (i, xs ! i)) [0..<length xs]"
  by (rule nth_equalityI) (simp_all add: nth_enumerate_eq)

lemma search_content_nth:
  "search_content lowercase content q =
     map (\<lambda>i. \<lparr>sr_line = i + 1, sr_text = lines_of content ! i\<rparr>)
       (filter (\<lambda>i. contains (lowercase q) (lowercase (lines_of content ! i)))
         [0..<length (lines_of content)])"
  by (simp add: search_content_def Let_def enumerate_nth filter_map comp_def)

lemma obj_wf_json_obj: "\<exists>m. json_obj kvs = JObject m"
  by (simp add: json_obj_def)

lemma json_get_obj_fold:
  "map_of (fold (\<lambda>(k, v). obj_insert k v) kvs m) k = (case map_of (rev kvs) k of Some v \<Rightarrow> Some v | None \<Rightarrow> map_of m k)"
  by (induction kvs arbitrary: m) (auto simp: map_add_def split: option.splits)

lemma json_get_obj: "json_get k (json_obj kvs) = map_of (rev kvs) k"
  by (simp add: json_obj_def json_get_obj_fold split: option.splits)

lemma retrieve_value_invalid:
  "\<not> valid_hash hash \<Longrightarrow> retrieve_value lowercase ops hash query w = (invalid_hash_value hash, w)"
  by (simp add: retrieve_value_def)

lemma retrieve_value_error:
  assumes "retrieve_value lowercase ops hash query w = (v, w')"
  shows "json_get ''error'' v = None \<longleftrightarrow> valid_hash hash \<and> (\<exists>t. get_op ops hash (the_store w) = Inr (Some t))"
  using assms
  by (auto simp: retrieve_value_def invalid_hash_value_def decompress_hash_def json_get_obj Let_def
      split: if_splits option.splits sum.splits prod.splits)

lemma retrieve_value_store:
  "retrieve_value lowercase ops hash query w = (v, w') \<Longrightarrow> the_store w' = the_store w"
  by (auto simp: retrieve_value_def decompress_hash_def Let_def
      split: if_splits option.splits sum.splits prod.splits)

lemma retrieve_value_full:
  assumes "valid_hash hash" "get_op ops hash (the_store w) = Inr (Some t)"
  shows "json_get ''original_content'' (fst (retrieve_value lowercase ops hash None w)) = Some (JString t)"
  using assms by (simp add: retrieve_value_def decompress_hash_def option_filter_def json_get_obj)

text \<open>
  A search of an original returns exactly the lines that contain the query once both are
  lowercased, each with its text and its number counted from one, in the order of the text.
\<close>

theorem search_content_exact:
  "set (search_content lowercase content q) =
     {\<lparr>sr_line = i + 1, sr_text = lines_of content ! i\<rparr> | i.
        i < length (lines_of content) \<and> contains (lowercase q) (lowercase (lines_of content ! i))}
   \<and> sorted_wrt (<) (map sr_line (search_content lowercase content q))"
proof -
  have "sorted_wrt (<) (map (\<lambda>i. i + 1) (filter P [0..<n]))" for P and n :: nat
    by (simp add: sorted_wrt_map sorted_wrt_filter)
  then show ?thesis
    by (auto simp: search_content_nth comp_def)
qed

text \<open>
  The status of a retrieval. On a store that can be read, the answer is 400 exactly for a
  malformed hash, 404 exactly for a well-formed hash that is not stored, and 200 otherwise;
  the store is left as it was, and one hit or one miss is counted for a well-formed hash.
\<close>

theorem retrieve_response_status:
  assumes "retrieve_response E hash query sv = (r, sv')"
    and "\<And>v. sd_to_vec (ev_serde E) v \<noteq> None"
    and "\<And>t. get_op (ev_ops E t) hash (the_store (sv_world sv)) = Inr stored"
  shows "rs_status r = (if \<not> valid_hash hash then 400 else if stored = None then 404 else 200)
    \<and> the_store (sv_world sv') = the_store (sv_world sv)
    \<and> the_stats (sv_world sv') =
        (if \<not> valid_hash hash then the_stats (sv_world sv)
         else if stored = None then record_decompress_miss (the_stats (sv_world sv))
         else record_decompress_hit (the_stats (sv_world sv)))"
proof -
  let ?ops = "ev_ops E (ev_wall E (sv_ticks sv))"
  obtain v w where v: "retrieve_value (ev_lowercase E) ?ops hash query (sv_world sv) = (v, w)"
    by fastforce
  have r: "r = json_response E (retrieve_status hash v) v" and w: "sv_world sv' = w"
    using assms(1) v by (auto simp: retrieve_response_def store_ops_def wall_now_def)
  have "rs_status r = retrieve_status hash v"
    using assms(2)[of v] by (auto simp: r json_response_def)
  moreover have "json_get ''error'' v = None \<longleftrightarrow> valid_hash hash \<and> stored \<noteq> None"
    using retrieve_value_error[OF v] assms(3) by auto
  moreover have "the_stats w = (if \<not> valid_hash hash then the_stats (sv_world sv)
         else if stored = None then record_decompress_miss (the_stats (sv_world sv))
         else record_decompress_hit (the_stats (sv_world sv)))"
    using v assms(3)[of "ev_wall E (sv_ticks sv)"]
    by (auto simp: retrieve_value_def decompress_hash_def Let_def split: if_splits option.splits)
  ultimately show ?thesis
    using retrieve_value_store[OF v] w by (simp add: retrieve_status_def)
qed

definition demo_http :: http_lib where
  "demo_http = \<lparr>hv_to_str = Some, hv_from_str = Some\<rparr>"

definition demo_url :: url_lib where
  "demo_url = \<lparr>url_path = (\<lambda>u. []), url_scheme = (\<lambda>u. ''http''), url_set_path = (\<lambda>p u. u @ p),
     url_set_query = (\<lambda>q u. u), url_set_scheme = (\<lambda>s u. Some u)\<rparr>"

text \<open>A printer that never fails.\<close>

definition demo_printer :: serde where
  "demo_printer = demo_serde\<lparr>sd_to_vec := (\<lambda>v. Some ''json'')\<rparr>"

definition demo_env :: "(http_request \<Rightarrow> unit \<Rightarrow> (proxy_error + http_reply) \<times> unit)
    \<Rightarrow> (sqlite_store, unit) server_env" where
  "demo_env upstream = \<lparr>ev_serde = demo_printer, ev_http = demo_http, ev_url = demo_url,
     ev_sha256 = const_digest, ev_md5 = const_digest, ev_lowercase = to_ascii_lowercase,
     ev_ser_error = (\<lambda>v. ''error''), ev_parse_error = (\<lambda>t. ''error''), ev_status_text = dec, ev_limit_error = ''limit'', ev_ops = (\<lambda>t. sqlite_ops (int t)),
     ev_instant = id, ev_wall = id, ev_send = upstream, ev_openai_upstream = ''http://o'',
     ev_anthropic_upstream = ''http://a'', ev_max_body_bytes = 100, ev_compression_enabled = True,
     ev_compression_mode = ModeCcr, ev_compress_user_text = False\<rparr>"

definition demo_server :: "(sqlite_store, unit) server" where
  "demo_server = \<lparr>sv_world = empty_world, sv_trackers = inner_default, sv_batches = [], sv_counter = 1,
     sv_ticks = 0, sv_tasks = [], sv_net = ()\<rparr>"

definition no_upstream :: "http_request \<Rightarrow> unit \<Rightarrow> (proxy_error + http_reply) \<times> unit" where
  "no_upstream q u = (Inl (NetError True ''timed out''), ())"

theorem retrieve_response_status_witness:
  "rs_status (fst (retrieve_response (demo_env no_upstream) (replicate 24 (CHR ''a'')) None demo_server)) = 404"
proof -
  let ?E = "demo_env no_upstream" and ?h = "replicate 24 (CHR ''a'')"
  obtain r sv' where run: "retrieve_response ?E ?h None demo_server = (r, sv')" by fastforce
  have print: "sd_to_vec (ev_serde ?E) v \<noteq> None" for v
    by (simp add: demo_env_def demo_printer_def)
  have get: "get_op (ev_ops ?E t) ?h (the_store (sv_world demo_server)) = Inr None" for t
    by (simp add: demo_env_def demo_server_def sqlite_ops_def sqlite_get_def empty_world_def sqlite_in_memory_def)
  have "valid_hash ?h" by (simp add: valid_hash_def HASH_HEX_LEN_def is_ascii_hexdigit_def byte_def)
  with retrieve_response_status[OF run print get] run show ?thesis by simp
qed

end
