(* ===== verification/Continuation.thy ===== *)
theory Continuation
  imports Retrieve
begin

text \<open>
  The CCR continuation of \<open>src/proxy.rs\<close>: retrieve calls in an upstream response are answered
  from the store and the conversation is continued upstream, for at most three rounds; calls
  left beside the client's own are stripped. A panic is the outer \<open>None\<close>.
\<close>

section \<open>Tool calls of a response\<close>

datatype ccr_provider = CcrAnthropic | CcrOpenAi

fun as_label :: "ccr_provider \<Rightarrow> string" where
  "as_label CcrAnthropic = ''anthropic''"
| "as_label CcrOpenAi = ''openai''"

definition MAX_CCR_CONTINUATION_ROUNDS :: nat where
  "MAX_CCR_CONTINUATION_ROUNDS = 3"

definition is_tool_use :: "json \<Rightarrow> bool" where
  "is_tool_use block \<longleftrightarrow> get_str ''type'' block = Some ''tool_use''"

definition choice_tool_calls :: "json \<Rightarrow> json list option" where
  "choice_tool_calls choice = Option.bind (get_in ''message'' ''tool_calls'' choice) as_array"

fun provider_tool_calls :: "ccr_provider \<Rightarrow> json \<Rightarrow> json list" where
  "provider_tool_calls CcrAnthropic response =
     (case get_array ''content'' response of Some blocks \<Rightarrow> filter is_tool_use blocks | None \<Rightarrow> [])"
| "provider_tool_calls CcrOpenAi response =
     (case get_array ''choices'' response of
        Some choices \<Rightarrow> concat (List.map_filter choice_tool_calls choices) | None \<Rightarrow> [])"

definition is_ccr_call :: "serde \<Rightarrow> ccr_provider \<Rightarrow> json \<Rightarrow> bool" where
  "is_ccr_call S provider call \<longleftrightarrow> parse_retrieve_tool_call S call (as_label provider) \<noteq> None"

definition extract_ccr_tool_calls :: "serde \<Rightarrow> ccr_provider \<Rightarrow> json \<Rightarrow> (json \<times> parsed_tool_call) list" where
  "extract_ccr_tool_calls S provider response =
     List.map_filter (\<lambda>call. map_option (Pair call) (parse_retrieve_tool_call S call (as_label provider)))
       (provider_tool_calls provider response)"

definition openai_choice_count :: "json \<Rightarrow> nat" where
  "openai_choice_count response = (case get_array ''choices'' response of Some cs \<Rightarrow> length cs | None \<Rightarrow> 0)"

section \<open>Stripping\<close>

text \<open>Assignment through \<open>get_mut\<close> and removal, on a value known to be an object.\<close>

fun obj_set :: "string \<Rightarrow> json \<Rightarrow> json \<Rightarrow> json" where
  "obj_set k x (JObject m) = JObject (obj_insert k x m)"
| "obj_set k x v = v"

fun obj_unset :: "string \<Rightarrow> json \<Rightarrow> json" where
  "obj_unset k (JObject m) = JObject (obj_remove k m)"
| "obj_unset k v = v"

definition strip_anthropic :: "serde \<Rightarrow> json \<Rightarrow> json option" where
  "strip_anthropic S response =
     (case get_array ''content'' response of
        None \<Rightarrow> None
      | Some content \<Rightarrow>
          let drops = (\<lambda>block. is_tool_use block \<and> is_ccr_call S CcrAnthropic block);
              stripped_content = filter (\<lambda>block. \<not> drops block) content;
              removed = (\<exists>block \<in> set content. drops block);
              remaining_tool_calls = length (filter is_tool_use stripped_content)
          in if \<not> removed \<or> remaining_tool_calls = 0 then None
             else Some (obj_set ''content'' (JArray stripped_content) response))"

text \<open>One choice: the rewritten choice with its numbers of calls before and after.\<close>

definition strip_choice :: "serde \<Rightarrow> json \<Rightarrow> json \<times> nat \<times> nat" where
  "strip_choice S choice =
     (case (json_get ''message'' choice, choice_tool_calls choice) of
        (Some message, Some tool_calls) \<Rightarrow>
          let kept = filter (\<lambda>call. \<not> is_ccr_call S CcrOpenAi call) tool_calls;
              original_len = length tool_calls; stripped_len = length kept;
              message = obj_set ''tool_calls'' (JArray kept) message;
              emptied = (original_len > 0 \<and> stripped_len = 0);
              message = (if emptied then obj_unset ''tool_calls'' message else message);
              choice = obj_set ''message'' message choice;
              choice = (if emptied \<and> get_str ''finish_reason'' choice = Some ''tool_calls''
                        then obj_set ''finish_reason'' (JString ''stop'') choice else choice)
          in (choice, original_len, stripped_len)
      | _ \<Rightarrow> (choice, 0, 0))"

definition strip_openai :: "serde \<Rightarrow> json \<Rightarrow> json option" where
  "strip_openai S response =
     (case option_filter (\<lambda>choices. choices \<noteq> []) (get_array ''choices'' response) of
        None \<Rightarrow> None
      | Some choices \<Rightarrow>
          let results = map (strip_choice S) choices;
              removed = (\<exists>(choice, before, after) \<in> set results. after \<noteq> before);
              remaining_tool_calls = sum_list (map (\<lambda>(choice, before, after). after) results)
          in if \<not> removed \<or> remaining_tool_calls = 0 then None
             else Some (obj_set ''choices'' (JArray (map fst results)) response))"

fun strip_ccr_tool_calls :: "serde \<Rightarrow> ccr_provider \<Rightarrow> json \<Rightarrow> json option" where
  "strip_ccr_tool_calls S CcrAnthropic response = strip_anthropic S response"
| "strip_ccr_tool_calls S CcrOpenAi response = strip_openai S response"

section \<open>The rounds\<close>

fun extract_assistant_message :: "ccr_provider \<Rightarrow> json \<Rightarrow> json" where
  "extract_assistant_message CcrAnthropic response =
     json_obj [(''role'', JString ''assistant''),
       (''content'', unwrap_or (JArray []) (json_get ''content'' response))]"
| "extract_assistant_message CcrOpenAi response =
     (let first_choice = Option.bind (get_array ''choices'' response)
                           (\<lambda>cs. case cs of c # _ \<Rightarrow> Some c | [] \<Rightarrow> None);
          message = unwrap_or (JObject []) (Option.bind first_choice (json_get ''message''));
          assistant = json_obj [(''role'', JString ''assistant''),
            (''content'', unwrap_or JNull (json_get ''content'' message))]
      in case json_get ''tool_calls'' message of
           Some tool_calls \<Rightarrow> obj_set ''tool_calls'' tool_calls assistant
         | None \<Rightarrow> assistant)"

text \<open>The tool results of the calls, in order; each lookup counts a hit or a miss.\<close>

fun answer_calls ::
    "('s, 'u) server_env \<Rightarrow> 's ccr_store_ops \<Rightarrow> ccr_provider \<Rightarrow> (json \<times> parsed_tool_call) list
       \<Rightarrow> 's world \<Rightarrow> json list \<times> 's world" where
  "answer_calls E ops provider [] w = ([], w)"
| "answer_calls E ops provider ((tool_call, parsed) # calls) w =
     (let (data, w) = retrieve_value (ev_lowercase E) ops (pt_hash parsed) (pt_query parsed) w;
          answer = format_tool_result (ev_serde E) tool_call (as_label provider) data;
          (answers, w) = answer_calls E ops provider calls w
      in (answer # answers, w))"

fun answer_messages :: "ccr_provider \<Rightarrow> json list \<Rightarrow> json list" where
  "answer_messages CcrAnthropic blocks =
     [json_obj [(''role'', JString ''user''), (''content'', JArray blocks)]]"
| "answer_messages CcrOpenAi answers = answers"

definition continuation_headers :: "header_map \<Rightarrow> header_map" where
  "continuation_headers hs =
     header_insert ''content-type'' ''application/json''
       (header_remove ''accept-encoding'' (header_remove ''content-encoding'' hs))"

definition send_ccr_continuation ::
    "('s, 'u) server_env \<Rightarrow> json \<Rightarrow> string \<Rightarrow> header_map \<Rightarrow> string option \<Rightarrow> ('s, 'u) server
       \<Rightarrow> (proxy_error + json) \<times> ('s, 'u) server" where
  "send_ccr_continuation E body url hs client_ip sv =
     (let (request_id, sv) = new_request_id E sv in
      case sd_to_vec (ev_serde E) body of
        None \<Rightarrow> (Inl (PlainError (ev_ser_error E body)), sv)
      | Some payload \<Rightarrow>
          let q = \<lparr>hq_method = ''POST'', hq_url = url,
                hq_headers = apply_headers (ev_http E) (ev_serde E) (continuation_headers hs) client_ip request_id,
                hq_chunks = [Inr payload]\<rparr> in
          (case send_request E q sv of
             (Inl err, sv) \<Rightarrow> (Inl err, sv)
           | (Inr reply, sv) \<Rightarrow>
               (if hp_status reply \<noteq> 200 then
                  (Inl (PlainError (''ccr continuation upstream returned status ''
                     @ ev_status_text E (hp_status reply))), sv)
                else case read_all (hp_chunks reply) of
                  Inl err \<Rightarrow> (Inl err, sv)
                | Inr bytes \<Rightarrow>
                    (case sd_value (ev_serde E) bytes of
                       Some v \<Rightarrow> (Inr v, sv)
                     | None \<Rightarrow> (Inl (PlainError (ev_parse_error E bytes)), sv)))))"

definition strip_current :: "serde \<Rightarrow> ccr_provider \<Rightarrow> json \<times> bool \<Rightarrow> json \<times> bool" where
  "strip_current S provider = (\<lambda>(current, changed).
     case strip_ccr_tool_calls S provider current of
       Some stripped \<Rightarrow> (stripped, True) | None \<Rightarrow> (current, changed))"

text \<open>Whether the loop strips and stops: several choices, or calls of the client's own.\<close>

definition continuation_blocked :: "serde \<Rightarrow> ccr_provider \<Rightarrow> json \<Rightarrow> bool" where
  "continuation_blocked S provider current \<longleftrightarrow>
     (provider = CcrOpenAi \<and> openai_choice_count current \<noteq> 1)
     \<or> length (provider_tool_calls provider current) \<noteq> length (extract_ccr_tool_calls S provider current)"

text \<open>The messages of the next round, and the state after the lookups that answer the calls.\<close>

definition next_messages ::
    "('s, 'u) server_env \<Rightarrow> ccr_provider \<Rightarrow> json list \<Rightarrow> json \<Rightarrow> ('s, 'u) server
       \<Rightarrow> json list \<times> ('s, 'u) server" where
  "next_messages E provider messages current sv =
     (let ccr_calls = extract_ccr_tool_calls (ev_serde E) provider current;
          sv = on_stats (record_ccr_continuation_retrievals (of_nat (length ccr_calls))) sv;
          (ops, sv) = store_ops E sv;
          (answers, w) = answer_calls E ops provider ccr_calls (sv_world sv)
      in (messages @ [extract_assistant_message provider current] @ answer_messages provider answers,
          sv\<lparr>sv_world := w\<rparr>))"

text \<open>\<open>n\<close> rounds are left of \<open>MAX_CCR_CONTINUATION_ROUNDS\<close>.\<close>

fun ccr_rounds ::
    "nat \<Rightarrow> ('s, 'u) server_env \<Rightarrow> json \<Rightarrow> string \<Rightarrow> header_map \<Rightarrow> string option \<Rightarrow> ccr_provider
       \<Rightarrow> json list \<Rightarrow> json \<times> bool \<Rightarrow> ('s, 'u) server \<Rightarrow> ((json \<times> bool) \<times> ('s, 'u) server) option" where
  "ccr_rounds 0 E request_body url hs client_ip provider messages cur sv = Some (cur, sv)"
| "ccr_rounds (Suc n) E request_body url hs client_ip provider messages cur sv =
     (if extract_ccr_tool_calls (ev_serde E) provider (fst cur) = [] then Some (cur, sv)
      else if continuation_blocked (ev_serde E) provider (fst cur) then
        Some (strip_current (ev_serde E) provider cur, sv)
      else
        let (messages, sv) = next_messages E provider messages (fst cur) sv in
        (case json_set ''messages'' (JArray messages) request_body of
           None \<Rightarrow> None
         | Some continuation_body \<Rightarrow>
             (case send_ccr_continuation E continuation_body url hs client_ip sv of
                (Inr next, sv) \<Rightarrow>
                  ccr_rounds n E request_body url hs client_ip provider messages (next, True)
                    (on_stats record_ccr_continuation_round sv)
              | (Inl err, sv) \<Rightarrow> Some (cur, sv))))"

definition run_ccr_continuation ::
    "('s, 'u) server_env \<Rightarrow> json \<Rightarrow> json \<Rightarrow> string \<Rightarrow> header_map \<Rightarrow> string option \<Rightarrow> ccr_provider
       \<Rightarrow> ('s, 'u) server \<Rightarrow> ((json \<times> bool) \<times> ('s, 'u) server) option" where
  "run_ccr_continuation E request_body initial url hs client_ip provider sv =
     (let messages = unwrap_or [] (get_array ''messages'' request_body) in
      case ccr_rounds MAX_CCR_CONTINUATION_ROUNDS E request_body url hs client_ip provider messages
             (initial, False) sv of
        None \<Rightarrow> None
      | Some (cur, sv) \<Rightarrow> Some (strip_current (ev_serde E) provider cur, sv))"

end
