(* ===== verification/Batch_Context.thy ===== *)
theory Batch_Context
  imports Server
begin

text \<open>
  The contexts of Anthropic batch creates kept by \<open>src/proxy.rs\<close>: per batch the parameters
  of its requests, for a day, the newest ten thousand. A \<open>HashMap\<close> is an association list,
  newest entry first.
\<close>

section \<open>Operations\<close>

definition BATCH_CONTEXT_TTL :: nat where
  "BATCH_CONTEXT_TTL = 24 * 60 * 60 * NANOS"

definition MAX_BATCH_CONTEXTS :: nat where
  "MAX_BATCH_CONTEXTS = 10000"

definition request_context :: "json \<Rightarrow> (string \<times> json) option" where
  "request_context request =
     (case get_str ''custom_id'' request of
        None \<Rightarrow> None
      | Some custom_id \<Rightarrow> map_option (Pair custom_id) (json_get ''params'' request))"

definition request_contexts :: "json list \<Rightarrow> (string \<times> json) list" where
  "request_contexts requests = rev (List.map_filter request_context requests)"

definition record_batch_context ::
    "nat \<Rightarrow> string \<Rightarrow> json \<Rightarrow> batch_context_entry list \<Rightarrow> batch_context_entry list" where
  "record_batch_context now batch_id compressed_body store =
     (case get_array ''requests'' compressed_body of
        None \<Rightarrow> store
      | Some requests \<Rightarrow>
          let contexts = request_contexts requests in
          if contexts = [] then store
          else
            let expires_at = now + BATCH_CONTEXT_TTL;
                store = filter (\<lambda>e. bc_expires_at e > now \<and> bc_batch_id e \<noteq> batch_id) store
            in evict_front MAX_BATCH_CONTEXTS
                 (store @ [\<lparr>bc_batch_id = batch_id, bc_contexts = contexts, bc_expires_at = expires_at\<rparr>]))"

definition batch_context ::
    "nat \<Rightarrow> string \<Rightarrow> batch_context_entry list \<Rightarrow> (string \<times> json) list option \<times> batch_context_entry list" where
  "batch_context now batch_id store =
     (let store = filter (\<lambda>e. bc_expires_at e > now) store
      in (map_option bc_contexts (find (\<lambda>e. bc_batch_id e = batch_id) (rev store)), store))"

section \<open>Properties\<close>

definition batches_ok :: "batch_context_entry list \<Rightarrow> bool" where
  "batches_ok store \<longleftrightarrow> distinct (map bc_batch_id store) \<and> length store \<le> MAX_BATCH_CONTEXTS
     \<and> (\<forall>e \<in> set store. bc_contexts e \<noteq> [])"

definition contexts_of :: "json \<Rightarrow> (string \<times> json) list" where
  "contexts_of body = (case get_array ''requests'' body of Some rs \<Rightarrow> request_contexts rs | None \<Rightarrow> [])"

definition batch_lookup :: "nat \<Rightarrow> string \<Rightarrow> batch_context_entry list \<Rightarrow> (string \<times> json) list option" where
  "batch_lookup now batch_id store =
     map_option bc_contexts (find (\<lambda>e. bc_expires_at e > now \<and> bc_batch_id e = batch_id) (rev store))"

lemma find_filter: "find P (filter Q xs) = find (\<lambda>x. Q x \<and> P x) xs"
  by (induction xs) auto

lemma find_append: "find P (xs @ ys) = (case find P xs of Some x \<Rightarrow> Some x | None \<Rightarrow> find P ys)"
  by (induction xs) auto

lemma batch_context_lookup: "fst (batch_context now b store) = batch_lookup now b store"
  by (simp add: batch_context_def Let_def batch_lookup_def find_filter rev_filter)

lemma record_batch_context_cases:
  "record_batch_context now b body store =
     (if contexts_of body = [] then store
      else evict_front (MAX_BATCH_CONTEXTS - 1)
             (filter (\<lambda>e. bc_expires_at e > now \<and> bc_batch_id e \<noteq> b) store)
        @ [\<lparr>bc_batch_id = b, bc_contexts = contexts_of body, bc_expires_at = now + BATCH_CONTEXT_TTL\<rparr>])"
  by (auto simp: record_batch_context_def contexts_of_def Let_def evict_front_snoc MAX_BATCH_CONTEXTS_def
      split: option.splits)

lemma batches_ok_filter: "batches_ok store \<Longrightarrow> batches_ok (filter P store)"
  by (auto simp: batches_ok_def distinct_map_filter intro: le_trans[OF length_filter_le])

lemma batches_ok_record: "batches_ok store \<Longrightarrow> batches_ok (record_batch_context now b body store)"
proof -
  assume ok: "batches_ok store"
  define kept where "kept = filter (\<lambda>e. bc_expires_at e > now \<and> bc_batch_id e \<noteq> b) store"
  have k: "distinct (map bc_batch_id kept)" "\<forall>e \<in> set kept. bc_contexts e \<noteq> []" "b \<notin> bc_batch_id ` set kept"
    using ok by (auto simp: kept_def batches_ok_def distinct_map_filter)
  have "distinct (map bc_batch_id (evict_front n kept))" for n
    using k(1) by (simp add: evict_front_drop flip: drop_map)
  moreover have "set (evict_front n kept) \<subseteq> set kept" for n by (rule evict_front_subset)
  ultimately have "batches_ok (evict_front (MAX_BATCH_CONTEXTS - 1) kept @ [e])"
    if "bc_batch_id e = b" "bc_contexts e \<noteq> []" for e
    using k(2,3) that by (fastforce simp: batches_ok_def evict_front_length MAX_BATCH_CONTEXTS_def)
  then show ?thesis using ok by (simp add: record_batch_context_cases kept_def)
qed

text \<open>
  The list of batch contexts stays bounded. Recording and looking up keep at most ten
  thousand batches, at most one entry for a batch id, and no entry without contexts.
\<close>

theorem batch_contexts_bounded:
  assumes "batches_ok store"
  shows "batches_ok (record_batch_context now b body store)
    \<and> batches_ok (snd (batch_context now b store))"
  using batches_ok_record[OF assms] batches_ok_filter[OF assms] by (simp add: batch_context_def Let_def)

theorem batch_contexts_bounded_witness:
  "batches_ok (record_batch_context 5 ''b'' JNull [])"
  using batch_contexts_bounded[of "[]" 5 "''b''" JNull] by (simp add: batches_ok_def)

lemma batch_lookup_snoc:
  "batch_lookup t b (store @ [e]) =
     (if bc_expires_at e > t \<and> bc_batch_id e = b then Some (bc_contexts e) else batch_lookup t b store)"
  by (simp add: batch_lookup_def)

lemma batch_lookup_filter:
  "(\<And>e. bc_expires_at e > t \<Longrightarrow> bc_batch_id e = b \<Longrightarrow> P e) \<Longrightarrow>
     batch_lookup t b (filter P store) = batch_lookup t b store"
  unfolding batch_lookup_def rev_filter find_filter
  by (rule arg_cong[of _ _ "\<lambda>f. map_option bc_contexts (find f (rev store))"]) auto

lemma batch_lookup_absent: "b \<notin> bc_batch_id ` set store \<Longrightarrow> batch_lookup t b store = None"
  by (auto simp: batch_lookup_def find_None_iff)

lemma batch_lookup_drop:
  assumes "distinct (map bc_batch_id store)"
  shows "batch_lookup t b (drop n store) \<in> {None, batch_lookup t b store}"
proof (cases "batch_lookup t b (drop n store)")
  case (Some c)
  have "batch_lookup t b store = batch_lookup t b (drop n store)"
    using Some
    by (subst append_take_drop_id[of n store, symmetric], unfold batch_lookup_def rev_append find_append)
      (auto split: option.splits)
  then show ?thesis by simp
qed simp

text \<open>
  What a lookup finds. After a batch create with contexts is recorded at time \<open>t\<close>, a later
  lookup of that batch gives exactly those contexts until a day has passed and nothing from
  then on. Every other batch keeps its answer, or loses it when the list was full - and no
  batch is lost while there is room.
\<close>

theorem batch_context_recorded:
  assumes "batches_ok store" "contexts_of body \<noteq> []" "t \<le> t'"
  shows "fst (batch_context t' b' (record_batch_context t b body store)) \<in>
    (if b' = b then {if t' < t + BATCH_CONTEXT_TTL then Some (contexts_of body) else None}
     else if length store < MAX_BATCH_CONTEXTS then {fst (batch_context t' b' store)}
     else {None, fst (batch_context t' b' store)})"
proof -
  define kept where "kept = filter (\<lambda>e. bc_expires_at e > t \<and> bc_batch_id e \<noteq> b) store"
  have kept: "distinct (map bc_batch_id kept)" "b \<notin> bc_batch_id ` set kept" "length kept \<le> length store"
    using assms(1) by (auto simp: kept_def batches_ok_def distinct_map_filter)
  have same: "batch_lookup t' b' kept = batch_lookup t' b' store" if "b' \<noteq> b"
    unfolding kept_def using assms(3) that by (intro batch_lookup_filter) auto
  let ?rest = "drop (length kept - (MAX_BATCH_CONTEXTS - 1)) kept"
  have "batch_lookup t' b ?rest = None"
    using kept(2) set_drop_subset[of _ kept] by (intro batch_lookup_absent) fastforce
  moreover have "?rest = kept" if "length store < MAX_BATCH_CONTEXTS"
    using that kept(3) by simp
  ultimately show ?thesis
    using assms(2) same batch_lookup_drop[OF kept(1), of t' b' "length kept - (MAX_BATCH_CONTEXTS - 1)"]
    by (auto simp: batch_context_lookup record_batch_context_cases batch_lookup_snoc evict_front_drop
        kept_def[symmetric])
qed

definition demo_batch :: json where
  "demo_batch = JObject [(''requests'', JArray [JObject [(''custom_id'', JString ''c''), (''params'', JNull)]])]"

theorem batch_context_recorded_witness:
  "fst (batch_context 7 ''b'' (record_batch_context 5 ''b'' demo_batch [])) = Some [(''c'', JNull)]"
proof -
  have "contexts_of demo_batch = [(''c'', JNull)]" by code_simp
  then show ?thesis
    using batch_context_recorded[of "[]" demo_batch 5 7 "''b''" "''b''"]
    by (simp add: batches_ok_def BATCH_CONTEXT_TTL_def NANOS_def)
qed

end
