(* ===== verification/Responses.thy ===== *)
theory Responses
  imports Continuation Batch_Context
begin

text \<open>
  How \<open>src/proxy.rs\<close> turns an upstream reply into the client's response, streamed or
  buffered, what it feeds back into the session trackers, and how it reads a request body.
\<close>

section \<open>Reading a request body\<close>

definition parse_usize :: "string \<Rightarrow> nat option" where
  "parse_usize s =
     (let ds = (if starts_with ''+'' s then tl s else s)
      in Option.bind (digits_value ds) (\<lambda>n. if n < 2 ^ 64 then Some n else None))"

text \<open>\<open>to_bytes(body, limit)\<close>: the chunks together, unless they exceed the limit.\<close>

fun collect_limited :: "hr_error \<Rightarrow> nat \<Rightarrow> body_chunks \<Rightarrow> hr_error + string" where
  "collect_limited limit_error n [] = Inr []"
| "collect_limited limit_error n (Inl e # cs) = Inl (error_text e)"
| "collect_limited limit_error n (Inr c # cs) =
     (if length c > n then Inl limit_error
      else case collect_limited limit_error (n - length c) cs of
             Inl e \<Rightarrow> Inl e | Inr rest \<Rightarrow> Inr (c @ rest))"

definition read_limited_body :: "('s, 'u) server_env \<Rightarrow> client_request \<Rightarrow> proxy_error + string" where
  "read_limited_body E req =
     (let limit = ev_max_body_bytes E in
      case option_filter (\<lambda>n. n > limit)
             (Option.bind (header_str (ev_http E) ''content-length'' (cq_headers req)) parse_usize) of
        Some n \<Rightarrow> Inl (PlainError (''payload_too_large: Content-Length '' @ dec n
                       @ '' exceeds compression buffer limit '' @ dec limit))
      | None \<Rightarrow>
          (case collect_limited (ev_limit_error E) limit (cq_chunks req) of
             Inl err \<Rightarrow> Inl (PlainError (''payload_too_large: request body exceeds compression buffer limit ''
                         @ dec limit @ '': '' @ err))
           | Inr body \<Rightarrow> Inr body))"

definition record_mutation_stats :: "request_compression \<Rightarrow> stats \<Rightarrow> stats" where
  "record_mutation_stats mutation s =
     (if rc_compressed mutation then
        record_compressed_request (of_nat (rc_bytes_before mutation)) (of_nat (rc_bytes_after mutation))
          (of_nat (rc_tokens_before mutation)) (of_nat (rc_tokens_after mutation)) s
      else case rc_skipped_reason mutation of
             Some reason \<Rightarrow> record_skipped_request reason s
           | None \<Rightarrow> s)"

section \<open>Responses\<close>

definition ccr_response_buffer_eligible :: "http_lib \<Rightarrow> http_reply \<Rightarrow> bool" where
  "ccr_response_buffer_eligible H reply \<longleftrightarrow>
     hp_status reply = 200 \<and> header_get ''content-encoding'' (hp_headers reply) = None
     \<and> is_application_json H (hp_headers reply)"

text \<open>The headers of a reply the proxy passes on.\<close>

definition passes_on :: "http_lib \<Rightarrow> header_map \<Rightarrow> string \<Rightarrow> bool" where
  "passes_on H hs name \<longleftrightarrow> \<not> is_response_drop_header name
     \<and> \<not> (\<exists>listed \<in> set (connection_listed_headers H hs). eq_ignore_ascii_case listed name)"

definition add_request_ids :: "http_lib \<Rightarrow> header_map \<Rightarrow> string \<Rightarrow> header_map \<Rightarrow> header_map" where
  "add_request_ids H reply_headers request_id hs =
     (let hs = insert_header H ''x-request-id'' request_id hs in
      case upstream_request_id H reply_headers of
        Some v \<Rightarrow> insert_header H ''headroom-upstream-request-id'' v hs
      | None \<Rightarrow> hs)"

definition buffered_response_to_axum ::
    "('s, 'u) server_env \<Rightarrow> nat \<Rightarrow> header_map \<Rightarrow> string \<Rightarrow> string \<Rightarrow> bool \<Rightarrow> client_response" where
  "buffered_response_to_axum E status hs body request_id body_replaced =
     (let H = ev_http E;
          kept = filter (\<lambda>(name, v). passes_on H hs name
            \<and> \<not> (body_replaced \<and> (name = ''content-length'' \<or> eq_ignore_ascii_case name ''content-encoding''))) hs
      in \<lparr>rs_status = status, rs_headers = add_request_ids H hs request_id kept, rs_chunks = [Inr body]\<rparr>)"

text \<open>
  Iterating a \<open>HeaderMap\<close> by value names only the first value of a header: the later ones
  come without a name.
\<close>

fun first_values :: "header_map \<Rightarrow> header_map" where
  "first_values [] = []"
| "first_values ((name, v) # hs) = (name, v) # filter (\<lambda>(n, _). n \<noteq> name) (first_values hs)"

definition ok_chunks :: "body_chunks \<Rightarrow> string list" where
  "ok_chunks cs = List.map_filter (\<lambda>c. case c of Inr bytes \<Rightarrow> Some bytes | Inl e \<Rightarrow> None) cs"

definition response_to_axum ::
    "('s, 'u) server_env \<Rightarrow> http_reply \<Rightarrow> string \<Rightarrow> string \<Rightarrow> sse_session option \<Rightarrow> ('s, 'u) server
       \<Rightarrow> client_response \<times> ('s, 'u) server" where
  "response_to_axum E reply request_id request_path session sv =
     (let H = ev_http E; hs = hp_headers reply;
          sv = on_stats (record_rate_limit_headers H hs request_path) sv;
          kept = filter (\<lambda>(name, v). passes_on H hs name) (first_values hs);
          sv = (case sse_stream_kind H hs request_path of
                  Some kind \<Rightarrow>
                    (on_stats record_sse_stream sv)\<lparr>sv_tasks := sv_tasks sv @
                      [\<lparr>st_kind = kind, st_session = session, st_chunks = ok_chunks (hp_chunks reply)\<rparr>]\<rparr>
                | None \<Rightarrow> sv)
      in (\<lparr>rs_status = hp_status reply, rs_headers = add_request_ids H hs request_id kept,
           rs_chunks = hp_chunks reply\<rparr>, sv))"

text \<open>
  The spawned parser, run on the chunks that reached its queue: \<open>try_send\<close> drops a chunk when
  the queue is full, so they are a subsequence of the chunks of the stream.
\<close>

definition run_sse_task ::
    "('s, 'u) server_env \<Rightarrow> sse_task \<Rightarrow> string list \<Rightarrow> ('s, 'u) server \<Rightarrow> ('s, 'u) server" where
  "run_sse_task E task delivered sv =
     (let t = sv_ticks sv;
          env = run_sse_state_machine (ev_serde E) (\<lambda>i. (ev_instant E (t + 2 * i), ev_instant E (t + 2 * i + 1)))
                  (st_kind task) (st_session task) delivered
                  \<lparr>env_stats = the_stats (sv_world sv), env_trackers = sv_trackers sv\<rparr>
      in sv\<lparr>sv_world := (sv_world sv)\<lparr>the_stats := env_stats env\<rparr>, sv_trackers := env_trackers env,
            sv_ticks := t + 2 * length (framed_events framer_new delivered)\<rparr>)"

section \<open>Feeding the session trackers\<close>

definition json_cache_usage :: "ccr_provider \<Rightarrow> json \<Rightarrow> u64 \<times> u64" where
  "json_cache_usage provider usage =
     (case provider of
        CcrAnthropic \<Rightarrow>
          (usage_u64 usage [''cache_read_input_tokens''], usage_u64 usage [''cache_creation_input_tokens''])
      | CcrOpenAi \<Rightarrow>
          let details = option_or (json_get ''prompt_tokens_details'' usage) (json_get ''input_tokens_details'' usage);
              cache_read = unwrap_or 0 (option_or (Option.bind details (get_u64 ''cached_tokens''))
                             (usage_u64_opt usage [''cache_read_input_tokens'']));
              creation = usage_u64 usage [''cache_creation_input_tokens''];
              write_tokens = (if creation > 0 then creation
                else saturating_sub (usage_u64 usage [''prompt_tokens'', ''input_tokens'']) cache_read)
          in (cache_read, write_tokens))"

definition update_session_from_json_response ::
    "('s, 'u) server_env \<Rightarrow> sse_session option \<Rightarrow> json \<Rightarrow> ccr_provider \<Rightarrow> ('s, 'u) server \<Rightarrow> ('s, 'u) server" where
  "update_session_from_json_response E session response provider sv =
     (case (session, option_filter is_object (json_get ''usage'' response)) of
        (Some session, Some usage) \<Rightarrow>
          let estimates = sx_estimates session @
                (case (provider, json_get ''content'' response) of
                   (CcrAnthropic, Some content) \<Rightarrow>
                     estimate_message_tokens (ev_serde E)
                       [json_obj [(''role'', JString ''assistant''), (''content'', content)]]
                 | _ \<Rightarrow> []);
              (cache_read, cache_write) = json_cache_usage provider usage;
              (t0, sv) = instant_now E sv; (t1, sv) = instant_now E sv
          in sv\<lparr>sv_trackers := update_from_response t0 t1 (sx_provider session) (sx_session_id session)
                  cache_read cache_write estimates (sv_trackers sv)\<rparr>
      | _ \<Rightarrow> sv)"

end
