(* ===== verification/Proxy_Flow.thy ===== *)
theory Proxy_Flow
  imports Responses
begin

text \<open>
  The handlers of \<open>src/proxy.rs\<close> for one request, from its arrival to the client's response:
  classification, compression, session tracking, the upstream call, continuation, batch
  contexts. The outer option is a panic; the sum is the handler's \<open>HrResult\<close>.
\<close>

type_synonym ('s, 'u) outcome = "((proxy_error + client_response) \<times> ('s, 'u) server) option"

section \<open>Forwarding\<close>

text \<open>The upstream request of a client request with headers \<open>hs\<close>.\<close>

definition forward_request ::
    "('s, 'u) server_env \<Rightarrow> string \<Rightarrow> header_map \<Rightarrow> body_chunks \<Rightarrow> string \<Rightarrow> string option \<Rightarrow> string
       \<Rightarrow> ('s, 'u) server \<Rightarrow> (proxy_error + http_reply) \<times> ('s, 'u) server" where
  "forward_request E http_method hs chunks url client_ip request_id sv =
     send_request E \<lparr>hq_method = http_method, hq_url = url,
       hq_headers = apply_headers (ev_http E) (ev_serde E) hs client_ip request_id, hq_chunks = chunks\<rparr> sv"

definition forward_streaming ::
    "('s, 'u) server_env \<Rightarrow> string \<Rightarrow> header_map \<Rightarrow> body_chunks \<Rightarrow> string \<Rightarrow> string \<Rightarrow> string option
       \<Rightarrow> ('s, 'u) server \<Rightarrow> (proxy_error + client_response) \<times> ('s, 'u) server" where
  "forward_streaming E http_method hs chunks url request_path client_ip sv =
     (let (request_id, sv) = request_id_for E hs sv in
      case forward_request E http_method hs chunks url client_ip request_id sv of
        (Inl err, sv) \<Rightarrow> (Inl err, sv)
      | (Inr reply, sv) \<Rightarrow>
          let (response, sv) = response_to_axum E reply request_id request_path None sv in (Inr response, sv))"

definition forward_buffered ::
    "('s, 'u) server_env \<Rightarrow> string \<Rightarrow> header_map \<Rightarrow> string \<Rightarrow> string \<Rightarrow> string \<Rightarrow> string option
       \<Rightarrow> sse_session option \<Rightarrow> ('s, 'u) server \<Rightarrow> (proxy_error + client_response) \<times> ('s, 'u) server" where
  "forward_buffered E http_method hs body url request_path client_ip session sv =
     (let (request_id, sv) = request_id_for E hs sv in
      case forward_request E http_method hs [Inr body] url client_ip request_id sv of
        (Inl err, sv) \<Rightarrow> (Inl err, sv)
      | (Inr reply, sv) \<Rightarrow>
          if session \<noteq> None \<and> ccr_response_buffer_eligible (ev_http E) reply then
            let sv = on_stats (record_rate_limit_headers (ev_http E) (hp_headers reply) request_path) sv in
            (case read_all (hp_chunks reply) of
               Inl err \<Rightarrow> (Inl err, sv)
             | Inr bytes \<Rightarrow>
                 let sv = (case sd_value (ev_serde E) bytes of
                             Some v \<Rightarrow> update_session_from_json_response E session v CcrOpenAi sv
                           | None \<Rightarrow> sv)
                 in (Inr (buffered_response_to_axum E (hp_status reply) (hp_headers reply) bytes request_id False), sv))
          else
            let (response, sv) = response_to_axum E reply request_id request_path session sv
            in (Inr response, sv))"

definition forward_batch_create ::
    "('s, 'u) server_env \<Rightarrow> string \<Rightarrow> header_map \<Rightarrow> string \<Rightarrow> string \<Rightarrow> string \<Rightarrow> string option
       \<Rightarrow> ('s, 'u) server \<Rightarrow> (proxy_error + client_response) \<times> ('s, 'u) server" where
  "forward_batch_create E http_method hs body url request_path client_ip sv =
     (let (request_id, sv) = request_id_for E hs sv;
          compressed_body = sd_value (ev_serde E) body in
      case forward_request E http_method hs [Inr body] url client_ip request_id sv of
        (Inl err, sv) \<Rightarrow> (Inl err, sv)
      | (Inr reply, sv) \<Rightarrow>
          if \<not> ccr_response_buffer_eligible (ev_http E) reply then
            let (response, sv) = response_to_axum E reply request_id request_path None sv in (Inr response, sv)
          else case read_all (hp_chunks reply) of
            Inl err \<Rightarrow> (Inl err, sv)
          | Inr bytes \<Rightarrow>
              let sv = (case (compressed_body, Option.bind (sd_value (ev_serde E) bytes) (get_str ''id'')) of
                          (Some b, Some batch_id) \<Rightarrow>
                            let (now, sv) = wall_now E sv
                            in sv\<lparr>sv_batches := record_batch_context now batch_id b (sv_batches sv)\<rparr>
                        | _ \<Rightarrow> sv)
              in (Inr (buffered_response_to_axum E (hp_status reply) (hp_headers reply) bytes request_id False), sv))"

text \<open>What follows a buffered reply that parsed as \<open>initial\<close>.\<close>

definition continue_reply ::
    "('s, 'u) server_env \<Rightarrow> json \<Rightarrow> json \<Rightarrow> http_reply \<Rightarrow> string \<Rightarrow> string \<Rightarrow> string \<Rightarrow> header_map \<Rightarrow> string option
       \<Rightarrow> ccr_provider \<Rightarrow> sse_session option \<Rightarrow> ('s, 'u) server \<Rightarrow> ('s, 'u) outcome" where
  "continue_reply E request_body initial reply bytes request_id url hs client_ip provider session sv =
     (let answer = buffered_response_to_axum E (hp_status reply) (hp_headers reply) in
      if extract_ccr_tool_calls (ev_serde E) provider initial = [] then
        Some (Inr (answer bytes request_id False), update_session_from_json_response E session initial provider sv)
      else case run_ccr_continuation E request_body initial url hs client_ip provider sv of
        None \<Rightarrow> None
      | Some ((final_response, changed), sv) \<Rightarrow>
          let sv = update_session_from_json_response E session final_response provider sv in
          Some (if \<not> changed then Inr (answer bytes request_id False)
                else case sd_to_vec (ev_serde E) final_response of
                  None \<Rightarrow> Inl (PlainError (ev_ser_error E final_response))
                | Some body \<Rightarrow> Inr (answer body request_id True), sv))"

definition forward_with_ccr_continuation ::
    "('s, 'u) server_env \<Rightarrow> string \<Rightarrow> header_map \<Rightarrow> string \<Rightarrow> string \<Rightarrow> string \<Rightarrow> string option
       \<Rightarrow> ccr_provider \<Rightarrow> sse_session option \<Rightarrow> ('s, 'u) server \<Rightarrow> ('s, 'u) outcome" where
  "forward_with_ccr_continuation E http_method hs body url request_path client_ip provider session sv =
     (let (request_id, sv) = request_id_for E hs sv in
      case forward_request E http_method hs [Inr body] url client_ip request_id sv of
        (Inl err, sv) \<Rightarrow> Some (Inl err, sv)
      | (Inr reply, sv) \<Rightarrow>
          (case sd_value (ev_serde E) body of
             None \<Rightarrow>
               let (response, sv) = response_to_axum E reply request_id request_path session sv
               in Some (Inr response, sv)
           | Some request_body \<Rightarrow>
               if \<not> ccr_response_buffer_eligible (ev_http E) reply then
                 let (response, sv) = response_to_axum E reply request_id request_path session sv
                 in Some (Inr response, sv)
               else
                 let sv = on_stats (record_rate_limit_headers (ev_http E) (hp_headers reply) request_path) sv in
                 (case read_all (hp_chunks reply) of
                    Inl err \<Rightarrow> Some (Inl err, sv)
                  | Inr bytes \<Rightarrow>
                      (case sd_value (ev_serde E) bytes of
                         None \<Rightarrow> Some (Inr (buffered_response_to_axum E (hp_status reply) (hp_headers reply)
                                   bytes request_id False), sv)
                       | Some initial \<Rightarrow>
                           continue_reply E request_body initial reply bytes request_id url hs client_ip
                             provider session sv))))"

section \<open>Batch results\<close>

definition anthropic_batch_results_batch_id :: "string \<Rightarrow> string \<Rightarrow> string option" where
  "anthropic_batch_results_batch_id http_method path =
     (if http_method \<noteq> ''GET'' then None
      else case Option.bind (strip_prefix ''/v1/messages/batches/'' path) (split_once (CHR ''/'')) of
        None \<Rightarrow> None
      | Some (batch_id, tail) \<Rightarrow> if tail \<noteq> ''results'' \<or> batch_id = [] then None else Some batch_id)"

text \<open>A result line to continue: the value, its message and the parameters of its request.\<close>

definition batch_line_task ::
    "serde \<Rightarrow> (string \<times> json) list \<Rightarrow> string \<Rightarrow> (json \<times> json \<times> json) option" where
  "batch_line_task S contexts line =
     (case sd_value S line of
        None \<Rightarrow> None
      | Some result \<Rightarrow>
          (case (get_str ''custom_id'' result, get_in ''result'' ''message'' result) of
             (Some custom_id, Some message) \<Rightarrow>
               (case map_of contexts custom_id of
                  None \<Rightarrow> None
                | Some params \<Rightarrow>
                    if extract_ccr_tool_calls S CcrAnthropic message = [] then None
                    else Some (result, message, params))
           | _ \<Rightarrow> None))"

definition set_result_message :: "json \<Rightarrow> json \<Rightarrow> json" where
  "set_result_message result message =
     (case json_get ''result'' result of
        Some inner \<Rightarrow> obj_set ''result'' (obj_set ''message'' message inner) result
      | None \<Rightarrow> result)"

definition batch_result_line ::
    "('s, 'u) server_env \<Rightarrow> string \<Rightarrow> header_map \<Rightarrow> string option \<Rightarrow> (string \<times> json) list \<Rightarrow> string
       \<Rightarrow> ('s, 'u) server \<Rightarrow> ((proxy_error + string \<times> bool) \<times> ('s, 'u) server) option" where
  "batch_result_line E messages_url hs client_ip contexts line sv =
     (case batch_line_task (ev_serde E) contexts line of
        None \<Rightarrow> Some (Inr (line, False), sv)
      | Some (result, message, params) \<Rightarrow>
          (case run_ccr_continuation E params message messages_url hs client_ip CcrAnthropic sv of
             None \<Rightarrow> None
           | Some ((final_message, changed), sv) \<Rightarrow>
               if \<not> changed then Some (Inr (line, False), sv)
               else
                 let result = set_result_message result final_message;
                     sv = on_stats record_ccr_batch_result_processed sv
                 in Some (case sd_to_vec (ev_serde E) result of
                            None \<Rightarrow> Inl (PlainError (ev_ser_error E result))
                          | Some printed \<Rightarrow> Inr (printed, True), sv)))"

fun batch_result_lines ::
    "('s, 'u) server_env \<Rightarrow> string \<Rightarrow> header_map \<Rightarrow> string option \<Rightarrow> (string \<times> json) list \<Rightarrow> string list
       \<Rightarrow> string list \<Rightarrow> bool \<Rightarrow> ('s, 'u) server
       \<Rightarrow> ((proxy_error + string list \<times> bool) \<times> ('s, 'u) server) option" where
  "batch_result_lines E messages_url hs client_ip contexts [] lines_out processed_any sv =
     Some (Inr (lines_out, processed_any), sv)"
| "batch_result_lines E messages_url hs client_ip contexts (line # rest) lines_out processed_any sv =
     (if trim line = [] then
        batch_result_lines E messages_url hs client_ip contexts rest lines_out processed_any sv
      else case batch_result_line E messages_url hs client_ip contexts line sv of
        None \<Rightarrow> None
      | Some (Inl err, sv) \<Rightarrow> Some (Inl err, sv)
      | Some (Inr (written, processed), sv) \<Rightarrow>
          batch_result_lines E messages_url hs client_ip contexts rest (lines_out @ [written])
            (processed_any \<or> processed) sv)"

definition batch_messages_url :: "('s, 'u) server_env \<Rightarrow> string" where
  "batch_messages_url E = url_set_path (ev_url E) ''/v1/messages'' (ev_anthropic_upstream E)"

definition forward_batch_results ::
    "('s, 'u) server_env \<Rightarrow> header_map \<Rightarrow> string \<Rightarrow> string \<Rightarrow> string option \<Rightarrow> (string \<times> json) list
       \<Rightarrow> ('s, 'u) server \<Rightarrow> ('s, 'u) outcome" where
  "forward_batch_results E hs url request_path client_ip contexts sv =
     (let (request_id, sv) = request_id_for E hs sv in
      case forward_request E ''GET'' hs [] url client_ip request_id sv of
        (Inl err, sv) \<Rightarrow> Some (Inl err, sv)
      | (Inr reply, sv) \<Rightarrow>
          if hp_status reply \<noteq> 200 \<or> header_get ''content-encoding'' (hp_headers reply) \<noteq> None then
            let (response, sv) = response_to_axum E reply request_id request_path None sv
            in Some (Inr response, sv)
          else case read_all (hp_chunks reply) of
            Inl err \<Rightarrow> Some (Inl err, sv)
          | Inr bytes \<Rightarrow>
              let answer = buffered_response_to_axum E (hp_status reply) (hp_headers reply) in
              if \<not> utf8_valid bytes then Some (Inr (answer bytes request_id False), sv)
              else
                (case batch_result_lines E (batch_messages_url E) hs client_ip contexts (lines_of bytes) [] False sv of
                   None \<Rightarrow> None
                 | Some (Inl err, sv) \<Rightarrow> Some (Inl err, sv)
                 | Some (Inr (lines_out, processed_any), sv) \<Rightarrow>
                     Some (Inr (if \<not> processed_any then answer bytes request_id False
                                else answer (join [LF] lines_out @ [LF]) request_id True), sv)))"

end
