(* ===== verification/Proxy_Http.thy ===== *)
theory Proxy_Http
  imports Proxy_Flow
begin

text \<open>
  The entry points of \<open>src/proxy.rs\<close>: \<open>proxy_http\<close> for every proxied path,
  \<open>buffer_and_forward_known_json\<close> for the paths it compresses, and the compress-only endpoint.
\<close>

section \<open>Per-target tables\<close>

fun target_shape :: "compression_target \<Rightarrow> api_shape" where
  "target_shape TargetOpenAiChatCompletions = OpenAiChatCompletions"
| "target_shape TargetOpenAiResponses = OpenAiResponses"
| "target_shape TargetAnthropicMessages = AnthropicMessages"
| "target_shape TargetAnthropicMessageBatches = AnthropicMessageBatches"

fun target_session_provider :: "compression_target \<Rightarrow> session_provider option" where
  "target_session_provider TargetAnthropicMessages = Some SessionAnthropic"
| "target_session_provider TargetOpenAiChatCompletions = Some SessionOpenAi"
| "target_session_provider TargetOpenAiResponses = Some SessionOpenAi"
| "target_session_provider TargetAnthropicMessageBatches = None"

fun target_beta_header :: "compression_target \<Rightarrow> string option" where
  "target_beta_header TargetAnthropicMessages = Some ''anthropic-beta''"
| "target_beta_header TargetOpenAiChatCompletions = Some ''openai-beta''"
| "target_beta_header TargetOpenAiResponses = Some ''openai-beta''"
| "target_beta_header TargetAnthropicMessageBatches = None"

section \<open>Compressing and forwarding a known JSON request\<close>

definition requests_missing_or_empty :: "json \<Rightarrow> bool" where
  "requests_missing_or_empty parsed =
     (case json_get ''requests'' parsed of
        None \<Rightarrow> True | Some JNull \<Rightarrow> True | Some (JArray rs) \<Rightarrow> rs = [] | Some _ \<Rightarrow> False)"

definition empty_batch_response :: "('s, 'u) server_env \<Rightarrow> client_response" where
  "empty_batch_response E = json_response E 400 (json_obj [(''type'', JString ''error''),
     (''error'', json_obj [(''type'', JString ''invalid_request_error''),
        (''message'', JString ''Missing or empty 'requests' field in batch request'')])])"

definition session_identity ::
    "('s, 'u) server_env \<Rightarrow> compression_target \<Rightarrow> header_map \<Rightarrow> json option \<Rightarrow> session_key option" where
  "session_identity E target hs parsed_request =
     (case (target_session_provider target, parsed_request) of
        (Some provider, Some parsed) \<Rightarrow>
          Some (provider,
            if target = TargetOpenAiResponses
            then compute_responses_session_id (ev_http E) (ev_sha256 E) hs parsed
            else compute_session_id (ev_http E) (ev_sha256 E) hs parsed)
      | _ \<Rightarrow> None)"

definition frozen_floor ::
    "('s, 'u) server_env \<Rightarrow> session_key option \<Rightarrow> ('s, 'u) server \<Rightarrow> nat \<times> ('s, 'u) server" where
  "frozen_floor E ident sv =
     (case ident of
        None \<Rightarrow> (0, sv)
      | Some (provider, session_id) \<Rightarrow>
          let (t0, sv) = instant_now E sv; (t1, sv) = instant_now E sv;
              (frozen_count, trackers) = frozen_message_count t0 t1 provider session_id (sv_trackers sv)
          in (frozen_count, sv\<lparr>sv_trackers := trackers\<rparr>))"

definition set_beta_header ::
    "http_lib \<Rightarrow> string \<Rightarrow> string option \<Rightarrow> string \<Rightarrow> header_map \<Rightarrow> header_map" where
  "set_beta_header H header_name client_value merged hs =
     (if merged \<noteq> [] \<and> Some merged \<noteq> client_value then insert_header H header_name merged hs else hs)"

definition merge_beta_header ::
    "('s, 'u) server_env \<Rightarrow> compression_target \<Rightarrow> session_key option \<Rightarrow> header_map \<Rightarrow> ('s, 'u) server
       \<Rightarrow> header_map \<times> ('s, 'u) server" where
  "merge_beta_header E target ident hs sv =
     (case (target_beta_header target, ident) of
        (Some header_name, Some (provider, session_id)) \<Rightarrow>
          let client_value = header_str (ev_http E) header_name hs;
              (merged, trackers) = sticky_betas provider session_id client_value (sv_trackers sv)
          in (set_beta_header (ev_http E) header_name client_value merged hs, sv\<lparr>sv_trackers := trackers\<rparr>)
      | _ \<Rightarrow> (hs, sv))"

definition forwarded_estimates :: "serde \<Rightarrow> compression_target \<Rightarrow> string \<Rightarrow> u64 list" where
  "forwarded_estimates S target body =
     (case sd_value S body of
        None \<Rightarrow> []
      | Some forwarded \<Rightarrow>
          if target = TargetOpenAiResponses then estimate_responses_request_tokens S forwarded
          else case get_array ''messages'' forwarded of
            Some messages \<Rightarrow> estimate_message_tokens S messages
          | None \<Rightarrow> [])"

definition session_ctx :: "serde \<Rightarrow> compression_target \<Rightarrow> session_key option \<Rightarrow> string \<Rightarrow> sse_session option" where
  "session_ctx S target ident body =
     map_option (\<lambda>(provider, session_id). \<lparr>sx_provider = provider, sx_session_id = session_id,
       sx_estimates = forwarded_estimates S target body\<rparr>) ident"

definition forward_target ::
    "('s, 'u) server_env \<Rightarrow> compression_target \<Rightarrow> string \<Rightarrow> header_map \<Rightarrow> string \<Rightarrow> string \<Rightarrow> string
       \<Rightarrow> string option \<Rightarrow> sse_session option \<Rightarrow> ('s, 'u) server \<Rightarrow> ('s, 'u) outcome" where
  "forward_target E target http_method hs body url request_path client_ip session sv =
     (case target of
        TargetAnthropicMessages \<Rightarrow>
          forward_with_ccr_continuation E http_method hs body url request_path client_ip CcrAnthropic session sv
      | TargetOpenAiChatCompletions \<Rightarrow>
          forward_with_ccr_continuation E http_method hs body url request_path client_ip CcrOpenAi session sv
      | TargetAnthropicMessageBatches \<Rightarrow>
          Some (forward_batch_create E http_method hs body url request_path client_ip sv)
      | TargetOpenAiResponses \<Rightarrow>
          Some (forward_buffered E http_method hs body url request_path client_ip session sv))"

text \<open>The request's body compressed for its target, with the frozen floor of its session.\<close>

definition compress_for_target ::
    "('s, 'u) server_env \<Rightarrow> compression_target \<Rightarrow> header_map \<Rightarrow> nat \<Rightarrow> string \<Rightarrow> ('s, 'u) server
       \<Rightarrow> (request_compression \<times> ('s, 'u) server) option" where
  "compress_for_target E target hs frozen_count body sv =
     (let (ops, sv) = store_ops E sv;
          ctx = \<lparr>cc_auth_mode = classify_auth_mode (ev_http E) hs, cc_frozen_message_count = frozen_count,
                 cc_compress_user_text = ev_compress_user_text E, cc_provider_metadata = True\<rparr>
      in case compress_json_request_ctx (ev_serde E) (ev_sha256 E) (ev_md5 E) ops body (target_shape target) ctx
                (sv_world sv) of
           None \<Rightarrow> None
         | Some (mutation, w) \<Rightarrow>
             Some (mutation, on_stats (record_mutation_stats mutation) (sv\<lparr>sv_world := w\<rparr>)))"

text \<open>The rest of it: the body is compressed and forwarded, and the response says what was done.\<close>

definition answer_request ::
    "('s, 'u) server_env \<Rightarrow> client_request \<Rightarrow> compression_target \<Rightarrow> string \<Rightarrow> string option
       \<Rightarrow> session_key option \<Rightarrow> nat \<Rightarrow> header_map \<Rightarrow> string \<Rightarrow> ('s, 'u) server \<Rightarrow> ('s, 'u) outcome" where
  "answer_request E req target url client_ip ident frozen_count hs body sv =
     (case compress_for_target E target hs frozen_count body sv of
        None \<Rightarrow> None
      | Some (mutation, sv) \<Rightarrow>
          (case forward_target E target (cq_method req) hs (rc_body mutation) url (cq_path req) client_ip
                  (session_ctx (ev_serde E) target ident (rc_body mutation)) sv of
             None \<Rightarrow> None
           | Some (Inl err, sv) \<Rightarrow> Some (Inl err, sv)
           | Some (Inr response, sv) \<Rightarrow>
               Some (Inr (response\<lparr>rs_headers :=
                 apply_compression_response_headers (ev_http E) mutation (rs_headers response)\<rparr>), sv)))"

definition buffer_and_forward_known_json ::
    "('s, 'u) server_env \<Rightarrow> client_request \<Rightarrow> compression_target \<Rightarrow> string \<Rightarrow> string option
       \<Rightarrow> ('s, 'u) server \<Rightarrow> ('s, 'u) outcome" where
  "buffer_and_forward_known_json E req target url client_ip sv =
     (case read_limited_body E req of
        Inl err \<Rightarrow> Some (Inl err, sv)
      | Inr body \<Rightarrow>
          let parsed_request = sd_value (ev_serde E) body in
          if target = TargetAnthropicMessageBatches \<and> map_option requests_missing_or_empty parsed_request = Some True
          then Some (Inr (empty_batch_response E), on_stats (record_skipped_request ''empty_batch'') sv)
          else
            let ident = session_identity E target (cq_headers req) parsed_request;
                (frozen_count, sv) = frozen_floor E ident sv;
                (hs, sv) = merge_beta_header E target ident (cq_headers req) sv
            in answer_request E req target url client_ip ident frozen_count hs body sv)"

section \<open>Every proxied request\<close>

definition or_upstream_error ::
    "(proxy_error + client_response) \<times> ('s, 'u) server \<Rightarrow> client_response \<times> ('s, 'u) server" where
  "or_upstream_error = (\<lambda>(r, sv). (case r of Inl err \<Rightarrow> upstream_error_response err | Inr response \<Rightarrow> response, sv))"

text \<open>Why a request with a target is forwarded as it is, if it is.\<close>

definition bypass_reason :: "('s, 'u) server_env \<Rightarrow> header_map \<Rightarrow> string option" where
  "bypass_reason E hs =
     (if \<not> ev_compression_enabled E \<or> \<not> allows_compression (ev_compression_mode E) then Some ''compression_disabled''
      else if compression_bypass_requested (ev_http E) hs then Some ''bypass_header''
      else if \<not> is_application_json (ev_http E) hs then Some ''non_json_content_type''
      else None)"

definition or_payload_error ::
    "(proxy_error + client_response) \<times> ('s, 'u) server \<Rightarrow> client_response \<times> ('s, 'u) server" where
  "or_payload_error = (\<lambda>(r, sv).
     (case r of
        Inr response \<Rightarrow> response
      | Inl err \<Rightarrow>
          if contains ''payload_too_large'' (error_text err) then error_response 413 (error_text err)
          else upstream_error_response err, sv))"

definition batch_results_contexts ::
    "('s, 'u) server_env \<Rightarrow> client_request \<Rightarrow> ('s, 'u) server \<Rightarrow> (string \<times> json) list option \<times> ('s, 'u) server" where
  "batch_results_contexts E req sv =
     (case anthropic_batch_results_batch_id (cq_method req) (cq_path req) of
        None \<Rightarrow> (None, sv)
      | Some batch_id \<Rightarrow>
          let (now, sv) = wall_now E sv; (contexts, batches) = batch_context now batch_id (sv_batches sv)
          in (contexts, sv\<lparr>sv_batches := batches\<rparr>))"

definition proxy_http ::
    "('s, 'u) server_env \<Rightarrow> client_request \<Rightarrow> request_class \<Rightarrow> string option \<Rightarrow> ('s, 'u) server
       \<Rightarrow> (client_response \<times> ('s, 'u) server) option" where
  "proxy_http E req class client_ip sv =
     (let sv = on_stats record_request sv;
          url = upstream_url E (rq_provider class) (cq_path req) (cq_query req);
          stream = (\<lambda>sv. or_upstream_error
            (forward_streaming E (cq_method req) (cq_headers req) (cq_chunks req) url (cq_path req) client_ip sv))
      in case rq_target class of
           Some target \<Rightarrow>
             (case bypass_reason E (cq_headers req) of
                Some reason \<Rightarrow> Some (stream (on_stats (record_skipped_request reason) sv))
              | None \<Rightarrow> map_option or_payload_error (buffer_and_forward_known_json E req target url client_ip sv))
         | None \<Rightarrow>
             let sv = (case rq_skipped_reason class of
                         Some reason \<Rightarrow> on_stats (record_skipped_request reason) sv | None \<Rightarrow> sv);
                 (contexts, sv) = batch_results_contexts E req sv
             in (case contexts of
                   Some contexts \<Rightarrow>
                     map_option or_upstream_error
                       (forward_batch_results E (cq_headers req) url (cq_path req) client_ip contexts sv)
                 | None \<Rightarrow> Some (stream sv)))"

definition proxy_http_handler ::
    "('s, 'u) server_env \<Rightarrow> client_request \<Rightarrow> string option \<Rightarrow> ('s, 'u) server
       \<Rightarrow> (client_response \<times> ('s, 'u) server) option" where
  "proxy_http_handler E req client_ip sv =
     proxy_http E req (classify_request (cq_method req) (cq_path req)) client_ip sv"

section \<open>The compress-only endpoint\<close>

definition invalid_request :: "('s, 'u) server_env \<Rightarrow> string \<Rightarrow> client_response" where
  "invalid_request E message = json_response E 400 (json_obj [(''error'',
     json_obj [(''type'', JString ''invalid_request''), (''message'', JString message)])])"

definition messages_or_empty :: "json \<Rightarrow> json" where
  "messages_or_empty v = unwrap_or (JArray []) (json_get ''messages'' v)"

definition bypassed_value :: "json \<Rightarrow> json" where
  "bypassed_value v = json_obj [(''messages'', messages_or_empty v),
     (''tokens_before'', json_nat 0), (''tokens_after'', json_nat 0), (''tokens_saved'', json_nat 0),
     (''compression_ratio'', JNumber (Float 1)), (''transforms_applied'', JArray []), (''ccr_hashes'', JArray []),
     (''skipped_reason'', JString ''bypass_header'')]"

text \<open>A ratio in \<open>f64\<close> is the exact rational it approximates.\<close>

definition compression_ratio :: "request_compression \<Rightarrow> rat" where
  "compression_ratio mutation =
     (if rc_tokens_before mutation = 0 then 1
      else of_nat (rc_tokens_after mutation) / of_nat (rc_tokens_before mutation))"

definition compressed_value :: "request_compression \<Rightarrow> json \<Rightarrow> json" where
  "compressed_value mutation mutated =
     (let response = json_obj [(''messages'', messages_or_empty mutated),
            (''tokens_before'', json_nat (rc_tokens_before mutation)),
            (''tokens_after'', json_nat (rc_tokens_after mutation)),
            (''tokens_saved'', json_nat (rc_tokens_before mutation - rc_tokens_after mutation)),
            (''compression_ratio'', JNumber (Float (compression_ratio mutation))),
            (''transforms_applied'', JArray (if rc_compressed mutation then [JString ''ccr_live_zone''] else [])),
            (''ccr_hashes'', JArray (map JString (rc_hashes mutation)))];
          response = (case rc_skipped_reason mutation of
              Some reason \<Rightarrow> obj_set ''skipped_reason'' (JString reason) response | None \<Rightarrow> response)
      in case json_get ''tools'' mutated of
           Some tools \<Rightarrow> obj_set ''tools'' tools response
         | None \<Rightarrow> response)"

definition compress_only_handler ::
    "('s, 'u) server_env \<Rightarrow> client_request \<Rightarrow> ('s, 'u) server \<Rightarrow> (client_response \<times> ('s, 'u) server) option" where
  "compress_only_handler E req sv =
     (let sv = on_stats record_request sv; hs = cq_headers req in
      case read_limited_body E req of
        Inl err \<Rightarrow>
          Some (error_response (if contains ''payload_too_large'' (error_text err) then 413 else 400) (error_text err), sv)
      | Inr body \<Rightarrow>
          (case sd_value (ev_serde E) body of
             None \<Rightarrow> Some (invalid_request E ''Invalid JSON in request body.'', sv)
           | Some v \<Rightarrow>
               if compression_bypass_requested (ev_http E) hs then
                 Some (json_response E 200 (bypassed_value v), on_stats (record_skipped_request ''bypass_header'') sv)
               else if json_get ''messages'' v = None then
                 Some (invalid_request E ''Missing required field: messages'', sv)
               else if json_get ''model'' v = None then
                 Some (invalid_request E ''Missing required field: model'', sv)
               else
                 let (ops, sv) = store_ops E sv in
                 (case compress_json_request_with_auth (ev_serde E) (ev_sha256 E) (ev_md5 E) ops body
                         OpenAiChatCompletions (classify_auth_mode (ev_http E) hs) (sv_world sv) of
                    None \<Rightarrow> None
                  | Some (mutation, w) \<Rightarrow>
                      let sv = on_stats (record_mutation_stats mutation) (sv\<lparr>sv_world := w\<rparr>);
                          mutated = unwrap_or v (sd_value (ev_serde E) (rc_body mutation))
                      in Some (json_response E 200 (compressed_value mutation mutated), sv))))"

end
