(* ===== verification/Continuation_Safety.thy ===== *)
theory Continuation_Safety
  imports Continuation
begin

text \<open>
  What the continuation promises: the locale \<open>tool_call_protocol\<close> states the contract of a
  provider's tool calls and their stripping, interpreted for Anthropic and OpenAI; the
  properties of the loop rest on it.
\<close>

section \<open>The contract of a provider\<close>

locale tool_call_protocol =
  fixes calls :: "json \<Rightarrow> json list"
    and private_call :: "json \<Rightarrow> bool"
    and strip :: "json \<Rightarrow> json option"
  assumes strip_calls [laws]:
      "strip r = Some r' \<Longrightarrow> calls r' = filter (\<lambda>c. \<not> private_call c) (calls r)"
    and strip_mixed [laws]:
      "strip r = Some r' \<Longrightarrow>
         (\<exists>c \<in> set (calls r). private_call c) \<and> (\<exists>c \<in> set (calls r). \<not> private_call c)"
    and strip_none [laws]:
      "strip r = None \<Longrightarrow>
         (\<forall>c \<in> set (calls r). private_call c) \<or> (\<forall>c \<in> set (calls r). \<not> private_call c)"
begin

definition stripped :: "json \<Rightarrow> json" where
  "stripped r = (case strip r of Some r' \<Rightarrow> r' | None \<Rightarrow> r)"

lemma stripped_pure:
  "(\<forall>c \<in> set (calls (stripped r)). private_call c) \<or> (\<forall>c \<in> set (calls (stripped r)). \<not> private_call c)"
  using strip_calls[of r] strip_none[of r] by (cases "strip r") (auto simp: stripped_def)

lemma stripped_keeps_own:
  "filter (\<lambda>c. \<not> private_call c) (calls (stripped r)) = filter (\<lambda>c. \<not> private_call c) (calls r)"
  using strip_calls[of r] by (cases "strip r") (auto simp: stripped_def)

lemma strip_idempotent: "strip r = Some r' \<Longrightarrow> strip r' = None"
  using strip_calls[of r r'] strip_mixed[of r'] by (cases "strip r'") auto

end

section \<open>Anthropic\<close>

lemma get_array_set: "get_array k (obj_set k x v) = (if is_object v then as_array x else get_array k v)"
  by (cases v) (auto simp: get_array_def is_object_def)

lemma get_array_object: "get_array k v = Some xs \<Longrightarrow> is_object v"
  by (cases v) (auto simp: get_array_def is_object_def)

lemma json_get_obj_set: "json_get k' (obj_set k x v) = (if is_object v \<and> k' = k then Some x else json_get k' v)"
  by (cases v) (auto simp: is_object_def)

lemma json_get_obj_unset: "json_get k' (obj_unset k v) = (if k' = k then None else json_get k' v)"
  by (cases v) auto

lemma is_object_set [simp]: "is_object (obj_set k x v) = is_object v"
  by (cases v) (auto simp: is_object_def)

lemma json_get_object: "json_get k v = Some x \<Longrightarrow> is_object v"
  by (cases v) (auto simp: is_object_def)

interpretation anthropic: tool_call_protocol
  "provider_tool_calls CcrAnthropic" "is_ccr_call S CcrAnthropic" "strip_anthropic S" for S
proof
  fix r r' :: json
  {
    assume "strip_anthropic S r = Some r'"
    then obtain content where content: "get_array ''content'' r = Some content"
      and r': "r' = obj_set ''content''
        (JArray (filter (\<lambda>b. \<not> (is_tool_use b \<and> is_ccr_call S CcrAnthropic b)) content)) r"
      and mixed: "\<exists>b \<in> set content. is_tool_use b \<and> is_ccr_call S CcrAnthropic b"
        "\<exists>b \<in> set content. is_tool_use b \<and> \<not> is_ccr_call S CcrAnthropic b"
      by (auto simp: strip_anthropic_def Let_def filter_empty_conv split: option.splits if_splits)
    show "provider_tool_calls CcrAnthropic r' = filter (\<lambda>c. \<not> is_ccr_call S CcrAnthropic c) (provider_tool_calls CcrAnthropic r)"
      using content get_array_object[OF content]
      by (auto simp: r' get_array_set intro: filter_cong)
    show "(\<exists>c \<in> set (provider_tool_calls CcrAnthropic r). is_ccr_call S CcrAnthropic c)
        \<and> (\<exists>c \<in> set (provider_tool_calls CcrAnthropic r). \<not> is_ccr_call S CcrAnthropic c)"
      using content mixed by auto
  }
  assume "strip_anthropic S r = None"
  then show "(\<forall>c \<in> set (provider_tool_calls CcrAnthropic r). is_ccr_call S CcrAnthropic c)
      \<or> (\<forall>c \<in> set (provider_tool_calls CcrAnthropic r). \<not> is_ccr_call S CcrAnthropic c)"
    by (auto simp: strip_anthropic_def Let_def filter_empty_conv split: option.splits if_splits)
qed

section \<open>OpenAI\<close>

definition calls_of :: "json \<Rightarrow> json list" where
  "calls_of choice = unwrap_or [] (choice_tool_calls choice)"

lemma concat_tool_calls: "concat (List.map_filter choice_tool_calls cs) = concat (map calls_of cs)"
  by (induction cs) (auto simp: List.map_filter_simps calls_of_def split: option.splits)

lemma openai_calls: "get_array ''choices'' r = Some cs \<Longrightarrow> provider_tool_calls CcrOpenAi r = concat (map calls_of cs)"
  by (simp add: concat_tool_calls)

lemma choice_tool_calls_message: "choice_tool_calls c = Some calls \<Longrightarrow> \<exists>m. json_get ''message'' c = Some m \<and> json_get ''tool_calls'' m = Some (JArray calls)"
  by (cases "json_get ''message'' c"; cases "get_in ''message'' ''tool_calls'' c")
    (auto simp: choice_tool_calls_def get_in_def elim: as_array.elims)

lemma strip_choice_calls:
  assumes "strip_choice S c = (c', before, after)"
  shows "calls_of c' = filter (\<lambda>call. \<not> is_ccr_call S CcrOpenAi call) (calls_of c)
    \<and> before = length (calls_of c) \<and> after = length (calls_of c')"
proof (cases "choice_tool_calls c")
  case None
  then show ?thesis using assms by (auto simp: strip_choice_def calls_of_def split: option.splits)
next
  case (Some calls)
  then obtain m where m: "json_get ''message'' c = Some m" "json_get ''tool_calls'' m = Some (JArray calls)"
    using choice_tool_calls_message by blast
  note obj = json_get_object[OF m(1)] json_get_object[OF m(2)]
  let ?kept = "filter (\<lambda>call. \<not> is_ccr_call S CcrOpenAi call) calls"
  show ?thesis
    using assms m obj Some
    by (auto simp: strip_choice_def Let_def calls_of_def choice_tool_calls_def get_in_def json_get_obj_set
        json_get_obj_unset split: if_splits)
qed

lemma length_filter_all: "length xs = length (filter P xs) \<longleftrightarrow> (\<forall>x \<in> set xs. P x)"
proof (cases "\<forall>x \<in> set xs. P x")
  case True
  then show ?thesis by simp
next
  case False
  then obtain x where "x \<in> set xs" "\<not> P x" by blast
  then have "length (filter P xs) < length xs" by (rule length_filter_less)
  then show ?thesis using False by simp
qed

lemma strip_openai_cases:
  fixes S r
  defines "own \<equiv> \<lambda>call. \<not> is_ccr_call S CcrOpenAi call"
  shows "case strip_openai S r of
      Some r' \<Rightarrow> provider_tool_calls CcrOpenAi r' = filter own (provider_tool_calls CcrOpenAi r)
        \<and> (\<exists>c \<in> set (provider_tool_calls CcrOpenAi r). \<not> own c)
        \<and> (\<exists>c \<in> set (provider_tool_calls CcrOpenAi r). own c)
    | None \<Rightarrow> (\<forall>c \<in> set (provider_tool_calls CcrOpenAi r). \<not> own c)
        \<or> (\<forall>c \<in> set (provider_tool_calls CcrOpenAi r). own c)"
proof (cases "get_array ''choices'' r")
  case None
  then show ?thesis by (simp add: strip_openai_def option_filter_def)
next
  case (Some cs)
  note calls = openai_calls[OF Some]
  let ?n = "\<lambda>c. length (calls_of c)"
  have choice: "calls_of (fst (strip_choice S c)) = filter own (calls_of c)
      \<and> fst (snd (strip_choice S c)) = ?n c \<and> snd (snd (strip_choice S c)) = length (filter own (calls_of c))" for c
    using strip_choice_calls[of S c] by (cases "strip_choice S c") (auto simp: own_def)
  have removed: "(\<exists>(c, before, after) \<in> set (map (strip_choice S) cs). after \<noteq> before)
      \<longleftrightarrow> (\<exists>c \<in> set cs. length (filter own (calls_of c)) \<noteq> ?n c)"
    using choice by (auto simp: case_prod_unfold)
  have some_private: "length (filter own (calls_of c)) \<noteq> ?n c \<longleftrightarrow> (\<exists>x \<in> set (calls_of c). \<not> own x)" for c
    using length_filter_all[of "calls_of c" own] by metis
  have remaining: "sum_list (map (\<lambda>(c, before, after). after) (map (strip_choice S) cs)) = 0
      \<longleftrightarrow> (\<forall>c \<in> set cs. filter own (calls_of c) = [])"
    using choice by (simp add: case_prod_unfold comp_def)
  have after: "concat (map calls_of (map fst (map (strip_choice S) cs))) = filter own (concat (map calls_of cs))"
    using choice by (simp add: comp_def filter_concat)
  have new: "get_array ''choices'' (obj_set ''choices'' (JArray xs) r) = Some xs" for xs
    using get_array_object[OF Some] by (simp add: get_array_set)
  show ?thesis
  proof (cases "(\<exists>c \<in> set cs. \<exists>x \<in> set (calls_of c). \<not> own x) \<and> \<not> (\<forall>c \<in> set cs. filter own (calls_of c) = [])")
    case True
    then have "cs \<noteq> []" by auto
    have "strip_openai S r = Some (obj_set ''choices'' (JArray (map fst (map (strip_choice S) cs))) r)"
      using True \<open>cs \<noteq> []\<close> Some removed remaining some_private
      by (simp only: strip_openai_def Let_def option_filter_def option.case if_True if_False
          not_False_eq_True simp_thms)
    then have "provider_tool_calls CcrOpenAi (the (strip_openai S r)) = filter own (provider_tool_calls CcrOpenAi r)"
      using openai_calls[OF new] after calls by simp
    moreover have "(\<exists>c \<in> set (provider_tool_calls CcrOpenAi r). \<not> own c)
        \<and> (\<exists>c \<in> set (provider_tool_calls CcrOpenAi r). own c)"
      using True unfolding calls by (auto simp: filter_empty_conv)
    ultimately show ?thesis
      using \<open>strip_openai S r = _\<close> by simp
  next
    case False
    have "strip_openai S r = None"
      using False Some removed remaining some_private
      by (cases "cs = []") (simp_all only: strip_openai_def Let_def option_filter_def option.case if_True if_False
          not_False_eq_True simp_thms, auto)
    then show ?thesis using False unfolding calls by (auto simp: filter_empty_conv)
  qed
qed

interpretation openai: tool_call_protocol
  "provider_tool_calls CcrOpenAi" "is_ccr_call S CcrOpenAi" "strip_openai S" for S
proof
  fix r r' :: json
  {
    assume "strip_openai S r = Some r'"
    with strip_openai_cases[where S = S and r = r]
    show "provider_tool_calls CcrOpenAi r' = filter (\<lambda>c. \<not> is_ccr_call S CcrOpenAi c) (provider_tool_calls CcrOpenAi r)"
      "(\<exists>c \<in> set (provider_tool_calls CcrOpenAi r). is_ccr_call S CcrOpenAi c)
        \<and> (\<exists>c \<in> set (provider_tool_calls CcrOpenAi r). \<not> is_ccr_call S CcrOpenAi c)"
      by simp_all
  }
  assume "strip_openai S r = None"
  with strip_openai_cases[where S = S and r = r]
  show "(\<forall>c \<in> set (provider_tool_calls CcrOpenAi r). is_ccr_call S CcrOpenAi c)
      \<or> (\<forall>c \<in> set (provider_tool_calls CcrOpenAi r). \<not> is_ccr_call S CcrOpenAi c)"
    by simp
qed

section \<open>Either provider\<close>

interpretation ccr: tool_call_protocol
  "provider_tool_calls p" "is_ccr_call S p" "strip_ccr_tool_calls S p" for S :: serde and p
proof (cases p)
  case CcrAnthropic
  have "strip_ccr_tool_calls S CcrAnthropic = strip_anthropic S" by (simp add: fun_eq_iff)
  then show "tool_call_protocol (provider_tool_calls p) (is_ccr_call S p) (strip_ccr_tool_calls S p)"
    unfolding CcrAnthropic by (simp add: anthropic.tool_call_protocol_axioms)
next
  case CcrOpenAi
  have "strip_ccr_tool_calls S CcrOpenAi = strip_openai S" by (simp add: fun_eq_iff)
  then show "tool_call_protocol (provider_tool_calls p) (is_ccr_call S p) (strip_ccr_tool_calls S p)"
    unfolding CcrOpenAi by (simp add: openai.tool_call_protocol_axioms)
qed

lemma extract_empty: "extract_ccr_tool_calls S p r = [] \<longleftrightarrow> (\<forall>c \<in> set (provider_tool_calls p r). \<not> is_ccr_call S p c)"
  by (auto simp: extract_ccr_tool_calls_def is_ccr_call_def List.map_filter_def filter_empty_conv)

lemma map_filter_pair:
  "map fst (List.map_filter (\<lambda>x. map_option (Pair x) (f x)) xs) = filter (\<lambda>x. f x \<noteq> None) xs"
  by (induction xs) (auto simp: List.map_filter_simps split: option.splits)

lemma extract_calls: "map fst (extract_ccr_tool_calls S p r) = filter (is_ccr_call S p) (provider_tool_calls p r)"
  unfolding extract_ccr_tool_calls_def map_filter_pair by (simp only: is_ccr_call_def[abs_def])

lemma extract_length:
  "length (extract_ccr_tool_calls S p r) = length (filter (is_ccr_call S p) (provider_tool_calls p r))"
  unfolding extract_calls[symmetric] by simp

lemma extract_all:
  "length (provider_tool_calls p r) = length (extract_ccr_tool_calls S p r)
     \<longleftrightarrow> (\<forall>c \<in> set (provider_tool_calls p r). is_ccr_call S p c)"
  unfolding extract_length by (rule length_filter_all)

section \<open>The rounds\<close>

lemma strip_current_stripped:
  "fst (strip_current S p cur) = ccr.stripped S p (fst cur)"
  "\<not> snd (strip_current S p cur) \<Longrightarrow> strip_current S p cur = cur"
  by (cases cur; auto simp: strip_current_def ccr.stripped_def split: option.splits)+

text \<open>One round.\<close>

lemma ccr_round_cases:
  fixes E :: "('s, 'u) server_env"
  defines "S \<equiv> ev_serde E"
  obtains (stop) "extract_ccr_tool_calls S p (fst cur) = []"
      "ccr_rounds (Suc n) E body url hs ip p ms cur sv = Some (cur, sv)"
  | (blocked) "extract_ccr_tool_calls S p (fst cur) \<noteq> []" "continuation_blocked S p (fst cur)"
      "ccr_rounds (Suc n) E body url hs ip p ms cur sv = Some (strip_current S p cur, sv)"
  | (panics) ms1 sv1 where "extract_ccr_tool_calls S p (fst cur) \<noteq> []"
      "\<not> continuation_blocked S p (fst cur)" "next_messages E p ms (fst cur) sv = (ms1, sv1)"
      "json_set ''messages'' (JArray ms1) body = None"
      "ccr_rounds (Suc n) E body url hs ip p ms cur sv = None"
  | (failed) ms1 sv1 b err sv2 where "next_messages E p ms (fst cur) sv = (ms1, sv1)"
      "json_set ''messages'' (JArray ms1) body = Some b"
      "send_ccr_continuation E b url hs ip sv1 = (Inl err, sv2)"
      "ccr_rounds (Suc n) E body url hs ip p ms cur sv = Some (cur, sv2)"
  | (continued) ms1 sv1 b v sv2 where "next_messages E p ms (fst cur) sv = (ms1, sv1)"
      "json_set ''messages'' (JArray ms1) body = Some b"
      "send_ccr_continuation E b url hs ip sv1 = (Inr v, sv2)"
      "ccr_rounds (Suc n) E body url hs ip p ms cur sv =
         ccr_rounds n E body url hs ip p ms1 (v, True) (on_stats record_ccr_continuation_round sv2)"
proof (cases "extract_ccr_tool_calls S p (fst cur) = []")
  case True
  then show thesis by (intro stop) (simp_all add: S_def)
next
  case calls: False
  show thesis
  proof (cases "continuation_blocked S p (fst cur)")
    case True
    then show thesis using calls by (intro blocked) (simp_all add: S_def)
  next
    case False
    obtain ms1 sv1 where m: "next_messages E p ms (fst cur) sv = (ms1, sv1)" by fastforce
    show thesis
    proof (cases "json_set ''messages'' (JArray ms1) body")
      case None
      then show thesis using calls False m by (intro panics) (simp_all add: S_def)
    next
      case (Some b)
      obtain r sv2 where r: "send_ccr_continuation E b url hs ip sv1 = (r, sv2)" by fastforce
      show thesis
      proof (cases r)
        case (Inl err)
        show thesis
          by (rule failed[OF m Some r[unfolded Inl]]) (use calls False m Some r Inl in \<open>simp add: S_def\<close>)
      next
        case (Inr v)
        show thesis
          by (rule continued[OF m Some r[unfolded Inr]]) (use calls False m Some r Inr in \<open>simp add: S_def\<close>)
      qed
    qed
  qed
qed

lemma ccr_rounds_unchanged:
  "ccr_rounds n E body url hs ip p ms cur sv = Some (cur', sv') \<Longrightarrow> \<not> snd cur' \<Longrightarrow> cur' = cur"
proof (induction n arbitrary: ms cur sv)
  case (Suc n)
  show ?case
  proof (cases rule: ccr_round_cases[of E p cur n body url hs ip ms sv])
    case blocked
    then show ?thesis using Suc.prems strip_current_stripped(2)[of "ev_serde E" p cur] by simp
  next
    case (continued ms1 sv1 b v sv2)
    have "cur' = (v, True)"
      by (rule Suc.IH[OF Suc.prems(1)[unfolded continued(4)] Suc.prems(2)])
    then show ?thesis using Suc.prems(2) by simp
  qed (use Suc.prems in auto)
qed simp

text \<open>
  C17: What a client may get to see after a continuation. The final response never mixes
  private retrieve calls with the client's own: either all its tool calls are private (the
  continuation failed or ran out of rounds) or none is; and a response not reported as changed
  is the upstream's, so its bytes are sent on untouched.
\<close>

theorem continuation_result_pure:
  assumes "run_ccr_continuation E body initial url hs ip p sv = Some ((final, changed), sv')"
  shows "((\<forall>c \<in> set (provider_tool_calls p final). is_ccr_call (ev_serde E) p c)
        \<or> (\<forall>c \<in> set (provider_tool_calls p final). \<not> is_ccr_call (ev_serde E) p c))
    \<and> (\<not> changed \<longrightarrow> final = initial)"
proof -
  from assms obtain cur where
    cur: "ccr_rounds MAX_CCR_CONTINUATION_ROUNDS E body url hs ip p
        (unwrap_or [] (get_array ''messages'' body)) (initial, False) sv = Some (cur, sv')"
    and final: "(final, changed) = strip_current (ev_serde E) p cur"
    by (auto simp: run_ccr_continuation_def Let_def split: option.splits prod.splits)
  have "final = ccr.stripped (ev_serde E) p (fst cur)"
    using strip_current_stripped(1)[of "ev_serde E" p cur] by (simp flip: final)
  moreover have "final = initial" if "\<not> changed"
    using strip_current_stripped(2)[of "ev_serde E" p cur] that ccr_rounds_unchanged[OF cur]
    by (auto simp flip: final)
  ultimately show ?thesis using ccr.stripped_pure by blast
qed

lemma json_set_None: "json_set k x v = None \<longleftrightarrow> \<not> is_object v \<and> v \<noteq> JNull"
  by (cases v) (auto simp: is_object_def)

lemma ccr_rounds_total:
  "is_object body \<or> body = JNull \<Longrightarrow> ccr_rounds n E body url hs ip p ms cur sv \<noteq> None"
proof (induction n arbitrary: ms cur sv)
  case (Suc n)
  show ?case
  proof (cases rule: ccr_round_cases[of E p cur n body url hs ip ms sv])
    case (panics ms1 sv1)
    then show ?thesis using Suc.prems by (auto simp: json_set_None)
  next
    case (continued ms1 sv1 b v sv2)
    then show ?thesis using Suc.IH[OF Suc.prems] by metis
  qed (use Suc.prems in auto)
qed simp

lemma run_ccr_continuation_None:
  "run_ccr_continuation E body initial url hs ip p sv = None \<longleftrightarrow>
     ccr_rounds (Suc 2) E body url hs ip p (unwrap_or [] (get_array ''messages'' body)) (initial, False) sv = None"
  by (simp add: run_ccr_continuation_def Let_def MAX_CCR_CONTINUATION_ROUNDS_def numeral_3_eq_3
      numeral_2_eq_2 del: ccr_rounds.simps split: option.split)

lemma run_ccr_None_iff:
  "run_ccr_continuation E body initial url hs ip p sv = None \<longleftrightarrow>
     \<not> is_object body \<and> body \<noteq> JNull
     \<and> extract_ccr_tool_calls (ev_serde E) p initial \<noteq> []
     \<and> \<not> continuation_blocked (ev_serde E) p initial"
proof (cases "is_object body \<or> body = JNull")
  case True
  then show ?thesis
    unfolding run_ccr_continuation_None using ccr_rounds_total[OF True] by metis
next
  case False
  then have none: "json_set ''messages'' x body = None" for x by (simp add: json_set_None)
  show ?thesis
    unfolding run_ccr_continuation_None
    by (cases rule: ccr_round_cases[of E p "(initial, False)" 2 body url hs ip
          "unwrap_or [] (get_array ''messages'' body)" sv])
      (use False none in auto)
qed

text \<open>
  C18: When a continuation panics. It does exactly when the request body is neither an object
  nor null and the first response asks for a continuation: the assignment to \<open>messages\<close> is
  then out of place. For every object body the rounds end with a result, whatever the
  upstream answers.
\<close>

theorem continuation_panics_iff:
  "run_ccr_continuation E body initial url hs ip p sv = None \<longleftrightarrow>
     \<not> is_object body \<and> body \<noteq> JNull
     \<and> extract_ccr_tool_calls (ev_serde E) p initial \<noteq> []
     \<and> \<not> continuation_blocked (ev_serde E) p initial"
  by (rule run_ccr_None_iff)

section \<open>The requests a continuation sends\<close>

text \<open>An upstream that keeps a log of the requests it got.\<close>

definition recording ::
    "(http_request \<Rightarrow> 'u \<Rightarrow> (proxy_error + http_reply) \<times> 'u)
       \<Rightarrow> http_request \<Rightarrow> 'u \<times> http_request list \<Rightarrow> (proxy_error + http_reply) \<times> ('u \<times> http_request list)" where
  "recording send q = (\<lambda>(u, log). let (r, u) = send q u in (r, (u, log @ [q])))"

definition sent :: "('s, 'u \<times> http_request list) server \<Rightarrow> http_request list" where
  "sent sv = snd (sv_net sv)"

text \<open>A request that continues the conversation \<open>messages\<close> of \<open>body\<close>.\<close>

definition continues :: "serde \<Rightarrow> json \<Rightarrow> json list \<Rightarrow> string \<Rightarrow> http_request \<Rightarrow> bool" where
  "continues S body messages url q \<longleftrightarrow> hq_method q = ''POST'' \<and> hq_url q = url
     \<and> (\<exists>more b payload. more \<noteq> [] \<and> json_set ''messages'' (JArray (messages @ more)) body = Some b
          \<and> sd_to_vec S b = Some payload \<and> hq_chunks q = [Inr payload])"

lemma send_request_sent:
  "ev_send E = recording send \<Longrightarrow> send_request E q sv = (r, sv') \<Longrightarrow> sent sv' = sent sv @ [q]"
  by (auto simp: send_request_def recording_def sent_def split: prod.splits)

lemma new_request_id_sent: "new_request_id E sv = (rid, sv') \<Longrightarrow> sent sv' = sent sv"
  by (auto simp: new_request_id_def wall_now_def sent_def split: prod.splits)

lemma send_ccr_continuation_sent:
  assumes "ev_send E = recording send" "send_ccr_continuation E b url hs ip sv = (r, sv')"
  shows "\<exists>qs. sent sv' = sent sv @ qs \<and> (qs = [] \<or> (\<exists>q payload. qs = [q] \<and> hq_method q = ''POST''
    \<and> hq_url q = url \<and> sd_to_vec (ev_serde E) b = Some payload \<and> hq_chunks q = [Inr payload]))"
proof -
  obtain rid sv1 where rid: "new_request_id E sv = (rid, sv1)" by fastforce
  show ?thesis
  proof (cases "sd_to_vec (ev_serde E) b")
    case None
    then show ?thesis using assms(2) rid new_request_id_sent[OF rid] by (auto simp: send_ccr_continuation_def)
  next
    case (Some payload)
    define q where "q = \<lparr>hq_method = ''POST'', hq_url = url,
      hq_headers = apply_headers (ev_http E) (ev_serde E) (continuation_headers hs) ip rid,
      hq_chunks = [Inr payload]\<rparr>"
    obtain a sv2 where a: "send_request E q sv1 = (a, sv2)" by fastforce
    have "sv' = sv2"
      using assms(2) rid Some a
      by (auto simp: send_ccr_continuation_def q_def[symmetric] split: sum.splits if_splits option.splits)
    then show ?thesis
      using send_request_sent[OF assms(1) a] new_request_id_sent[OF rid] Some
      by (intro exI[of _ "[q]"]) (simp add: q_def)
  qed
qed

lemma next_messages_sent:
  assumes "next_messages E p ms current sv = (ms', sv')"
  shows "sent sv' = sent sv \<and> (\<exists>more. more \<noteq> [] \<and> ms' = ms @ more)"
  using assms
  by (auto simp: next_messages_def Let_def store_ops_def wall_now_def sent_def on_stats_def split: prod.splits)

lemma sent_on_stats [simp]: "sent (on_stats f sv) = sent sv"
  by (simp add: sent_def on_stats_def)

lemma continues_append: "continues S body (ms @ extra) url q \<Longrightarrow> continues S body ms url q"
  unfolding continues_def append_assoc by (metis append_is_Nil_conv)

lemma ccr_rounds_sent:
  assumes "ev_send E = recording send"
    and "ccr_rounds n E body url hs ip p ms cur sv = Some (cur', sv')"
  shows "\<exists>qs. sent sv' = sent sv @ qs \<and> length qs \<le> n \<and> (\<forall>q \<in> set qs. continues (ev_serde E) body ms url q)"
  using assms(2)
proof (induction n arbitrary: ms cur sv)
  case (Suc n)
  have step: "\<exists>qs more. sent sv2 = sent sv @ qs \<and> length qs \<le> 1 \<and> ms1 = ms @ more
      \<and> (\<forall>q \<in> set qs. continues (ev_serde E) body ms url q)"
    if m: "next_messages E p ms (fst cur) sv = (ms1, sv1)"
      and b: "json_set ''messages'' (JArray ms1) body = Some b"
      and send: "send_ccr_continuation E b url hs ip sv1 = (r, sv2)" for ms1 sv1 b r sv2
  proof -
    obtain more where more: "more \<noteq> []" "ms1 = ms @ more" "sent sv1 = sent sv"
      using next_messages_sent[OF m] by blast
    obtain qs where qs: "sent sv2 = sent sv1 @ qs" "qs = [] \<or> (\<exists>q payload. qs = [q] \<and> hq_method q = ''POST''
      \<and> hq_url q = url \<and> sd_to_vec (ev_serde E) b = Some payload \<and> hq_chunks q = [Inr payload])"
      using send_ccr_continuation_sent[OF assms(1) send] by blast
    have "continues (ev_serde E) body ms url q" if "q \<in> set qs" for q
      unfolding continues_def using qs(2) that b more(1,2) by auto
    then show ?thesis using qs more by fastforce
  qed
  show ?case
  proof (cases rule: ccr_round_cases[of E p cur n body url hs ip ms sv])
    case (failed ms1 sv1 b err sv2)
    then show ?thesis using step[OF failed(1-3)] Suc.prems by fastforce
  next
    case (continued ms1 sv1 b v sv2)
    obtain qs more where qs: "sent sv2 = sent sv @ qs" "length qs \<le> 1" "ms1 = ms @ more"
      "\<forall>q \<in> set qs. continues (ev_serde E) body ms url q"
      using step[OF continued(1-3)] by blast
    obtain rs where rs: "sent sv' = sent sv2 @ rs" "length rs \<le> n"
      "\<forall>q \<in> set rs. continues (ev_serde E) body ms1 url q"
      using Suc.IH[OF Suc.prems[unfolded continued(4)]] by auto
    have "continues (ev_serde E) body ms url q" if "continues (ev_serde E) body ms1 url q" for q
      using that qs(3) continues_append by metis
    then show ?thesis using qs rs by (intro exI[of _ "qs @ rs"]) auto
  qed (use Suc.prems in auto)
qed simp

text \<open>
  C15: The requests of a continuation. At most three requests go upstream, each a \<open>POST\<close> to the
  URL of the original request, and the body of each is the original body with nothing but
  \<open>messages\<close> replaced, by a list that starts with the original messages and extends them.
\<close>

theorem continuation_requests:
  assumes "ev_send E = recording send"
    and "run_ccr_continuation E body initial url hs ip p sv = Some (res, sv')"
  shows "\<exists>qs. sent sv' = sent sv @ qs \<and> length qs \<le> MAX_CCR_CONTINUATION_ROUNDS
    \<and> (\<forall>q \<in> set qs. continues (ev_serde E) body (unwrap_or [] (get_array ''messages'' body)) url q)"
proof -
  from assms(2) obtain cur where
    "ccr_rounds MAX_CCR_CONTINUATION_ROUNDS E body url hs ip p
        (unwrap_or [] (get_array ''messages'' body)) (initial, False) sv = Some (cur, sv')"
    by (auto simp: run_ccr_continuation_def Let_def split: option.splits prod.splits)
  from ccr_rounds_sent[OF assms(1) this] show ?thesis .
qed

section \<open>The answers\<close>

lemma retrieve_value_same_store:
  "the_store w = the_store w' \<Longrightarrow>
     fst (retrieve_value lower ops hash query w) = fst (retrieve_value lower ops hash query w')"
  by (cases "get_op ops hash (the_store w')")
    (auto simp: retrieve_value_def decompress_hash_def Let_def simp del: option_filter_Some
      split: option.splits)

lemma answer_calls_map:
  "answer_calls E ops p calls w = (answers, w') \<Longrightarrow> the_store w0 = the_store w \<Longrightarrow>
     the_store w' = the_store w
     \<and> answers = map (\<lambda>(call, parsed). format_tool_result (ev_serde E) call (as_label p)
         (fst (retrieve_value (ev_lowercase E) ops (pt_hash parsed) (pt_query parsed) w0))) calls"
proof (induction calls arbitrary: w w' answers)
  case (Cons cp calls)
  obtain call parsed where cp: "cp = (call, parsed)" by fastforce
  obtain data w1 where d: "retrieve_value (ev_lowercase E) ops (pt_hash parsed) (pt_query parsed) w = (data, w1)"
    by fastforce
  obtain rest w2 where rest: "answer_calls E ops p calls w1 = (rest, w2)" by fastforce
  have "data = fst (retrieve_value (ev_lowercase E) ops (pt_hash parsed) (pt_query parsed) w0)"
    using retrieve_value_same_store[OF Cons.prems(2)] d by (metis fst_conv)
  then show ?case
    using Cons.prems Cons.IH[OF rest] retrieve_value_store[OF d] d rest by (auto simp: cp)
qed simp

fun result_id_field :: "ccr_provider \<Rightarrow> string" where
  "result_id_field CcrAnthropic = ''tool_use_id''"
| "result_id_field CcrOpenAi = ''tool_call_id''"

lemma format_tool_result_id:
  "get_str (result_id_field p) (format_tool_result S call (as_label p) data) = Some (unwrap_or [] (get_str ''id'' call))"
proof -
  have "eq_ignore_ascii_case ''openai'' ''openai''" "\<not> eq_ignore_ascii_case ''anthropic'' ''openai''"
    by code_simp+
  then show ?thesis
    by (cases p) (simp_all add: format_tool_result_def Let_def get_str_def json_get_obj)
qed

text \<open>
  What the server's store holds for a hash when the round reads its clock, and the answer this
  gives a call: an error for a hash of the wrong form and for one the store does not know, the
  whole original when there is no query, and otherwise the numbered lines that hold the query.
\<close>

definition held :: "('s, 'u) server_env \<Rightarrow> ('s, 'u) server \<Rightarrow> string \<rightharpoonup> string" where
  "held E sv h =
     (case get_op (ev_ops E (ev_wall E (sv_ticks sv))) h (the_store (sv_world sv)) of
        Inr found \<Rightarrow> found | Inl _ \<Rightarrow> None)"

definition lookup_answer :: "(string \<Rightarrow> string) \<Rightarrow> (string \<rightharpoonup> string) \<Rightarrow> parsed_tool_call \<Rightarrow> json" where
  "lookup_answer lower m parsed =
     (let h = pt_hash parsed in
      if \<not> valid_hash h then invalid_hash_value h
      else case (m h, option_filter (\<lambda>q. trim q \<noteq> []) (pt_query parsed)) of
        (None, _) \<Rightarrow> json_obj [(''hash'', JString h), (''error'', JString ''entry not found'')]
      | (Some original, None) \<Rightarrow>
          json_obj [(''hash'', JString h), (''original_content'', JString original),
            (''original_tokens'', json_nat (estimate_tokens original)),
            (''original_item_count'', json_nat 1), (''compressed_item_count'', json_nat 1),
            (''tool_name'', JString ''headroom_retrieve''), (''retrieval_count'', json_nat 1)]
      | (Some original, Some q) \<Rightarrow>
          json_obj [(''hash'', JString h), (''query'', JString q),
            (''results'', JArray (map search_result_json (search_content lower original q))),
            (''count'', json_nat (length (search_content lower original q)))])"

lemma retrieve_value_lookup:
  assumes "m (pt_hash parsed) = (case get_op ops (pt_hash parsed) (the_store w) of Inr x \<Rightarrow> x | Inl _ \<Rightarrow> None)"
  shows "fst (retrieve_value lower ops (pt_hash parsed) (pt_query parsed) w) = lookup_answer lower m parsed"
  using assms
  by (cases "get_op ops (pt_hash parsed) (the_store w)";
      cases "option_filter (\<lambda>q. trim q \<noteq> []) (pt_query parsed)")
    (auto simp: retrieve_value_def lookup_answer_def decompress_hash_def Let_def
      simp del: option_filter_Some split: option.splits)

text \<open>
  C16: How a round answers. The messages of the next round are the messages so far, the
  assistant turn of the response, and one result for each retrieve call of the response, in
  the order of the calls: each carries the id of its call and what the server's own store
  holds for the hash the call names - the original, the lines its query finds, or an error.
  The store stays as it is.
\<close>

theorem continuation_answers:
  assumes "next_messages E p messages current sv = (messages', sv')"
  shows "\<exists>answers. messages' = messages @ [extract_assistant_message p current] @ answer_messages p answers
    \<and> map (get_str (result_id_field p)) answers =
        map (\<lambda>call. Some (unwrap_or [] (get_str ''id'' call)))
          (filter (is_ccr_call (ev_serde E) p) (provider_tool_calls p current))
    \<and> answers = map (\<lambda>(call, parsed). format_tool_result (ev_serde E) call (as_label p)
         (lookup_answer (ev_lowercase E) (held E sv) parsed))
         (extract_ccr_tool_calls (ev_serde E) p current)
    \<and> the_store (sv_world sv') = the_store (sv_world sv)"
proof -
  let ?calls = "extract_ccr_tool_calls (ev_serde E) p current"
  define ops where "ops = ev_ops E (ev_wall E (sv_ticks sv))"
  define sv1 where "sv1 = on_stats (record_ccr_continuation_retrievals (of_nat (length ?calls))) sv"
  obtain sv2 where ops: "store_ops E sv1 = (ops, sv2)"
    by (simp add: store_ops_def wall_now_def sv1_def on_stats_def ops_def)
  obtain answers w where ans: "answer_calls E ops p ?calls (sv_world sv2) = (answers, w)" by fastforce
  have store: "the_store (sv_world sv) = the_store (sv_world sv2)"
    using ops by (auto simp: store_ops_def wall_now_def sv1_def on_stats_def)
  have out: "messages' = messages @ [extract_assistant_message p current] @ answer_messages p answers"
    "sv_world sv' = w"
    using assms ops ans by (auto simp: next_messages_def Let_def sv1_def)
  note map = answer_calls_map[OF ans store]
  have "map (get_str (result_id_field p)) answers = map (\<lambda>call. Some (unwrap_or [] (get_str ''id'' call))) (map fst ?calls)"
    using map by (simp add: case_prod_unfold format_tool_result_id)
  moreover have "fst (retrieve_value (ev_lowercase E) ops (pt_hash parsed) (pt_query parsed) (sv_world sv))
      = lookup_answer (ev_lowercase E) (held E sv) parsed" for parsed
    by (rule retrieve_value_lookup) (simp add: held_def ops_def)
  ultimately show ?thesis
    using out map store extract_calls[of "ev_serde E" p current] by (intro exI[of _ answers]) simp
qed

section \<open>Witnesses\<close>

definition demo_call :: json where
  "demo_call = json_obj [(''type'', JString ''tool_use''), (''id'', JString ''t1''),
     (''name'', JString ''headroom_retrieve''),
     (''input'', json_obj [(''hash'', JString (replicate 24 (CHR ''a'')))])]"

definition demo_response :: json where
  "demo_response = json_obj [(''content'', JArray [demo_call])]"

lemma run_ccr_continuation_total:
  "is_object body \<Longrightarrow> \<exists>final changed sv'. run_ccr_continuation E body initial url hs ip p sv = Some ((final, changed), sv')"
  using ccr_rounds_total[of body] run_ccr_continuation_None[of E body initial url hs ip p sv]
  by (metis option.exhaust prod.exhaust)

lemma demo_object: "is_object (JObject [])"
  by (simp add: is_object_def)

theorem continuation_result_pure_witness:
  "\<exists>final changed sv'.
     run_ccr_continuation (demo_env no_upstream) (JObject []) demo_response ''u'' [] None CcrAnthropic demo_server
       = Some ((final, changed), sv') \<and> changed \<in> {True, final \<noteq> demo_response}"
proof -
  obtain final changed sv' where run:
    "run_ccr_continuation (demo_env no_upstream) (JObject []) demo_response ''u'' [] None CcrAnthropic demo_server
       = Some ((final, changed), sv')"
    using run_ccr_continuation_total[OF demo_object] by blast
  from continuation_result_pure[OF run] run show ?thesis by auto
qed

definition logging_env :: "(sqlite_store, unit \<times> http_request list) server_env" where
  "logging_env = \<lparr>ev_serde = demo_printer, ev_http = demo_http, ev_url = demo_url,
     ev_sha256 = const_digest, ev_md5 = const_digest, ev_lowercase = to_ascii_lowercase,
     ev_ser_error = (\<lambda>v. ''error''), ev_parse_error = (\<lambda>t. ''error''), ev_status_text = dec,
     ev_limit_error = ''limit'', ev_ops = (\<lambda>t. sqlite_ops (int t)),
     ev_instant = id, ev_wall = id, ev_send = recording no_upstream, ev_openai_upstream = ''http://o'',
     ev_anthropic_upstream = ''http://a'', ev_max_body_bytes = 100, ev_compression_enabled = True,
     ev_compression_mode = ModeCcr, ev_compress_user_text = False\<rparr>"

definition logging_server :: "(sqlite_store, unit \<times> http_request list) server" where
  "logging_server = \<lparr>sv_world = empty_world, sv_trackers = inner_default, sv_batches = [], sv_counter = 1,
     sv_ticks = 0, sv_tasks = [], sv_net = ((), [])\<rparr>"

theorem continuation_requests_witness:
  "\<exists>res sv'. run_ccr_continuation logging_env (JObject []) demo_response ''u'' [] None CcrAnthropic logging_server
       = Some (res, sv') \<and> length (sent sv') \<le> 3"
proof -
  obtain res sv' where run:
    "run_ccr_continuation logging_env (JObject []) demo_response ''u'' [] None CcrAnthropic logging_server
       = Some (res, sv')"
    using run_ccr_continuation_total[OF demo_object] by (metis surj_pair)
  have "ev_send logging_env = recording no_upstream" by (simp add: logging_env_def)
  from continuation_requests[OF this run] run show ?thesis
    by (auto simp: sent_def logging_server_def MAX_CCR_CONTINUATION_ROUNDS_def)
qed

definition holding_server :: "(sqlite_store, unit) server" where
  "holding_server = demo_server\<lparr>sv_world := (sv_world demo_server)\<lparr>the_store :=
     sqlite_in_memory\<lparr>rows := [(replicate 24 (CHR ''a''),
       \<lparr>row_original = ''the text'', row_bytes = 8, row_tokens = 2, created_at = 1, last_seen_at = 1\<rparr>)]\<rparr>\<rparr>\<rparr>"

theorem continuation_answers_witness:
  "\<exists>answer. fst (next_messages (demo_env no_upstream) CcrAnthropic [JNull] demo_response holding_server) =
       [JNull, extract_assistant_message CcrAnthropic demo_response,
        json_obj [(''role'', JString ''user''), (''content'', JArray [answer])]]
     \<and> answer = format_tool_result (ev_serde (demo_env no_upstream)) demo_call ''anthropic'' (json_obj
       [(''hash'', JString (replicate 24 (CHR ''a''))), (''original_content'', JString ''the text''),
        (''original_tokens'', json_nat (estimate_tokens ''the text'')),
        (''original_item_count'', json_nat 1), (''compressed_item_count'', json_nat 1),
        (''tool_name'', JString ''headroom_retrieve''), (''retrieval_count'', json_nat 1)])
     \<and> get_str ''tool_use_id'' answer = Some ''t1''"
proof -
  obtain ms sv' where run:
    "next_messages (demo_env no_upstream) CcrAnthropic [JNull] demo_response holding_server = (ms, sv')"
    by fastforce
  have calls: "extract_ccr_tool_calls (ev_serde (demo_env no_upstream)) CcrAnthropic demo_response
      = [(demo_call, \<lparr>pt_hash = replicate 24 (CHR ''a''), pt_query = None\<rparr>)]"
    by code_simp
  have id: "get_str ''id'' demo_call = Some ''t1''" by code_simp
  have "held (demo_env no_upstream) holding_server (replicate 24 (CHR ''a'')) = Some ''the text''"
    by (simp add: held_def holding_server_def demo_env_def sqlite_ops_def sqlite_get_def sqlite_in_memory_def)
  moreover have "valid_hash (replicate 24 (CHR ''a''))" by code_simp
  ultimately have "lookup_answer lower (held (demo_env no_upstream) holding_server)
      \<lparr>pt_hash = replicate 24 (CHR ''a''), pt_query = None\<rparr> = json_obj
       [(''hash'', JString (replicate 24 (CHR ''a''))), (''original_content'', JString ''the text''),
        (''original_tokens'', json_nat (estimate_tokens ''the text'')),
        (''original_item_count'', json_nat 1), (''compressed_item_count'', json_nat 1),
        (''tool_name'', JString ''headroom_retrieve''), (''retrieval_count'', json_nat 1)]" for lower
    by (simp add: lookup_answer_def Let_def option_filter_def)
  with continuation_answers[OF run] run show ?thesis
    using format_tool_result_id[of CcrAnthropic "ev_serde (demo_env no_upstream)" demo_call] by (simp add: calls id)
qed

end
