(* ===== verification/Proxy_Http_Safety.thy ===== *)
theory Proxy_Http_Safety
  imports Proxy_Http Continuation_Safety
begin

text \<open>
  Properties of the HTTP handlers: what they send upstream and when, which responses they
  give, what they leave of the shared state, and the only place where one can panic.
\<close>

section \<open>Streamed and buffered responses\<close>

lemma header_get_all_filter:
  "header_get_all n (filter (\<lambda>(m, v). P m) hs) = (if P n then header_get_all n hs else [])"
  unfolding header_get_all_def by (induction hs) auto

lemma header_get_all_remove: "header_get_all n (header_remove m hs) = (if n = m then [] else header_get_all n hs)"
  unfolding header_remove_def using header_get_all_filter[of n "\<lambda>k. k \<noteq> m" hs] by simp

lemma header_get_all_insert: "n \<noteq> m \<Longrightarrow> header_get_all n (header_insert m v hs) = header_get_all n hs"
  by (simp add: header_insert_def header_get_all_def[of n "_ @ _"] flip: header_get_all_def)
    (simp add: header_get_all_remove flip: header_get_all_def)

lemma header_get_all_insert_header: "n \<noteq> m \<Longrightarrow> header_get_all n (insert_header H m v hs) = header_get_all n hs"
  by (simp add: insert_header_def header_get_all_insert split: option.splits)

lemma header_get_all_add_ids:
  "n \<noteq> ''x-request-id'' \<Longrightarrow> n \<noteq> ''headroom-upstream-request-id'' \<Longrightarrow>
     header_get_all n (add_request_ids H rhs rid hs) = header_get_all n hs"
  by (simp add: add_request_ids_def header_get_all_insert_header Let_def split: option.splits)

lemma header_get_all_first: "header_get_all n (first_values hs) = take 1 (header_get_all n hs)"
proof (induction hs rule: first_values.induct)
  case (2 name v hs)
  have "header_get_all n (filter (\<lambda>(k, _). k \<noteq> name) (first_values hs))
      = (if n = name then [] else header_get_all n (first_values hs))"
    using header_get_all_filter[of n "\<lambda>k. k \<noteq> name"] by (simp add: case_prod_unfold)
  then show ?case using 2 by (auto simp: header_get_all_def)
qed (simp add: header_get_all_def)

text \<open>
  C36: The two ways a reply reaches the client. A streamed response has the status and the
  very chunks of the reply, and under each header name that is passed on only the first of
  the reply's values, whereas a buffered one keeps all of them; names that are hop-by-hop or
  listed in \<open>Connection\<close> are dropped by both.
\<close>

theorem response_headers:
  assumes "name \<noteq> ''x-request-id''" "name \<noteq> ''headroom-upstream-request-id''"
    and "response_to_axum E reply rid path session sv = (r, sv')"
  shows "rs_status r = hp_status reply \<and> rs_chunks r = hp_chunks reply
    \<and> header_get_all name (rs_headers r) =
        (if passes_on (ev_http E) (hp_headers reply) name
         then take 1 (header_get_all name (hp_headers reply)) else [])
    \<and> header_get_all name (rs_headers (buffered_response_to_axum E (hp_status reply) (hp_headers reply) body rid False)) =
        (if passes_on (ev_http E) (hp_headers reply) name then header_get_all name (hp_headers reply) else [])"
proof -
  let ?P = "\<lambda>n. passes_on (ev_http E) (hp_headers reply) n"
  have "r = \<lparr>rs_status = hp_status reply, rs_headers = add_request_ids (ev_http E) (hp_headers reply) rid
      (filter (\<lambda>(n, v). ?P n) (first_values (hp_headers reply))), rs_chunks = hp_chunks reply\<rparr>"
    using assms(3) by (simp add: response_to_axum_def Let_def)
  then show ?thesis
    by (simp add: header_get_all_add_ids[OF assms(1,2)] header_get_all_filter header_get_all_first
        buffered_response_to_axum_def Let_def)
qed

theorem response_headers_witness:
  "header_get_all ''set-cookie'' (rs_headers (fst (response_to_axum (demo_env no_upstream)
     \<lparr>hp_status = 200, hp_headers = [(''set-cookie'', ''a=1''), (''set-cookie'', ''b=2'')], hp_chunks = []\<rparr>
     ''r'' ''/p'' None demo_server))) = [''a=1'']"
proof -
  let ?hs = "[(''set-cookie'', ''a=1''), (''set-cookie'', ''b=2'')]"
  let ?reply = "\<lparr>hp_status = 200, hp_headers = ?hs, hp_chunks = []\<rparr> :: http_reply"
  obtain r sv' where run: "response_to_axum (demo_env no_upstream) ?reply ''r'' ''/p'' None demo_server = (r, sv')"
    by fastforce
  have "passes_on (ev_http (demo_env no_upstream)) ?hs ''set-cookie''"
    by (simp add: passes_on_def is_response_drop_header_def is_hop_by_hop_def connection_listed_headers_def
        header_get_all_def List.map_filter_simps to_ascii_lowercase_def to_ascii_lower_def byte_def of_char_of)
  then show ?thesis
    using response_headers[OF _ _ run, of "''set-cookie''"] run by (simp add: header_get_all_def)
qed

section \<open>What the operations leave alone\<close>

text \<open>Store, trackers, batch contexts and the upstreams, the parts of the state that matter across requests.\<close>

definition shared :: "('s, 'u) server \<Rightarrow> 's \<times> inner \<times> batch_context_entry list \<times> 'u" where
  "shared sv = (the_store (sv_world sv), sv_trackers sv, sv_batches sv, sv_net sv)"

lemma shared_on_stats [simp]: "shared (on_stats f sv) = shared sv"
  by (simp add: shared_def on_stats_def)

lemma shared_request_id: "request_id_for E hs sv = (rid, sv') \<Longrightarrow> shared sv' = shared sv"
  by (auto simp: request_id_for_def wall_now_def shared_def split: prod.splits)

lemma shared_response: "response_to_axum E reply rid path session sv = (r, sv') \<Longrightarrow> shared sv' = shared sv"
  by (auto simp: response_to_axum_def shared_def on_stats_def Let_def split: option.splits)

lemma shared_sent: "shared sv = shared sv' \<Longrightarrow> sent sv = sent sv'"
  by (simp add: shared_def sent_def)

lemma forward_request_effect:
  assumes "ev_send E = recording send"
    and "forward_request E http_method hs chunks url ip rid sv = (r, sv')"
  shows "\<exists>q. sent sv' = sent sv @ [q] \<and> hq_method q = http_method \<and> hq_url q = url \<and> hq_chunks q = chunks
    \<and> the_store (sv_world sv') = the_store (sv_world sv) \<and> sv_trackers sv' = sv_trackers sv \<and> sv_batches sv' = sv_batches sv"
proof -
  have run: "send_request E \<lparr>hq_method = http_method, hq_url = url,
      hq_headers = apply_headers (ev_http E) (ev_serde E) hs ip rid, hq_chunks = chunks\<rparr> sv = (r, sv')"
    using assms(2) by (simp add: forward_request_def)
  have "sv' = sv\<lparr>sv_net := sv_net sv'\<rparr>" by (rule send_request_frame[OF run])
  then have "the_store (sv_world sv') = the_store (sv_world sv) \<and> sv_trackers sv' = sv_trackers sv \<and> sv_batches sv' = sv_batches sv"
    by (metis server.select_convs(1-3) server.surjective server.update_convs(7))
  with send_request_sent[OF assms(1) run] show ?thesis by (metis http_request.select_convs(1,2,4))
qed

lemma forward_streaming_effect:
  assumes "ev_send E = recording send"
    and "forward_streaming E http_method hs chunks url path ip sv = (r, sv')"
  shows "\<exists>q. sent sv' = sent sv @ [q] \<and> hq_method q = http_method \<and> hq_url q = url \<and> hq_chunks q = chunks
    \<and> the_store (sv_world sv') = the_store (sv_world sv) \<and> sv_trackers sv' = sv_trackers sv \<and> sv_batches sv' = sv_batches sv"
proof -
  obtain rid sv1 where rid: "request_id_for E hs sv = (rid, sv1)" by fastforce
  obtain a sv2 where a: "forward_request E http_method hs chunks url ip rid sv1 = (a, sv2)" by fastforce
  have "shared sv' = shared sv2"
    using assms(2) rid a shared_response
    by (auto simp: forward_streaming_def split: sum.splits prod.splits)
  moreover have "shared sv1 = shared sv" by (rule shared_request_id[OF rid])
  ultimately show ?thesis
    using forward_request_effect[OF assms(1) a] by (auto simp: shared_def sent_def)
qed

section \<open>Requests passed through\<close>

text \<open>Not a target, or a target the configuration or the client exempts.\<close>

definition passes_through :: "('s, 'u) server_env \<Rightarrow> client_request \<Rightarrow> bool" where
  "passes_through E req =
     (case rq_target (classify_request (cq_method req) (cq_path req)) of
        Some t \<Rightarrow> bypass_reason E (cq_headers req) \<noteq> None
      | None \<Rightarrow> anthropic_batch_results_batch_id (cq_method req) (cq_path req) = None)"

definition client_url :: "('s, 'u) server_env \<Rightarrow> client_request \<Rightarrow> string" where
  "client_url E req = upstream_url E (rq_provider (classify_request (cq_method req) (cq_path req))) (cq_path req) (cq_query req)"

text \<open>
  C34: A request that is not to be compressed is passed through. One request goes upstream,
  with the client's method and path and the very chunks of its body; the store, the session
  trackers and the batch contexts are as before, and there is always a response.
\<close>

theorem passthrough_verbatim:
  assumes "ev_send E = recording send" "passes_through E req"
  shows "\<exists>r sv' q. proxy_http_handler E req ip sv = Some (r, sv') \<and> sent sv' = sent sv @ [q]
    \<and> hq_method q = cq_method req \<and> hq_url q = client_url E req \<and> hq_chunks q = cq_chunks req
    \<and> the_store (sv_world sv') = the_store (sv_world sv) \<and> sv_trackers sv' = sv_trackers sv \<and> sv_batches sv' = sv_batches sv"
proof -
  let ?fwd = "forward_streaming E (cq_method req) (cq_headers req) (cq_chunks req) (client_url E req) (cq_path req) ip"
  obtain sv1 where sv1: "shared sv1 = shared sv" "proxy_http_handler E req ip sv = Some (or_upstream_error (?fwd sv1))"
  proof (cases "rq_target (classify_request (cq_method req) (cq_path req))")
    case None
    then have "batch_results_contexts E req s = (None, s)" for s
      using assms(2) by (simp add: passes_through_def batch_results_contexts_def)
    then show thesis using None
      by (intro that[of "case rq_skipped_reason (classify_request (cq_method req) (cq_path req)) of
            Some reason \<Rightarrow> on_stats (record_skipped_request reason) (on_stats record_request sv)
          | None \<Rightarrow> on_stats record_request sv"])
        (auto simp: proxy_http_handler_def proxy_http_def client_url_def Let_def split: option.splits)
  next
    case (Some t)
    then obtain reason where "bypass_reason E (cq_headers req) = Some reason"
      using assms(2) by (auto simp: passes_through_def)
    with Some show thesis
      by (intro that[of "on_stats (record_skipped_request reason) (on_stats record_request sv)"])
        (simp_all add: proxy_http_handler_def proxy_http_def client_url_def Let_def)
  qed
  obtain r sv' where run: "?fwd sv1 = (r, sv')" by fastforce
  show ?thesis
    using forward_streaming_effect[OF assms(1) run] sv1 run
    by (auto simp: or_upstream_error_def shared_def sent_def split: sum.splits)
qed

definition demo_request :: "string \<Rightarrow> string \<Rightarrow> body_chunks \<Rightarrow> client_request" where
  "demo_request http_method path chunks = \<lparr>cq_method = http_method, cq_path = path, cq_query = None,
     cq_headers = [(''content-type'', ''application/json'')], cq_chunks = chunks\<rparr>"

lemma logging_env_send: "ev_send logging_env = recording no_upstream"
  by (simp add: logging_env_def)

theorem passthrough_verbatim_witness:
  "\<exists>r sv' q. proxy_http_handler logging_env (demo_request ''GET'' ''/v1/models'' [Inr ''x'']) None logging_server
       = Some (r, sv') \<and> sent sv' = [q] \<and> hq_chunks q = [Inr ''x'']"
proof -
  have "passes_through logging_env (demo_request ''GET'' ''/v1/models'' [Inr ''x''])" by code_simp
  from passthrough_verbatim[OF logging_env_send this, of None logging_server] show ?thesis
    by (auto simp: sent_def logging_server_def demo_request_def)
qed

section \<open>Bodies over the limit\<close>

lemma collect_limited_Inr:
  "collect_limited e n cs = Inr body \<Longrightarrow> body = concat (ok_chunks cs) \<and> length body \<le> n"
proof (induction e n cs arbitrary: body rule: collect_limited.induct)
  case (3 e n c cs)
  then show ?case
    by (fastforce simp: ok_chunks_def List.map_filter_simps split: if_splits sum.splits)
qed (auto simp: ok_chunks_def List.map_filter_simps)

lemma read_limited_body_Inr:
  "read_limited_body E req = Inr body \<Longrightarrow> body = concat (ok_chunks (cq_chunks req)) \<and> length body \<le> ev_max_body_bytes E"
  by (auto simp: read_limited_body_def Let_def dest: collect_limited_Inr split: option.splits sum.splits)

lemma read_limited_body_Inl:
  "read_limited_body E req = Inl err \<Longrightarrow> starts_with ''payload_too_large'' (error_text err)"
  by (auto simp: read_limited_body_def Let_def starts_with_def split: option.splits sum.splits)

text \<open>
  C35: The body limit. A request to compress whose body is longer than the limit is answered
  with 413; nothing is sent upstream, and neither the store nor the trackers nor the batch
  contexts change.
\<close>

theorem oversized_body_rejected:
  assumes "rq_target (classify_request (cq_method req) (cq_path req)) = Some t"
    and "bypass_reason E (cq_headers req) = None"
    and "length (concat (ok_chunks (cq_chunks req))) > ev_max_body_bytes E"
  shows "\<exists>r sv'. proxy_http_handler E req ip sv = Some (r, sv') \<and> rs_status r = 413 \<and> shared sv' = shared sv"
proof -
  obtain err where err: "read_limited_body E req = Inl err"
    using read_limited_body_Inr[of E req] assms(3) by (cases "read_limited_body E req") auto
  have "contains ''payload_too_large'' (error_text err)"
    using read_limited_body_Inl[OF err] unfolding contains_iff starts_with_iff by (metis append_Nil)
  then show ?thesis
    using err assms(1,2)
    by (simp add: proxy_http_handler_def proxy_http_def buffer_and_forward_known_json_def or_payload_error_def
        error_response_def Let_def)
qed

definition demo_large :: client_request where
  "demo_large = demo_request ''POST'' ''/v1/messages''
     [Inr (replicate 60 (CHR ''a'')), Inr (replicate 60 (CHR ''b''))]"

theorem oversized_body_rejected_witness:
  "rs_status (fst (the (proxy_http_handler (demo_env no_upstream) demo_large None demo_server))) = 413"
proof -
  have "rq_target (classify_request ''POST'' ''/v1/messages'') = Some TargetAnthropicMessages" by code_simp
  then have large: "rq_target (classify_request (cq_method demo_large) (cq_path demo_large)) = Some TargetAnthropicMessages"
    by (simp add: demo_large_def demo_request_def)
  have "media_type ''application/json'' = ''application/json''"
    by (simp add: media_type_def, rule trim_ascii) (simp_all add: is_ascii_def is_whitespace_def byte_def Let_def)
  then have "eq_ignore_ascii_case (media_type ''application/json'') ''application/json''"
    by (simp add: eq_ignore_ascii_case_def)
  then have json: "bypass_reason (demo_env no_upstream) (cq_headers demo_large) = None"
    by (simp add: bypass_reason_def demo_env_def demo_http_def allows_compression_def demo_large_def
        demo_request_def compression_bypass_requested_def header_str_def header_get_def
        is_application_json_def has_media_type_def)
  have "length (concat (ok_chunks (cq_chunks demo_large))) > ev_max_body_bytes (demo_env no_upstream)"
    by (simp add: demo_large_def demo_request_def demo_env_def ok_chunks_def List.map_filter_simps)
  from oversized_body_rejected[OF large json this, of None demo_server]
  obtain r sv' where "proxy_http_handler (demo_env no_upstream) demo_large None demo_server = Some (r, sv')"
    "rs_status r = 413" by blast
  then show ?thesis by simp
qed

end
