(* ===== verification/Proxy_Effects.thy ===== *)
theory Proxy_Effects
  imports Proxy_Http_Safety
begin

text \<open>
  What a compressed request does from end to end: which upstream requests it causes, that the
  store the compression wrote stays, and when the handler can panic.
\<close>

section \<open>Effects\<close>

text \<open>The upstream requests sent between two states, the store being the same in both.\<close>

definition effect ::
    "('s, 'u \<times> http_request list) server \<Rightarrow> http_request list \<Rightarrow> ('s, 'u \<times> http_request list) server \<Rightarrow> bool" where
  "effect sv qs sv' \<longleftrightarrow> sent sv' = sent sv @ qs \<and> the_store (sv_world sv') = the_store (sv_world sv)"

lemma effect_refl: "effect sv [] sv"
  by (simp add: effect_def)

lemma effect_refl_ex: "\<exists>qs. effect sv qs sv"
  using effect_refl by blast

lemma effect_trans [trans]: "effect sv qs sv1 \<Longrightarrow> effect sv1 rs sv2 \<Longrightarrow> effect sv (qs @ rs) sv2"
  by (simp add: effect_def)

lemma effect_then [trans]: "effect sv qs sv1 \<Longrightarrow> effect sv1 [] sv2 \<Longrightarrow> effect sv qs sv2"
  by (simp add: effect_def)

lemma effect_after: "effect sv [] sv1 \<Longrightarrow> effect sv1 qs sv2 \<Longrightarrow> effect sv qs sv2"
  by (simp add: effect_def)

lemma effect_shared: "shared sv' = shared sv \<Longrightarrow> effect sv [] sv'"
  by (auto simp: effect_def shared_def sent_def)

lemma effect_on_stats [simp]:
  "effect (on_stats f sv) qs sv' = effect sv qs sv'" "effect sv qs (on_stats f sv') = effect sv qs sv'"
  by (simp_all add: effect_def on_stats_frame)

lemma effect_request_id: "request_id_for E hs sv = (rid, sv') \<Longrightarrow> effect sv [] sv'"
  by (rule effect_shared) (rule shared_request_id)

lemma effect_response: "response_to_axum E reply rid path session sv = (r, sv') \<Longrightarrow> effect sv [] sv'"
  by (rule effect_shared) (rule shared_response)

lemma effect_session: "effect sv [] (update_session_from_json_response E session v p sv)"
  by (auto simp: update_session_from_json_response_def effect_def sent_def instant_now_def Let_def
      simp del: option_filter_Some split: option.splits prod.splits)

lemma effect_send:
  "ev_send E = recording send \<Longrightarrow> send_request E q sv = (r, sv') \<Longrightarrow> effect sv [q] sv'"
  by (auto simp: effect_def send_request_sent) (auto simp: send_request_def split: prod.splits)

lemma send_request_world: "send_request E q sv = (r, sv') \<Longrightarrow> sv_world sv' = sv_world sv"
  by (auto simp: send_request_def split: prod.splits)

lemma effect_forward:
  assumes "ev_send E = recording send" "forward_request E http_method hs chunks url ip rid sv = (r, sv')"
  shows "\<exists>q. effect sv [q] sv' \<and> hq_method q = http_method \<and> hq_url q = url \<and> hq_chunks q = chunks"
  using forward_request_effect[OF assms] by (auto simp: effect_def)

lemma new_request_id_world: "new_request_id E sv = (rid, sv') \<Longrightarrow> sv_world sv' = sv_world sv"
  by (auto simp: new_request_id_def wall_now_def split: prod.splits)

lemma send_ccr_continuation_cases:
  assumes "new_request_id E sv = (rid, sv1)" "send_ccr_continuation E b url hs ip sv = (r, sv')"
  shows "sv' = sv1 \<or> (\<exists>q a. send_request E q sv1 = (a, sv'))"
proof (cases "sd_to_vec (ev_serde E) b")
  case None
  then show ?thesis using assms by (simp add: send_ccr_continuation_def)
next
  case (Some payload)
  define q where "q = \<lparr>hq_method = ''POST'', hq_url = url,
    hq_headers = apply_headers (ev_http E) (ev_serde E) (continuation_headers hs) ip rid,
    hq_chunks = [Inr payload]\<rparr>"
  obtain a sv2 where a: "send_request E q sv1 = (a, sv2)" by fastforce
  have "sv' = sv2"
  proof (cases a)
    case (Inl err)
    then show ?thesis using assms Some a by (simp add: send_ccr_continuation_def q_def[symmetric])
  next
    case (Inr reply)
    then show ?thesis using assms Some a
      by (simp add: send_ccr_continuation_def q_def[symmetric] split: if_splits sum.splits option.splits)
  qed
  with a show ?thesis by blast
qed

lemma effect_continuation:
  assumes "ev_send E = recording send" "send_ccr_continuation E b url hs ip sv = (r, sv')"
  shows "\<exists>qs. effect sv qs sv'"
proof -
  obtain rid sv1 where rid: "new_request_id E sv = (rid, sv1)" by fastforce
  have "sv_world sv' = sv_world sv1"
    using send_ccr_continuation_cases[OF rid assms(2)] send_request_world by metis
  then have "sv_world sv' = sv_world sv" using new_request_id_world[OF rid] by simp
  moreover obtain qs where "sent sv' = sent sv @ qs" using send_ccr_continuation_sent[OF assms] by blast
  ultimately show ?thesis by (intro exI[of _ qs]) (simp add: effect_def)
qed

lemma effect_next_messages:
  assumes "next_messages E p ms current sv = (ms', sv')"
  shows "effect sv [] sv'"
proof -
  let ?calls = "extract_ccr_tool_calls (ev_serde E) p current"
  obtain ops sv1 where ops: "store_ops E (on_stats (record_ccr_continuation_retrievals (of_nat (length ?calls))) sv) = (ops, sv1)"
    by fastforce
  obtain answers w where ans: "answer_calls E ops p ?calls (sv_world sv1) = (answers, w)" by fastforce
  have "the_store (sv_world sv1) = the_store (sv_world sv)"
    using ops by (auto simp: store_ops_def wall_now_def on_stats_def)
  then have "the_store (sv_world sv') = the_store (sv_world sv)"
    using assms ops ans conjunct1[OF answer_calls_map[OF ans refl]] by (auto simp: next_messages_def)
  then show ?thesis using next_messages_sent[OF assms] by (simp add: effect_def)
qed

lemma effect_rounds:
  assumes "ev_send E = recording send" "ccr_rounds n E body url hs ip p ms cur sv = Some (cur', sv')"
  shows "\<exists>qs. effect sv qs sv'"
  using assms(2)
proof (induction n arbitrary: ms cur sv)
  case 0
  then show ?case using effect_refl by (intro exI[of _ "[]"]) simp
next
  case (Suc n)
  show ?case
  proof (cases rule: ccr_round_cases[of E p cur n body url hs ip ms sv])
    case (failed ms1 sv1 b err sv2)
    obtain qs where "effect sv qs sv2"
      using effect_next_messages[OF failed(1)] effect_continuation[OF assms(1) failed(3)] effect_after by blast
    then show ?thesis using Suc.prems failed(4) by auto
  next
    case (continued ms1 sv1 b v sv2)
    obtain qs where "effect sv qs sv2"
      using effect_next_messages[OF continued(1)] effect_continuation[OF assms(1) continued(3)] effect_after by blast
    moreover obtain rs where "effect (on_stats record_ccr_continuation_round sv2) rs sv'"
      using Suc.IH Suc.prems continued(4) by metis
    ultimately show ?thesis by (auto dest: effect_trans)
  qed (use Suc.prems effect_refl[of sv] in auto)
qed

lemma effect_run:
  assumes "ev_send E = recording send" "run_ccr_continuation E body initial url hs ip p sv = Some (res, sv')"
  shows "\<exists>qs. effect sv qs sv'"
proof -
  obtain cur where "ccr_rounds MAX_CCR_CONTINUATION_ROUNDS E body url hs ip p
      (unwrap_or [] (get_array ''messages'' body)) (initial, False) sv = Some (cur, sv')"
    using assms(2) by (auto simp: run_ccr_continuation_def Let_def split: option.splits prod.splits)
  then show ?thesis by (rule effect_rounds[OF assms(1)])
qed

lemma effect_continue_reply:
  assumes "ev_send E = recording send"
    and "continue_reply E body initial reply bytes rid url hs ip p session sv = Some (r, sv')"
  shows "\<exists>qs. effect sv qs sv'"
proof (cases "extract_ccr_tool_calls (ev_serde E) p initial = []")
  case True
  then have "sv' = update_session_from_json_response E session initial p sv"
    using assms(2) by (simp add: continue_reply_def Let_def)
  then show ?thesis using effect_session by blast
next
  case False
  then obtain v changed sv1 where run: "run_ccr_continuation E body initial url hs ip p sv = Some ((v, changed), sv1)"
    and sv': "sv' = update_session_from_json_response E session v p sv1"
    using assms(2) by (auto simp: continue_reply_def Let_def split: option.splits)
  then show ?thesis using effect_run[OF assms(1) run] effect_session effect_then by blast
qed

text \<open>The first upstream request of the handlers that forward a compressed body.\<close>

definition forwards ::
    "string \<Rightarrow> string \<Rightarrow> string \<Rightarrow> ('s, 'u \<times> http_request list) server \<Rightarrow> ('s, 'u \<times> http_request list) server \<Rightarrow> bool" where
  "forwards http_method url body sv sv' \<longleftrightarrow>
     (\<exists>q qs. effect sv (q # qs) sv' \<and> hq_method q = http_method \<and> hq_url q = url \<and> hq_chunks q = [Inr body])"

lemma forwardsI:
  assumes "effect sv [] sv0" "effect sv0 [q] sv1" "effect sv1 qs sv'"
    and "hq_method q = http_method" "hq_url q = url" "hq_chunks q = [Inr body]"
  shows "forwards http_method url body sv sv'"
  using effect_trans[OF effect_after[OF assms(1,2)] assms(3)] assms(4-6) by (auto simp: forwards_def)

lemma forwards_after: "effect sv [] sv1 \<Longrightarrow> forwards http_method url body sv1 sv' \<Longrightarrow> forwards http_method url body sv sv'"
  unfolding forwards_def using effect_after by blast

lemma forwards_ccr:
  assumes "ev_send E = recording send"
    and "forward_with_ccr_continuation E http_method hs body url path ip p session sv = Some (r, sv')"
  shows "forwards http_method url body sv sv'"
proof -
  obtain rid sv0 where rid: "request_id_for E hs sv = (rid, sv0)" by fastforce
  obtain a sv1 where a: "forward_request E http_method hs [Inr body] url ip rid sv0 = (a, sv1)" by fastforce
  obtain q where q: "effect sv0 [q] sv1" "hq_method q = http_method" "hq_url q = url" "hq_chunks q = [Inr body]"
    using effect_forward[OF assms(1) a] by blast
  have "\<exists>qs. effect sv1 qs sv'"
  proof (cases a)
    case (Inr reply)
    then show ?thesis
      using assms(2) rid a
      by (auto simp: forward_with_ccr_continuation_def Let_def split: option.splits sum.splits if_splits prod.splits
          dest!: effect_response effect_continue_reply[OF assms(1)] intro: effect_refl_ex)
  qed (use assms(2) rid a in \<open>auto simp: forward_with_ccr_continuation_def intro: effect_refl_ex\<close>)
  then show ?thesis using forwardsI[OF effect_request_id[OF rid] q(1) _ q(2-4)] by blast
qed

lemma forwards_buffered:
  assumes "ev_send E = recording send"
    and "forward_buffered E http_method hs body url path ip session sv = (r, sv')"
  shows "forwards http_method url body sv sv'"
proof -
  obtain rid sv0 where rid: "request_id_for E hs sv = (rid, sv0)" by fastforce
  obtain a sv1 where a: "forward_request E http_method hs [Inr body] url ip rid sv0 = (a, sv1)" by fastforce
  obtain q where q: "effect sv0 [q] sv1" "hq_method q = http_method" "hq_url q = url" "hq_chunks q = [Inr body]"
    using effect_forward[OF assms(1) a] by blast
  have "effect sv1 [] sv'"
  proof (cases a)
    case (Inr reply)
    then show ?thesis
      using assms(2) rid a
      by (auto simp: forward_buffered_def Let_def split: option.splits sum.splits if_splits prod.splits
          dest: effect_response intro!: effect_after[OF _ effect_session] intro: effect_refl)
  qed (use assms(2) rid a in \<open>auto simp: forward_buffered_def intro: effect_refl\<close>)
  then show ?thesis using forwardsI[OF effect_request_id[OF rid] q(1) _ q(2-4)] by blast
qed

lemma effect_batches: "effect sv [] (sv\<lparr>sv_batches := b\<rparr>)"
  by (simp add: effect_def sent_def)

lemma effect_wall: "wall_now E sv = (t, sv') \<Longrightarrow> effect sv [] sv'"
  by (auto simp: wall_now_def effect_def sent_def)

lemma forwards_batch_create:
  assumes "ev_send E = recording send"
    and "forward_batch_create E http_method hs body url path ip sv = (r, sv')"
  shows "forwards http_method url body sv sv'"
proof -
  obtain rid sv0 where rid: "request_id_for E hs sv = (rid, sv0)" by fastforce
  obtain a sv1 where a: "forward_request E http_method hs [Inr body] url ip rid sv0 = (a, sv1)" by fastforce
  obtain q where q: "effect sv0 [q] sv1" "hq_method q = http_method" "hq_url q = url" "hq_chunks q = [Inr body]"
    using effect_forward[OF assms(1) a] by blast
  have "effect sv1 [] sv'"
  proof (cases a)
    case (Inr reply)
    then show ?thesis
      using assms(2) rid a
      by (auto simp: forward_batch_create_def Let_def split: option.splits sum.splits if_splits prod.splits
          dest: effect_response effect_wall intro!: effect_then[OF _ effect_batches] intro: effect_refl)
  qed (use assms(2) rid a in \<open>auto simp: forward_batch_create_def intro: effect_refl\<close>)
  then show ?thesis using forwardsI[OF effect_request_id[OF rid] q(1) _ q(2-4)] by blast
qed

lemma forwards_target:
  assumes "ev_send E = recording send"
    and "forward_target E target http_method hs body url path ip session sv = Some (r, sv')"
  shows "forwards http_method url body sv sv'"
  using assms by (cases target) (auto simp: forward_target_def intro: forwards_ccr forwards_buffered forwards_batch_create)


section \<open>Compressed requests\<close>

lemma effect_floor: "frozen_floor E ident sv = (n, sv') \<Longrightarrow> effect sv [] sv'"
  by (auto simp: frozen_floor_def instant_now_def effect_def sent_def Let_def split: option.splits prod.splits)

lemma effect_betas: "merge_beta_header E t ident hs sv = (hs', sv') \<Longrightarrow> effect sv [] sv'"
  by (auto simp: merge_beta_header_def effect_def sent_def Let_def split: option.splits prod.splits)

text \<open>What a request is compressed under: its session's frozen floor, and the client's authentication.\<close>

definition target_ctx :: "('s, 'u) server_env \<Rightarrow> header_map \<Rightarrow> nat \<Rightarrow> compress_context" where
  "target_ctx E hs frozen_count = \<lparr>cc_auth_mode = classify_auth_mode (ev_http E) hs, cc_frozen_message_count = frozen_count,
     cc_compress_user_text = ev_compress_user_text E, cc_provider_metadata = True\<rparr>"

definition request_ctx ::
    "('s, 'u) server_env \<Rightarrow> client_request \<Rightarrow> compression_target \<Rightarrow> string \<Rightarrow> ('s, 'u) server \<Rightarrow> compress_context" where
  "request_ctx E req t body sv =
     (let ident = session_identity E t (cq_headers req) (sd_value (ev_serde E) body);
          (frozen_count, sv) = frozen_floor E ident (on_stats record_request sv);
          (hs, sv) = merge_beta_header E t ident (cq_headers req) sv
      in target_ctx E hs frozen_count)"

lemma compress_for_target_runs:
  assumes "compress_for_target E t hs n body sv = Some (mutation, sv')"
  shows "\<exists>now w'. compress_json_request_ctx (ev_serde E) (ev_sha256 E) (ev_md5 E) (ev_ops E now) body (target_shape t)
      (target_ctx E hs n) (sv_world sv) = Some (mutation, w') \<and> the_store (sv_world sv') = the_store w'
    \<and> sv_net sv' = sv_net sv"
  using assms
  by (auto simp: compress_for_target_def target_ctx_def store_ops_def wall_now_def on_stats_frame Let_def
      split: option.splits) blast

text \<open>The body is there, and is not a batch without requests.\<close>

definition compressible :: "('s, 'u) server_env \<Rightarrow> client_request \<Rightarrow> compression_target \<Rightarrow> string \<Rightarrow> bool" where
  "compressible E req t body \<longleftrightarrow> rq_target (classify_request (cq_method req) (cq_path req)) = Some t
     \<and> bypass_reason E (cq_headers req) = None \<and> read_limited_body E req = Inr body
     \<and> \<not> (t = TargetAnthropicMessageBatches
           \<and> map_option requests_missing_or_empty (sd_value (ev_serde E) body) = Some True)"

lemma proxied_request:
  assumes "ev_send E = recording send" "compressible E req t body"
    and "proxy_http_handler E req ip sv = Some (r, sv')"
  shows "\<exists>now w w' mutation. compress_json_request_ctx (ev_serde E) (ev_sha256 E) (ev_md5 E) (ev_ops E now) body
      (target_shape t) (request_ctx E req t body sv) w = Some (mutation, w') \<and> the_store w = the_store (sv_world sv)
    \<and> the_store (sv_world sv') = the_store w'
    \<and> (\<exists>q qs. sent sv' = sent sv @ q # qs \<and> hq_method q = cq_method req \<and> hq_url q = client_url E req
         \<and> hq_chunks q = [Inr (rc_body mutation)])"
proof -
  let ?sv0 = "on_stats record_request sv"
  have "proxy_http_handler E req ip sv
      = map_option or_payload_error (buffer_and_forward_known_json E req t (client_url E req) ip ?sv0)"
    using assms(2) by (simp add: compressible_def proxy_http_handler_def proxy_http_def client_url_def)
  then obtain res where buf: "buffer_and_forward_known_json E req t (client_url E req) ip ?sv0 = Some (res, sv')"
    using assms(3) by (cases "buffer_and_forward_known_json E req t (client_url E req) ip ?sv0")
      (auto simp: or_payload_error_def)
  define ident where "ident = session_identity E t (cq_headers req) (sd_value (ev_serde E) body)"
  obtain n sv1 where floor: "frozen_floor E ident ?sv0 = (n, sv1)" by fastforce
  obtain hs sv2 where betas: "merge_beta_header E t ident (cq_headers req) sv1 = (hs, sv2)" by fastforce
  obtain mutation sv3 where comp: "compress_for_target E t hs n body sv2 = Some (mutation, sv3)"
    and fwd: "\<exists>r1. forward_target E t (cq_method req) hs (rc_body mutation) (client_url E req) (cq_path req) ip
        (session_ctx (ev_serde E) t ident (rc_body mutation)) sv3 = Some (r1, sv')"
    using buf assms(2) floor betas
    by (auto simp: compressible_def buffer_and_forward_known_json_def answer_request_def Let_def ident_def[symmetric]
        split: option.splits sum.splits prod.splits if_splits)
  have "effect sv [] sv2" using effect_after[OF effect_floor[OF floor] effect_betas[OF betas]] by simp
  then have before: "sent sv2 = sent sv" "the_store (sv_world sv2) = the_store (sv_world sv)" by (simp_all add: effect_def)
  have ctx: "request_ctx E req t body sv = target_ctx E hs n"
    using floor betas by (simp add: request_ctx_def ident_def[symmetric])
  obtain now w' where run: "compress_json_request_ctx (ev_serde E) (ev_sha256 E) (ev_md5 E) (ev_ops E now) body
      (target_shape t) (target_ctx E hs n) (sv_world sv2) = Some (mutation, w')" "the_store (sv_world sv3) = the_store w'"
      "sv_net sv3 = sv_net sv2"
    using compress_for_target_runs[OF comp] by blast
  obtain q qs where "effect sv3 (q # qs) sv'" "hq_method q = cq_method req" "hq_url q = client_url E req"
    "hq_chunks q = [Inr (rc_body mutation)]"
    using fwd forwards_target[OF assms(1)] unfolding forwards_def by blast
  moreover from this run before have "sent sv' = sent sv @ q # qs" "the_store (sv_world sv') = the_store w'"
    by (simp_all add: effect_def sent_def)
  ultimately show ?thesis unfolding ctx using run(1) before by blast
qed


section \<open>When the proxy panics\<close>

text \<open>A value that has no fields to assign to.\<close>

definition fieldless :: "json \<Rightarrow> bool" where
  "fieldless v \<longleftrightarrow> \<not> is_object v \<and> v \<noteq> JNull"

text \<open>The response asks for a continuation: it holds retrieve calls, and they may be answered.\<close>

definition asks_continuation :: "serde \<Rightarrow> ccr_provider \<Rightarrow> json \<Rightarrow> bool" where
  "asks_continuation S p v \<longleftrightarrow> extract_ccr_tool_calls S p v \<noteq> [] \<and> \<not> continuation_blocked S p v"

lemma run_ccr_fieldless:
  "run_ccr_continuation E body initial url hs ip p sv = None \<longleftrightarrow>
     fieldless body \<and> asks_continuation (ev_serde E) p initial"
  by (auto simp: run_ccr_None_iff fieldless_def asks_continuation_def)

text \<open>The upstream answers this very request, sent in state \<open>sv\<close>, with \<open>bytes\<close>.\<close>

definition answered_with ::
    "('s, 'u) server_env \<Rightarrow> string \<Rightarrow> header_map \<Rightarrow> body_chunks \<Rightarrow> string \<Rightarrow> string option
       \<Rightarrow> ('s, 'u) server \<Rightarrow> http_reply \<Rightarrow> string \<Rightarrow> ('s, 'u) server \<Rightarrow> bool" where
  "answered_with E http_method hs chunks url ip sv reply bytes sv' \<longleftrightarrow>
     (let (request_id, sv) = request_id_for E hs sv in
      forward_request E http_method hs chunks url ip request_id sv = (Inr reply, sv')
      \<and> read_all (hp_chunks reply) = Inr bytes)"

lemma forward_ccr_None_iff:
  "forward_with_ccr_continuation E http_method hs body url path ip p session sv = None \<longleftrightarrow>
     (\<exists>v reply bytes sv' initial. sd_value (ev_serde E) body = Some v \<and> fieldless v
        \<and> answered_with E http_method hs [Inr body] url ip sv reply bytes sv'
        \<and> ccr_response_buffer_eligible (ev_http E) reply
        \<and> sd_value (ev_serde E) bytes = Some initial \<and> asks_continuation (ev_serde E) p initial)"
proof -
  obtain rid sv1 where rid: "request_id_for E hs sv = (rid, sv1)" by fastforce
  obtain res sv2 where fwd: "forward_request E http_method hs [Inr body] url ip rid sv1 = (res, sv2)" by fastforce
  have cont: "continue_reply E v initial reply bytes rid url hs ip p session sv3 = None \<longleftrightarrow>
      fieldless v \<and> asks_continuation (ev_serde E) p initial" for v initial reply bytes sv3
    using run_ccr_fieldless[of E v initial url hs ip p sv3]
    by (auto simp: continue_reply_def asks_continuation_def Let_def split: option.splits prod.splits)
  show ?thesis
  proof (cases res)
    case (Inl err)
    then show ?thesis using rid fwd by (simp add: forward_with_ccr_continuation_def answered_with_def)
  next
    case (Inr reply)
    then show ?thesis using rid fwd
      by (cases "sd_value (ev_serde E) body"; cases "read_all (hp_chunks reply)")
        (auto simp: forward_with_ccr_continuation_def answered_with_def Let_def cont
          split: option.splits prod.splits)
  qed
qed

lemma forward_target_None_iff:
  "forward_target E t http_method hs body url path ip session sv = None \<longleftrightarrow>
     (\<exists>p. (t, p) \<in> {(TargetAnthropicMessages, CcrAnthropic), (TargetOpenAiChatCompletions, CcrOpenAi)}
        \<and> forward_with_ccr_continuation E http_method hs body url path ip p session sv = None)"
  by (cases t) (simp_all add: forward_target_def)

text \<open>
  The request whose answer would have to be continued, but whose forwarded body has no fields:
  everything is taken from the run of this request from this state.
\<close>

definition unassignable_request ::
    "('s, 'u) server_env \<Rightarrow> client_request \<Rightarrow> string option \<Rightarrow> ('s, 'u) server \<Rightarrow> bool" where
  "unassignable_request E req ip sv \<longleftrightarrow> (\<exists>t p body n sv1 hs sv2 mutation sv3 v reply bytes sv4 initial.
     compressible E req t body
     \<and> (t, p) \<in> {(TargetAnthropicMessages, CcrAnthropic), (TargetOpenAiChatCompletions, CcrOpenAi)}
     \<and> frozen_floor E (session_identity E t (cq_headers req) (sd_value (ev_serde E) body))
         (on_stats record_request sv) = (n, sv1)
     \<and> merge_beta_header E t (session_identity E t (cq_headers req) (sd_value (ev_serde E) body))
         (cq_headers req) sv1 = (hs, sv2)
     \<and> compress_for_target E t hs n body sv2 = Some (mutation, sv3)
     \<and> sd_value (ev_serde E) (rc_body mutation) = Some v \<and> fieldless v
     \<and> answered_with E (cq_method req) hs [Inr (rc_body mutation)] (client_url E req) ip sv3 reply bytes sv4
     \<and> ccr_response_buffer_eligible (ev_http E) reply
     \<and> sd_value (ev_serde E) bytes = Some initial \<and> asks_continuation (ev_serde E) p initial)"

lemma compress_for_target_total:
  "borrows_ok (ev_serde E) \<Longrightarrow> strings_print (ev_serde E) \<Longrightarrow> compress_for_target E t hs n body sv \<noteq> None"
  using compress_ctx_total[of "ev_serde E"]
  by (auto simp: compress_for_target_def store_ops_def wall_now_def Let_def split: option.splits)

lemma buffered_None_iff:
  assumes "borrows_ok (ev_serde E)" "strings_print (ev_serde E)"
    and t: "rq_target (classify_request (cq_method req) (cq_path req)) = Some t" "bypass_reason E (cq_headers req) = None"
  shows "buffer_and_forward_known_json E req t (client_url E req) ip (on_stats record_request sv) = None \<longleftrightarrow>
    unassignable_request E req ip sv"
proof (cases "\<exists>body. compressible E req t body")
  case False
  then show ?thesis
    using t by (cases "read_limited_body E req")
      (auto simp: buffer_and_forward_known_json_def unassignable_request_def compressible_def)
next
  case True
  then obtain body where body: "compressible E req t body" by blast
  define ident where "ident = session_identity E t (cq_headers req) (sd_value (ev_serde E) body)"
  obtain n sv1 where floor: "frozen_floor E ident (on_stats record_request sv) = (n, sv1)" by fastforce
  obtain hs sv2 where betas: "merge_beta_header E t ident (cq_headers req) sv1 = (hs, sv2)" by fastforce
  obtain mutation sv3 where comp: "compress_for_target E t hs n body sv2 = Some (mutation, sv3)"
    using compress_for_target_total[OF assms(1,2)] by (metis option.exhaust prod.exhaust)
  have only: "compressible E req t' body' \<longleftrightarrow> t' = t \<and> body' = body" for t' body'
    using body by (auto simp: compressible_def)
  have "buffer_and_forward_known_json E req t (client_url E req) ip (on_stats record_request sv) = None \<longleftrightarrow>
      forward_target E t (cq_method req) hs (rc_body mutation) (client_url E req) (cq_path req) ip
        (session_ctx (ev_serde E) t ident (rc_body mutation)) sv3 = None"
    using body floor betas comp
    by (auto simp: compressible_def buffer_and_forward_known_json_def answer_request_def Let_def ident_def[symmetric]
        split: option.splits sum.splits if_splits)
  also have "\<dots> \<longleftrightarrow> unassignable_request E req ip sv"
    unfolding forward_target_None_iff forward_ccr_None_iff unassignable_request_def only
    using floor betas comp by (simp add: ident_def[symmetric])
  finally show ?thesis .
qed


text \<open>The lines of a batch result stop at the first whose continuation panics.\<close>

lemma batch_line_None_iff:
  "batch_result_line E url hs ip contexts line sv = None \<longleftrightarrow>
     (\<exists>result message params. batch_line_task (ev_serde E) contexts line = Some (result, message, params)
        \<and> fieldless params \<and> asks_continuation (ev_serde E) CcrAnthropic message)"
proof (cases "batch_line_task (ev_serde E) contexts line")
  case (Some task)
  obtain result message params where task: "task = (result, message, params)" by (cases task)
  show ?thesis
    using Some task run_ccr_fieldless[of E params message url hs ip CcrAnthropic sv]
    by (cases "run_ccr_continuation E params message url hs ip CcrAnthropic sv")
      (auto simp: batch_result_line_def Let_def split: if_splits)
qed (simp add: batch_result_line_def)

lemma ex_split_Cons:
  "(\<exists>before x rest. l # ls = before @ x # rest \<and> P before x) \<longleftrightarrow>
     P [] l \<or> (\<exists>before x rest. ls = before @ x # rest \<and> P (l # before) x)"
  (is "?L \<longleftrightarrow> ?R")
proof
  assume ?L
  then obtain before x rest where "l # ls = before @ x # rest" "P before x" by blast
  then show ?R by (cases before) auto
next
  assume ?R
  then show ?L by (metis append_Cons append_Nil)
qed

lemma batch_lines_None_iff:
  "batch_result_lines E url hs ip contexts ls written processed sv = None \<longleftrightarrow>
     (\<exists>before line rest. ls = before @ line # rest \<and> (trim line \<noteq> []
        \<and> (\<exists>written' processed' sv'. batch_result_lines E url hs ip contexts before written processed sv
              = Some (Inr (written', processed'), sv')
            \<and> batch_result_line E url hs ip contexts line sv' = None)))"
proof (induction ls arbitrary: written processed sv)
  case (Cons l ls)
  show ?case
  proof (cases "trim l = []")
    case True
    then show ?thesis unfolding ex_split_Cons by (simp add: Cons.IH)
  next
    case False
    show ?thesis
    proof (cases "batch_result_line E url hs ip contexts l sv")
      case None
      then show ?thesis unfolding ex_split_Cons by (simp add: False)
    next
      case (Some res)
      obtain r sv1 where res: "res = (r, sv1)" by fastforce
      show ?thesis
      proof (cases r)
        case (Inl err)
        then show ?thesis using False Some res unfolding ex_split_Cons by simp
      next
        case (Inr wp)
        obtain w p where "wp = (w, p)" by fastforce
        with Inr show ?thesis using False Some res unfolding ex_split_Cons by (simp add: Cons.IH)
      qed
    qed
  qed
qed simp

text \<open>
  The batch result that holds a line to continue for a request whose recorded parameters have
  no fields; the lines before it were done. \<open>counted\<close> is the state the handler starts from.
\<close>

definition counted :: "client_request \<Rightarrow> ('s, 'u) server \<Rightarrow> ('s, 'u) server" where
  "counted req sv = (case rq_skipped_reason (classify_request (cq_method req) (cq_path req)) of
      Some reason \<Rightarrow> on_stats (record_skipped_request reason) (on_stats record_request sv)
    | None \<Rightarrow> on_stats record_request sv)"

definition unassignable_batch ::
    "('s, 'u) server_env \<Rightarrow> client_request \<Rightarrow> string option \<Rightarrow> ('s, 'u) server \<Rightarrow> bool" where
  "unassignable_batch E req ip sv \<longleftrightarrow> rq_target (classify_request (cq_method req) (cq_path req)) = None
     \<and> (\<exists>cs sv1 reply bytes sv2 before line rest written processed sv3 result message params.
          batch_results_contexts E req (counted req sv) = (Some cs, sv1)
          \<and> answered_with E ''GET'' (cq_headers req) [] (client_url E req) ip sv1 reply bytes sv2
          \<and> hp_status reply = 200 \<and> header_get ''content-encoding'' (hp_headers reply) = None \<and> utf8_valid bytes
          \<and> lines_of bytes = before @ line # rest \<and> trim line \<noteq> []
          \<and> batch_result_lines E (batch_messages_url E) (cq_headers req) ip cs before [] False sv2
              = Some (Inr (written, processed), sv3)
          \<and> batch_line_task (ev_serde E) cs line = Some (result, message, params)
          \<and> fieldless params \<and> asks_continuation (ev_serde E) CcrAnthropic message)"

lemma forward_batch_None_iff:
  "forward_batch_results E hs url path ip cs sv = None \<longleftrightarrow>
     (\<exists>reply bytes sv2. answered_with E ''GET'' hs [] url ip sv reply bytes sv2
        \<and> hp_status reply = 200 \<and> header_get ''content-encoding'' (hp_headers reply) = None \<and> utf8_valid bytes
        \<and> batch_result_lines E (batch_messages_url E) hs ip cs (lines_of bytes) [] False sv2 = None)"
proof -
  obtain rid sv1 where rid: "request_id_for E hs sv = (rid, sv1)" by fastforce
  obtain res sv2 where fwd: "forward_request E ''GET'' hs [] url ip rid sv1 = (res, sv2)" by fastforce
  show ?thesis
  proof (cases res)
    case (Inl err)
    then show ?thesis using rid fwd by (simp add: forward_batch_results_def answered_with_def)
  next
    case (Inr reply)
    then show ?thesis using rid fwd
      by (cases "read_all (hp_chunks reply)")
        (auto simp: forward_batch_results_def answered_with_def Let_def split: option.splits sum.splits prod.splits)
  qed
qed

lemma proxy_panics_iff:
  assumes "borrows_ok (ev_serde E)" "strings_print (ev_serde E)"
  shows "proxy_http_handler E req ip sv = None \<longleftrightarrow> unassignable_request E req ip sv \<or> unassignable_batch E req ip sv"
proof (cases "rq_target (classify_request (cq_method req) (cq_path req))")
  case None
  obtain contexts sv2 where c: "batch_results_contexts E req (counted req sv) = (contexts, sv2)" by fastforce
  have handler: "proxy_http_handler E req ip sv = (case contexts of
      Some cs \<Rightarrow> map_option or_upstream_error
        (forward_batch_results E (cq_headers req) (client_url E req) (cq_path req) ip cs sv2)
    | None \<Rightarrow> Some (or_upstream_error (forward_streaming E (cq_method req) (cq_headers req) (cq_chunks req)
        (client_url E req) (cq_path req) ip sv2)))"
    unfolding client_url_def
    by (cases "rq_skipped_reason (classify_request (cq_method req) (cq_path req))")
      (use None c in \<open>simp_all add: proxy_http_handler_def proxy_http_def Let_def counted_def\<close>)
  have "\<not> unassignable_request E req ip sv" using None by (simp add: unassignable_request_def compressible_def)
  moreover have "unassignable_batch E req ip sv \<longleftrightarrow> (\<exists>cs. contexts = Some cs \<and>
      forward_batch_results E (cq_headers req) (client_url E req) (cq_path req) ip cs sv2 = None)"
    using None c
    by (simp add: unassignable_batch_def forward_batch_None_iff batch_lines_None_iff batch_line_None_iff)
  ultimately show ?thesis unfolding handler by (cases contexts) simp_all
next
  case (Some t)
  have "\<not> unassignable_batch E req ip sv" using Some by (simp add: unassignable_batch_def)
  moreover have "bypass_reason E (cq_headers req) \<noteq> None \<Longrightarrow> \<not> unassignable_request E req ip sv"
    by (simp add: unassignable_request_def compressible_def)
  ultimately show ?thesis
    using buffered_None_iff[OF assms Some, of ip sv] Some
    by (cases "bypass_reason E (cq_headers req)")
      (simp_all add: proxy_http_handler_def proxy_http_def client_url_def Let_def)
qed

text \<open>Two conditions under which there is no such request: no parsed value is fieldless.\<close>

lemma batch_results_stored:
  assumes "batch_results_contexts E req sv = (Some contexts, sv')" "c \<in> set contexts"
  shows "\<exists>entry \<in> set (sv_batches sv). c \<in> set (bc_contexts entry)"
proof -
  obtain batch_id now bs where "batch_context now batch_id (sv_batches sv) = (Some contexts, bs)"
    using assms(1) by (auto simp: batch_results_contexts_def wall_now_def Let_def split: option.splits prod.splits)
  then obtain entry where "entry \<in> set (sv_batches sv)" "contexts = bc_contexts entry"
    by (auto simp: batch_context_def Let_def find_Some_iff) (metis (no_types, lifting) length_rev mem_Collect_eq nth_mem set_filter set_rev)
  then show ?thesis using assms(2) by blast
qed

lemma proxy_answers_when:
  assumes "borrows_ok (ev_serde E)" "strings_print (ev_serde E)"
    and "\<And>text v. sd_value (ev_serde E) text = Some v \<Longrightarrow> \<not> fieldless v"
    and "\<And>entry c. entry \<in> set (sv_batches sv) \<Longrightarrow> c \<in> set (bc_contexts entry) \<Longrightarrow> \<not> fieldless (snd c)"
  shows "\<exists>r sv'. proxy_http_handler E req ip sv = Some (r, sv')"
proof -
  have "\<not> unassignable_request E req ip sv"
    using assms(3) by (auto simp: unassignable_request_def)
  moreover have "\<not> unassignable_batch E req ip sv"
  proof
    assume "unassignable_batch E req ip sv"
    then obtain cs sv1 line result message params where
      cs: "batch_results_contexts E req (counted req sv) = (Some cs, sv1)" and
      task: "batch_line_task (ev_serde E) cs line = Some (result, message, params)" "fieldless params"
      by (auto simp: unassignable_batch_def)
    obtain cid where "map_of cs cid = Some params"
      using task(1) by (auto simp: batch_line_task_def split: option.splits if_splits)
    then have "(cid, params) \<in> set cs" by (rule map_of_SomeD)
    from batch_results_stored[OF cs this] obtain entry where
      "entry \<in> set (sv_batches sv)" "(cid, params) \<in> set (bc_contexts entry)"
      by (auto simp: counted_def on_stats_frame split: option.splits)
    with assms(4)[of entry "(cid, params)"] task(2) show False by simp
  qed
  ultimately have "proxy_http_handler E req ip sv \<noteq> None" using proxy_panics_iff[OF assms(1,2)] by blast
  then show ?thesis by (metis option.exhaust prod.exhaust)
qed

text \<open>
  C14: Exactly when the proxy does not answer. If raw values point where the parser says and
  strings print, a request is left without a response in just two cases, both read off its own
  run: a body is compressed and forwarded that parses to a value neither an object nor null,
  and the upstream's reply to it asks for a continuation; or a batch result, fetched for a
  recorded batch, has a line that asks for one on behalf of a request whose recorded
  parameters are such a value, and the lines before it went through. In each the handler
  would assign \<open>messages\<close> in a value without fields. Every other request is answered,
  whatever the upstreams do.
\<close>

theorem proxy_answers:
  assumes "borrows_ok (ev_serde E)" "strings_print (ev_serde E)"
  shows "(\<exists>r sv'. proxy_http_handler E req ip sv = Some (r, sv'))
    \<longleftrightarrow> \<not> unassignable_request E req ip sv \<and> \<not> unassignable_batch E req ip sv"
proof -
  have "(\<exists>r sv'. proxy_http_handler E req ip sv = Some (r, sv')) \<longleftrightarrow> proxy_http_handler E req ip sv \<noteq> None"
    by auto
  then show ?thesis using proxy_panics_iff[OF assms, of req ip sv] by simp
qed

lemma demo_printer_laws: "borrows_ok demo_printer" "strings_print demo_printer"
  using borrows_ok_demo by (simp_all add: demo_printer_def borrows_ok_def strings_print_def)

text \<open>
  A batch whose recorded parameters are an array, and a result line of it that asks for a
  continuation.
\<close>

definition array_batch_env :: "(sqlite_store, unit) server_env" where
  "array_batch_env = (demo_env (\<lambda>_ _. (Inr \<lparr>hp_status = 200, hp_headers = [], hp_chunks = [Inr ''x'']\<rparr>, ())))\<lparr>ev_serde :=
     demo_printer\<lparr>sd_value := (\<lambda>_. Some (json_obj [(''custom_id'', JString ''c''),
       (''result'', json_obj [(''message'', demo_response)])]))\<rparr>\<rparr>"

definition array_batch_server :: "(sqlite_store, unit) server" where
  "array_batch_server = demo_server\<lparr>sv_batches := [\<lparr>bc_batch_id = ''b'', bc_contexts = [(''c'', JArray [])],
     bc_expires_at = Suc (ev_wall array_batch_env 0)\<rparr>]\<rparr>"

definition results_request :: client_request where
  "results_request = demo_request ''GET'' ''/v1/messages/batches/b/results'' []"

lemma array_batch_unassignable: "unassignable_batch array_batch_env results_request None array_batch_server"
proof -
  let ?E = "array_batch_env" and ?sv = "counted results_request array_batch_server"
  let ?result = "json_obj [(''custom_id'', JString ''c''), (''result'', json_obj [(''message'', demo_response)])]"
  have none: "rq_target (classify_request (cq_method results_request) (cq_path results_request)) = None"
    and id: "anthropic_batch_results_batch_id (cq_method results_request) (cq_path results_request) = Some ''b''"
    by code_simp+
  have frame: "sv_batches ?sv = [\<lparr>bc_batch_id = ''b'', bc_contexts = [(''c'', JArray [])],
     bc_expires_at = Suc (ev_wall array_batch_env 0)\<rparr>]" "sv_ticks ?sv = 0"
    by (simp_all add: counted_def on_stats_frame array_batch_server_def demo_server_def split: option.split)
  obtain sv1 where ctx: "batch_results_contexts ?E results_request ?sv = (Some [(''c'', JArray [])], sv1)"
    by (simp add: batch_results_contexts_def id wall_now_def frame batch_context_def Let_def)
  obtain rid sv1' where rid: "request_id_for ?E (cq_headers results_request) sv1 = (rid, sv1')" by fastforce
  have "ev_send ?E q u = (Inr \<lparr>hp_status = 200, hp_headers = [], hp_chunks = [Inr ''x'']\<rparr>, ())" for q u
    by (simp add: array_batch_env_def demo_env_def)
  with rid obtain reply sv2 where reply: "answered_with ?E ''GET'' (cq_headers results_request) [] (client_url ?E results_request)
      None sv1 reply ''x'' sv2" "hp_status reply = 200" "hp_headers reply = []"
    by (simp add: answered_with_def forward_request_def send_request_def)
  have serde: "sd_value (ev_serde ?E) t = Some ?result" for t by (simp add: array_batch_env_def)
  have calls: "extract_ccr_tool_calls (ev_serde ?E) CcrAnthropic demo_response
      = [(demo_call, \<lparr>pt_hash = replicate 24 (CHR ''a''), pt_query = None\<rparr>)]"
    by code_simp
  have blocked: "provider_tool_calls CcrAnthropic demo_response = [demo_call]" by code_simp
  have task: "batch_line_task (ev_serde ?E) [(''c'', JArray [])] ''x'' = Some (?result, demo_response, JArray [])"
    using calls unfolding batch_line_task_def serde option.case by (simp add: get_str_def get_in_def json_get_obj)
  have asks: "asks_continuation (ev_serde ?E) CcrAnthropic demo_response"
    unfolding asks_continuation_def continuation_blocked_def calls blocked by simp
  have "lines_of ''x'' = [] @ ''x'' # []" by (simp add: lines_of.simps strip_cr_def LF_def)
  moreover have "trim ''x'' \<noteq> []"
    by (simp add: trim_def trim_end_def trim_start_def drop_while_end_def is_whitespace_def byte_def utf8_width_def)
  moreover have "utf8_valid ''x''" by (rule utf8_valid_ascii) (simp add: is_ascii_def byte_def)
  moreover have "fieldless (JArray [])" by (simp add: fieldless_def is_object_def)
  moreover have "batch_result_lines ?E (batch_messages_url ?E) (cq_headers results_request) None
      [(''c'', JArray [])] [] [] False sv2 = Some (Inr ([], False), sv2)" by simp
  moreover have "header_get ''content-encoding'' (hp_headers reply) = None" by (simp add: reply(3) header_get_def)
  ultimately show ?thesis
    using none ctx reply(1,2) task asks unfolding unassignable_batch_def by blast
qed

theorem proxy_answers_witness:
  "(\<exists>r sv'. proxy_http_handler (demo_env no_upstream) (demo_request ''POST'' ''/v1/messages'' [Inr ''{}'']) None demo_server
      = Some (r, sv'))
   \<and> (\<nexists>r sv'. proxy_http_handler array_batch_env results_request None array_batch_server = Some (r, sv'))"
proof -
  have laws: "borrows_ok (ev_serde (demo_env no_upstream))" "strings_print (ev_serde (demo_env no_upstream))"
    using demo_printer_laws by (simp_all add: demo_env_def)
  have batch_laws: "borrows_ok (ev_serde array_batch_env)" "strings_print (ev_serde array_batch_env)"
    using demo_printer_laws by (simp_all add: array_batch_env_def borrows_ok_def strings_print_def)
  have "\<not> unassignable_request (demo_env no_upstream) (demo_request ''POST'' ''/v1/messages'' [Inr ''{}'']) None demo_server"
    by (auto simp: unassignable_request_def demo_env_def demo_printer_def demo_serde_def fieldless_def)
  moreover have "\<not> unassignable_batch (demo_env no_upstream) (demo_request ''POST'' ''/v1/messages'' [Inr ''{}'']) None demo_server"
  proof -
    have "rq_target (classify_request ''POST'' ''/v1/messages'') = Some TargetAnthropicMessages" by code_simp
    then show ?thesis by (simp add: unassignable_batch_def demo_request_def)
  qed
  ultimately show ?thesis
    using proxy_answers[OF laws] proxy_answers[OF batch_laws] array_batch_unassignable by blast
qed

end
