(* ===== verification/Websocket.thy ===== *)
theory Websocket
  imports Proxy_Http
begin

text \<open>
  The WebSocket side of \<open>src/proxy.rs\<close>: frames and their conversions, the headers of the
  upstream handshake, the Codex \<open>response.create\<close> frame and its compression, telemetry,
  the HTTP fallback, and how a connection starts. The relay itself is in \<open>Relay\<close>.
\<close>

section \<open>Frames\<close>

type_synonym u16 = "16 word"

text \<open>\<open>axum\<close>'s message, towards the client.\<close>

datatype ws_frame =
    WsText string
  | WsBinary string
  | WsPing string
  | WsPong string
  | WsClose "(u16 \<times> string) option"

text \<open>\<open>tungstenite\<close>'s message, towards the upstream; \<open>'c\<close> is its type of close codes.\<close>

datatype 'c ts_frame =
    TsText string
  | TsBinary string
  | TsPing string
  | TsPong string
  | TsClose "('c \<times> string) option"
  | TsFrame string

text \<open>
  The WebSocket libraries: conversions of close codes, the headers of a handshake request,
  connecting (an open connection is the sequence of what will arrive on it), sending the
  first frame upstream, and sending a frame to the client.
\<close>

record ('c, 'u) ws_lib =
  ws_code_from :: "u16 \<Rightarrow> 'c"
  ws_code_into :: "'c \<Rightarrow> u16"
  ws_client_request :: "string \<Rightarrow> proxy_error + header_map"
  ws_connect :: "string \<Rightarrow> header_map \<Rightarrow> 'u \<Rightarrow> (proxy_error + (proxy_error + 'c ts_frame) list) \<times> 'u"
  ws_upstream_send :: "'c ts_frame \<Rightarrow> 'u \<Rightarrow> (proxy_error + unit) \<times> 'u"
  ws_client_send :: "ws_frame \<Rightarrow> 'u \<Rightarrow> (proxy_error + unit) \<times> 'u"

fun axum_to_tungstenite :: "('c, 'u) ws_lib \<Rightarrow> ws_frame \<Rightarrow> 'c ts_frame option" where
  "axum_to_tungstenite W (WsText t) = Some (TsText t)"
| "axum_to_tungstenite W (WsBinary b) = Some (TsBinary b)"
| "axum_to_tungstenite W (WsPing b) = Some (TsPing b)"
| "axum_to_tungstenite W (WsPong b) = Some (TsPong b)"
| "axum_to_tungstenite W (WsClose (Some (code, reason))) = Some (TsClose (Some (ws_code_from W code, reason)))"
| "axum_to_tungstenite W (WsClose None) = Some (TsClose None)"

fun tungstenite_to_axum :: "('c, 'u) ws_lib \<Rightarrow> 'c ts_frame \<Rightarrow> ws_frame option" where
  "tungstenite_to_axum W (TsText t) = Some (WsText t)"
| "tungstenite_to_axum W (TsBinary b) = Some (WsBinary b)"
| "tungstenite_to_axum W (TsPing b) = Some (WsPing b)"
| "tungstenite_to_axum W (TsPong b) = Some (WsPong b)"
| "tungstenite_to_axum W (TsClose (Some (code, reason))) = Some (WsClose (Some (ws_code_into W code, reason)))"
| "tungstenite_to_axum W (TsClose None) = Some (WsClose None)"
| "tungstenite_to_axum W (TsFrame b) = None"

section \<open>Routing and the handshake\<close>

datatype websocket_kind = CodexResponses | Passthrough

definition websocket_kind_of :: "string \<Rightarrow> upstream_provider \<Rightarrow> websocket_kind" where
  "websocket_kind_of path provider =
     (if provider = UpstreamOpenAi
         \<and> path \<in> {''/v1/responses'', ''/v1/codex/responses'', ''/backend-api/responses'',
                   ''/backend-api/codex/responses''}
      then CodexResponses else Passthrough)"

definition websocket_client_protocols :: "http_lib \<Rightarrow> header_map \<Rightarrow> string list" where
  "websocket_client_protocols H hs =
     (case header_str H ''sec-websocket-protocol'' hs of Some v \<Rightarrow> comma_tokens v | None \<Rightarrow> [])"

definition should_skip_websocket_header :: "string \<Rightarrow> bool" where
  "should_skip_websocket_header name \<longleftrightarrow>
     name = ''host'' \<or> name = ''connection'' \<or> name = ''upgrade''
     \<or> eq_ignore_ascii_case name ''sec-websocket-key'' \<or> eq_ignore_ascii_case name ''sec-websocket-version''
     \<or> eq_ignore_ascii_case name ''sec-websocket-extensions'' \<or> name = ''content-length''
     \<or> eq_ignore_ascii_case name ''x-request-id'' \<or> eq_ignore_ascii_case name ''x-forwarded-for''
     \<or> eq_ignore_ascii_case name ''x-forwarded-proto'' \<or> eq_ignore_ascii_case name ''x-forwarded-host''
     \<or> starts_with ''x-headroom-'' name"

definition insert_opt :: "http_lib \<Rightarrow> string \<Rightarrow> string option \<Rightarrow> header_map \<Rightarrow> header_map" where
  "insert_opt H name v hs = (case v of Some x \<Rightarrow> insert_header H name x hs | None \<Rightarrow> hs)"

text \<open>The client's own headers come last; each overwrites what is there under its name.\<close>

definition copy_client_headers :: "header_map \<Rightarrow> header_map \<Rightarrow> header_map" where
  "copy_client_headers hs to_hs =
     fold (\<lambda>(name, v) acc. if should_skip_websocket_header name then acc else header_insert name v acc) hs to_hs"

definition copy_websocket_headers ::
    "('s, 'u) server_env \<Rightarrow> header_map \<Rightarrow> header_map \<Rightarrow> string option \<Rightarrow> ('s, 'u) server
       \<Rightarrow> header_map \<times> ('s, 'u) server" where
  "copy_websocket_headers E hs to_hs client_ip sv =
     (let H = ev_http E; (request_id, sv) = request_id_for E hs sv;
          to_hs = insert_header H ''x-request-id'' request_id to_hs;
          to_hs = header_insert ''x-forwarded-proto'' ''http'' to_hs;
          to_hs = (case header_get ''host'' hs of
                     Some host \<Rightarrow> header_insert ''x-forwarded-host'' host to_hs | None \<Rightarrow> to_hs);
          to_hs = insert_opt H ''x-forwarded-for'' (forwarded_for H hs client_ip) to_hs;
          to_hs = insert_opt H ''chatgpt-account-id''
                    (chatgpt_account_id_from_authorization H (ev_serde E) hs) to_hs
      in (copy_client_headers hs to_hs, sv))"

definition OPENAI_RESPONSES_WEBSOCKET_BETA :: string where
  "OPENAI_RESPONSES_WEBSOCKET_BETA = ''responses_websockets=2026-02-06''"

definition ensure_openai_responses_websocket_beta :: "http_lib \<Rightarrow> header_map \<Rightarrow> header_map" where
  "ensure_openai_responses_websocket_beta H hs =
     (let vs = (case header_str H ''openai-beta'' hs of Some v \<Rightarrow> comma_tokens v | None \<Rightarrow> []);
          vs = (if list_all (\<lambda>v. \<not> eq_ignore_ascii_case v OPENAI_RESPONSES_WEBSOCKET_BETA) vs
                then vs @ [OPENAI_RESPONSES_WEBSOCKET_BETA] else vs)
      in insert_header H ''openai-beta'' (join '', '' vs) hs)"

section \<open>Telemetry\<close>

text \<open>What a completed response reports: input, output and cached tokens.\<close>

definition ws_usage :: "json \<Rightarrow> (u64 \<times> u64 \<times> u64) option" where
  "ws_usage v =
     map_option (\<lambda>usage.
       (usage_u64 usage [''input_tokens'', ''prompt_tokens''],
        usage_u64 usage [''output_tokens'', ''completion_tokens''],
        unwrap_or 0 (option_or
          (Option.bind (option_or (json_get ''input_tokens_details'' usage) (json_get ''prompt_tokens_details'' usage))
            (\<lambda>details. usage_u64_opt details [''cached_tokens'']))
          (usage_u64_opt usage [''cache_read_input_tokens'']))))
       (object_only (option_or (json_get ''usage'' v) (get_in ''response'' ''usage'' v)))"

definition record_ws_usage :: "u64 \<times> u64 \<times> u64 \<Rightarrow> stats \<Rightarrow> stats" where
  "record_ws_usage = (\<lambda>(input, outp, cache_read) s.
     if input = 0 \<and> outp = 0 \<and> cache_read = 0 then s
     else
       let s = record_sse_usage input outp cache_read 0 s;
           s = record_inferred_cache_write_tokens (saturating_sub input cache_read) s
       in if input > 0 \<and> cache_read \<le> input
          then record_sse_cache_hit_rate ''openai_responses'' (of_nat (unat cache_read) / of_nat (unat input)) s
          else s)"

definition observe_text :: "serde \<Rightarrow> string \<Rightarrow> stats \<Rightarrow> stats" where
  "observe_text S t s =
     (case sd_value S t of
        None \<Rightarrow> s
      | Some v \<Rightarrow>
          let kind = unwrap_or [] (get_str ''type'' v) in
          (case terminal_status kind of
             None \<Rightarrow> s
           | Some status \<Rightarrow>
               let s = record_response_status status s;
                   s = (case Option.bind (option_or (get_in ''response'' ''service_tier'' v)
                               (json_get ''service_tier'' v)) as_str of
                          Some tier \<Rightarrow> record_service_tier (service_tier_validate tier) s | None \<Rightarrow> s)
               in if kind \<noteq> ''response.completed'' then s
                  else (case ws_usage v of Some usage \<Rightarrow> record_ws_usage usage s | None \<Rightarrow> s)))"

section \<open>The Codex frame\<close>

definition is_response_create :: "json \<Rightarrow> bool" where
  "is_response_create frame \<longleftrightarrow> get_str ''type'' frame = Some ''response.create''"

text \<open>The compressed body put back where it came from.\<close>

definition rewrap_frame :: "serde \<Rightarrow> string \<Rightarrow> json \<Rightarrow> string \<Rightarrow> string option" where
  "rewrap_frame S raw_text frame body =
     (if json_get ''response'' frame \<noteq> None then
        (case sd_value S body of
           None \<Rightarrow> Some raw_text
         | Some mutated \<Rightarrow>
             map_option (\<lambda>frame. unwrap_or raw_text (sd_to_vec S frame)) (json_set ''response'' mutated frame))
      else Some (if utf8_valid body then body else raw_text))"

definition codex_ctx :: "('s, 'u) server_env \<Rightarrow> header_map \<Rightarrow> compress_context" where
  "codex_ctx E hs = \<lparr>cc_auth_mode = classify_auth_mode (ev_http E) hs, cc_frozen_message_count = 0,
     cc_compress_user_text = ev_compress_user_text E, cc_provider_metadata = False\<rparr>"

definition compress_codex_body ::
    "('s, 'u) server_env \<Rightarrow> string \<Rightarrow> header_map \<Rightarrow> json \<Rightarrow> string \<Rightarrow> ('s, 'u) server
       \<Rightarrow> (string \<times> ('s, 'u) server) option" where
  "compress_codex_body E raw_text hs frame body sv =
     (let (ops, sv) = store_ops E sv in
      case compress_json_request_ctx (ev_serde E) (ev_sha256 E) (ev_md5 E) ops body OpenAiResponses
             (codex_ctx E hs) (sv_world sv) of
        None \<Rightarrow> None
      | Some (mutation, w) \<Rightarrow>
          let sv = on_stats (record_mutation_stats mutation) (sv\<lparr>sv_world := w\<rparr>) in
          if rc_body mutation = body then Some (raw_text, sv)
          else map_option (\<lambda>t. (t, sv)) (rewrap_frame (ev_serde E) raw_text frame (rc_body mutation)))"

definition maybe_compress_codex_response_create_frame ::
    "('s, 'u) server_env \<Rightarrow> string \<Rightarrow> header_map \<Rightarrow> ('s, 'u) server \<Rightarrow> (string \<times> ('s, 'u) server) option" where
  "maybe_compress_codex_response_create_frame E raw_text hs sv =
     (case sd_value (ev_serde E) raw_text of
        None \<Rightarrow> Some (raw_text, sv)
      | Some frame \<Rightarrow>
          if \<not> is_response_create frame then Some (raw_text, sv)
          else if \<not> ev_compression_enabled E \<or> \<not> allows_compression (ev_compression_mode E) then
            Some (raw_text, on_stats (record_skipped_request ''compression_disabled'') sv)
          else if compression_bypass_requested (ev_http E) hs then
            Some (raw_text, on_stats (record_skipped_request ''bypass_header'') sv)
          else (case sd_to_vec (ev_serde E) (unwrap_or frame (json_get ''response'' frame)) of
                  None \<Rightarrow> Some (raw_text, sv)
                | Some body \<Rightarrow> compress_codex_body E raw_text hs frame body sv))"

text \<open>The frame to send upstream and, of a text frame, the text; the outer option is a panic.\<close>

definition prepare_client_codex_ws_message ::
    "('s, 'u) server_env \<Rightarrow> ('c, 'u) ws_lib \<Rightarrow> header_map \<Rightarrow> ws_frame \<Rightarrow> ('s, 'u) server
       \<Rightarrow> (('c ts_frame \<times> string option) option \<times> ('s, 'u) server) option" where
  "prepare_client_codex_ws_message E W hs message sv =
     (case axum_to_tungstenite W message of
        None \<Rightarrow> Some (None, sv)
      | Some (TsText t) \<Rightarrow>
          map_option (\<lambda>(rewritten, sv). (Some (TsText rewritten, Some rewritten), sv))
            (maybe_compress_codex_response_create_frame E t hs sv)
      | Some m \<Rightarrow> Some (Some (m, None), sv))"

end
