(* ===== verification/Codex.thy ===== *)
theory Codex
  imports Websocket
begin

text \<open>
  How a WebSocket connection starts in \<open>src/proxy.rs\<close>: the handshake with the upstream, the
  first frame of a Codex connection, and the HTTP fallback, which relays an SSE response to
  the client as text frames.
\<close>

definition client_send ::
    "('c, 'u) ws_lib \<Rightarrow> ws_frame \<Rightarrow> ('s, 'u) server \<Rightarrow> (proxy_error + unit) \<times> ('s, 'u) server" where
  "client_send W m sv = (let (r, u) = ws_client_send W m (sv_net sv) in (r, sv\<lparr>sv_net := u\<rparr>))"

section \<open>An SSE response as text frames\<close>

text \<open>The first line of a buffer, its line feed included, and the rest.\<close>

definition cut_line :: "string \<Rightarrow> (string \<times> string) option" where
  "cut_line buf =
     (case dropWhile (\<lambda>c. c \<noteq> LF) buf of
        [] \<Rightarrow> None
      | c # rest \<Rightarrow> Some (takeWhile (\<lambda>c. c \<noteq> LF) buf @ [c], rest))"

text \<open>What a line has to relay, if anything.\<close>

definition sse_line_data :: "string \<Rightarrow> string option" where
  "sse_line_data line =
     (if \<not> utf8_valid line then None
      else option_filter (\<lambda>data. data \<noteq> [] \<and> data \<noteq> ''[DONE]'')
        (map_option trim_start (strip_prefix ''data:'' (drop_while_end (\<lambda>c. c = CR \<or> c = LF) line))))"

definition relay_line ::
    "('s, 'u) server_env \<Rightarrow> ('c, 'u) ws_lib \<Rightarrow> string \<Rightarrow> ('s, 'u) server
       \<Rightarrow> (proxy_error + unit) \<times> ('s, 'u) server" where
  "relay_line E W line sv =
     (case sse_line_data line of
        None \<Rightarrow> (Inr (), sv)
      | Some data \<Rightarrow> client_send W (WsText data) (on_stats (observe_text (ev_serde E) data) sv))"

lemma cut_line_shrinks:
  assumes "cut_line buf = Some (line, rest)"
  shows "length rest < length buf"
proof -
  obtain c where "dropWhile (\<lambda>c. c \<noteq> LF) buf = c # rest"
    using assms by (auto simp: cut_line_def split: list.splits)
  then have "length (c # rest) \<le> length buf" by (metis length_dropWhile_le)
  then show ?thesis by simp
qed

text \<open>The inner loop: every complete line of the buffer; what is left, or the error that ended it.\<close>

function relay_buffer ::
    "('s, 'u) server_env \<Rightarrow> ('c, 'u) ws_lib \<Rightarrow> string \<Rightarrow> ('s, 'u) server
       \<Rightarrow> (proxy_error + string) \<times> ('s, 'u) server" where
  "relay_buffer E W buf sv =
     (case cut_line buf of
        None \<Rightarrow> (Inr buf, sv)
      | Some (line, rest) \<Rightarrow>
          (case relay_line E W line sv of
             (Inl err, sv) \<Rightarrow> (Inl err, sv)
           | (Inr _, sv) \<Rightarrow> relay_buffer E W rest sv))"
  by pat_completeness auto
termination
  by (relation "measure (\<lambda>(E, W, buf, sv). length buf)") (auto dest: cut_line_shrinks)

declare relay_buffer.simps [simp del]

fun relay_chunks ::
    "('s, 'u) server_env \<Rightarrow> ('c, 'u) ws_lib \<Rightarrow> string \<Rightarrow> body_chunks \<Rightarrow> ('s, 'u) server
       \<Rightarrow> (proxy_error + unit) \<times> ('s, 'u) server" where
  "relay_chunks E W buffer [] sv = (Inr (), sv)"
| "relay_chunks E W buffer (Inl err # cs) sv = (Inl err, sv)"
| "relay_chunks E W buffer (Inr chunk # cs) sv =
     (case relay_buffer E W (buffer @ chunk) sv of
        (Inl err, sv) \<Rightarrow> (Inl err, sv)
      | (Inr buffer, sv) \<Rightarrow> relay_chunks E W buffer cs sv)"

definition relay_sse_response_over_websocket ::
    "('s, 'u) server_env \<Rightarrow> ('c, 'u) ws_lib \<Rightarrow> http_reply \<Rightarrow> ('s, 'u) server
       \<Rightarrow> (proxy_error + unit) \<times> ('s, 'u) server" where
  "relay_sse_response_over_websocket E W reply sv = relay_chunks E W [] (hp_chunks reply) sv"

section \<open>The HTTP fallback\<close>

definition streaming_body :: "json \<Rightarrow> json" where
  "streaming_body body =
     (case body of JObject m \<Rightarrow> JObject (obj_insert ''stream'' (JBool True) (obj_remove ''type'' m)) | v \<Rightarrow> v)"

definition codex_ws_http_fallback_body :: "serde \<Rightarrow> string \<Rightarrow> string option" where
  "codex_ws_http_fallback_body S first_text =
     (case sd_value S first_text of
        None \<Rightarrow> None
      | Some frame \<Rightarrow>
          if \<not> is_response_create frame then None
          else sd_to_vec S (streaming_body (unwrap_or frame (json_get ''response'' frame))))"

definition error_frame :: "nat \<Rightarrow> json" where
  "error_frame status = json_obj [(''type'', JString ''error''),
     (''error'', json_obj [(''type'', JString ''server_error''),
        (''message'', JString (''Upstream returned '' @ dec status))])]"

text \<open>A reply that is not a success: one error frame to the client.\<close>

definition fallback_refused ::
    "('s, 'u) server_env \<Rightarrow> ('c, 'u) ws_lib \<Rightarrow> nat \<Rightarrow> ('s, 'u) server
       \<Rightarrow> ((proxy_error + unit) \<times> ('s, 'u) server) option" where
  "fallback_refused E W status sv =
     (case sd_to_vec (ev_serde E) (error_frame status) of
        None \<Rightarrow> None
      | Some t \<Rightarrow>
          (case client_send W (WsText t) sv of
             (Inl err, sv) \<Rightarrow> Some (Inl err, sv)
           | (Inr _, sv) \<Rightarrow>
               Some (Inl (PlainError (''codex websocket http fallback returned '' @ ev_status_text E status)), sv)))"

definition codex_ws_http_fallback ::
    "('s, 'u) server_env \<Rightarrow> ('c, 'u) ws_lib \<Rightarrow> string \<Rightarrow> string option \<Rightarrow> header_map \<Rightarrow> string option
       \<Rightarrow> string option \<Rightarrow> hr_error \<Rightarrow> ('s, 'u) server \<Rightarrow> ((proxy_error + unit) \<times> ('s, 'u) server) option" where
  "codex_ws_http_fallback E W path query hs first_text client_ip connect_error sv =
     (case first_text of
        None \<Rightarrow> Some (Inl (PlainError
          (''codex websocket upstream failed before a text response.create frame: '' @ connect_error)), sv)
      | Some first_text \<Rightarrow>
          (case codex_ws_http_fallback_body (ev_serde E) first_text of
             None \<Rightarrow> Some (Inl (PlainError
               (''codex websocket upstream failed and first frame cannot be converted to HTTP fallback: ''
                @ connect_error)), sv)
           | Some body \<Rightarrow>
               let (request_id, sv) = request_id_for E hs sv;
                   fallback_headers = ensure_openai_responses_websocket_beta (ev_http E) hs;
                   (response, sv) = send_request E
                     \<lparr>hq_method = ''POST'', hq_url = upstream_url E UpstreamOpenAi path query,
                      hq_headers = (''content-type'', ''application/json'')
                        # apply_headers (ev_http E) (ev_serde E) fallback_headers client_ip request_id,
                      hq_chunks = [Inr body]\<rparr> sv
               in (case response of
                     Inl err \<Rightarrow> Some (Inl err, sv)
                   | Inr reply \<Rightarrow>
                       if \<not> (200 \<le> hp_status reply \<and> hp_status reply < 300)
                       then fallback_refused E W (hp_status reply) sv
                       else Some (relay_sse_response_over_websocket E W reply sv))))"

section \<open>The start of a connection\<close>

text \<open>What the first wait for a client frame gives, and how a connection goes on from there.\<close>

datatype first_event = FirstTimeout | FirstEnd | FirstFrame "proxy_error + ws_frame"

datatype 'c ws_start =
    WsEnded "proxy_error + unit"
  | WsPassthrough "(proxy_error + 'c ts_frame) list"
  | WsCodex header_map "'c ts_frame" "(proxy_error + 'c ts_frame) list"

definition handshake_headers ::
    "('s, 'u) server_env \<Rightarrow> ('c, 'u) ws_lib \<Rightarrow> upstream_provider \<Rightarrow> string \<Rightarrow> string option \<Rightarrow> header_map
       \<Rightarrow> string option \<Rightarrow> ('s, 'u) server \<Rightarrow> (proxy_error + (string \<times> header_map)) \<times> ('s, 'u) server" where
  "handshake_headers E W provider path query hs client_ip sv =
     (case websocket_url E provider path query of
        Inl err \<Rightarrow> (Inl (PlainError err), sv)
      | Inr url \<Rightarrow>
          (case ws_client_request W url of
             Inl err \<Rightarrow> (Inl err, sv)
           | Inr to_hs \<Rightarrow>
               let (to_hs, sv) = copy_websocket_headers E hs to_hs client_ip sv in (Inr (url, to_hs), sv)))"

definition connect_upstream ::
    "('c, 'u) ws_lib \<Rightarrow> string \<Rightarrow> header_map \<Rightarrow> ('s, 'u) server
       \<Rightarrow> (proxy_error + (proxy_error + 'c ts_frame) list) \<times> ('s, 'u) server" where
  "connect_upstream W url hs sv = (let (r, u) = ws_connect W url hs (sv_net sv) in (r, sv\<lparr>sv_net := u\<rparr>))"

definition start_passthrough ::
    "('s, 'u) server_env \<Rightarrow> ('c, 'u) ws_lib \<Rightarrow> upstream_provider \<Rightarrow> string \<Rightarrow> string option \<Rightarrow> header_map
       \<Rightarrow> string option \<Rightarrow> ('s, 'u) server \<Rightarrow> 'c ws_start \<times> ('s, 'u) server" where
  "start_passthrough E W provider path query hs client_ip sv =
     (case handshake_headers E W provider path query hs client_ip sv of
        (Inl err, sv) \<Rightarrow> (WsEnded (Inl err), sv)
      | (Inr (url, to_hs), sv) \<Rightarrow>
          (case connect_upstream W url to_hs sv of
             (Inl err, sv) \<Rightarrow> (WsEnded (Inl err), sv)
           | (Inr frames, sv) \<Rightarrow> (WsPassthrough frames, sv)))"

definition connection_betas ::
    "('s, 'u) server_env \<Rightarrow> header_map \<Rightarrow> ('s, 'u) server \<Rightarrow> header_map \<times> ('s, 'u) server" where
  "connection_betas E hs sv =
     (let (connection_session, sv) = new_request_id E sv;
          client_beta = header_str (ev_http E) ''openai-beta'' hs;
          (merged_beta, trackers) = sticky_betas SessionOpenAi connection_session client_beta (sv_trackers sv)
      in (set_beta_header (ev_http E) ''openai-beta'' client_beta merged_beta hs, sv\<lparr>sv_trackers := trackers\<rparr>))"

text \<open>The upstream connection of a Codex client whose first frame is ready to go.\<close>

definition connect_codex ::
    "('s, 'u) server_env \<Rightarrow> ('c, 'u) ws_lib \<Rightarrow> string \<Rightarrow> string option \<Rightarrow> header_map \<Rightarrow> string option
       \<Rightarrow> 'c ts_frame \<Rightarrow> string option \<Rightarrow> ('s, 'u) server \<Rightarrow> ('c ws_start \<times> ('s, 'u) server) option" where
  "connect_codex E W path query hs client_ip message first_text sv =
     (case handshake_headers E W UpstreamOpenAi path query hs client_ip sv of
        (Inl err, sv) \<Rightarrow> Some (WsEnded (Inl err), sv)
      | (Inr (url, to_hs), sv) \<Rightarrow>
          (case connect_upstream W url (ensure_openai_responses_websocket_beta (ev_http E) to_hs) sv of
             (Inl err, sv) \<Rightarrow>
               map_option (\<lambda>(r, sv). (WsEnded r, sv))
                 (codex_ws_http_fallback E W path query hs first_text client_ip (error_text err) sv)
           | (Inr frames, sv) \<Rightarrow>
               (case ws_upstream_send W message (sv_net sv) of
                  (Inl err, u) \<Rightarrow> Some (WsEnded (Inl err), sv\<lparr>sv_net := u\<rparr>)
                | (Inr _, u) \<Rightarrow> Some (WsCodex hs message frames, sv\<lparr>sv_net := u\<rparr>))))"

definition start_codex ::
    "('s, 'u) server_env \<Rightarrow> ('c, 'u) ws_lib \<Rightarrow> string \<Rightarrow> string option \<Rightarrow> header_map \<Rightarrow> string option
       \<Rightarrow> first_event \<Rightarrow> ('s, 'u) server \<Rightarrow> ('c ws_start \<times> ('s, 'u) server) option" where
  "start_codex E W path query hs client_ip event sv =
     (case event of
        FirstTimeout \<Rightarrow>
          Some (WsEnded (Inr ()), snd (client_send W (WsClose (Some (1001, ''first frame timeout''))) sv))
      | FirstEnd \<Rightarrow> Some (WsEnded (Inr ()), sv)
      | FirstFrame (Inl err) \<Rightarrow> Some (WsEnded (Inl err), sv)
      | FirstFrame (Inr message) \<Rightarrow>
          let (hs, sv) = connection_betas E hs sv in
          (case prepare_client_codex_ws_message E W hs message sv of
             None \<Rightarrow> None
           | Some (None, sv) \<Rightarrow> Some (WsEnded (Inr ()), sv)
           | Some (Some (message, first_text), sv) \<Rightarrow>
               connect_codex E W path query hs client_ip message first_text sv))"

text \<open>\<open>event\<close> is only waited for by a Codex connection.\<close>

definition start_websocket ::
    "('s, 'u) server_env \<Rightarrow> ('c, 'u) ws_lib \<Rightarrow> string \<Rightarrow> string option \<Rightarrow> header_map \<Rightarrow> upstream_provider
       \<Rightarrow> string option \<Rightarrow> first_event \<Rightarrow> ('s, 'u) server \<Rightarrow> ('c ws_start \<times> ('s, 'u) server) option" where
  "start_websocket E W path query hs provider client_ip event sv =
     (let sv = on_stats record_websocket_open sv in
      case websocket_kind_of path provider of
        CodexResponses \<Rightarrow> start_codex E W path query hs client_ip event sv
      | Passthrough \<Rightarrow> Some (start_passthrough E W provider path query hs client_ip sv))"

text \<open>A GET request: an upgrade with the subprotocols to echo, or a request like any other.\<close>

datatype get_outcome = Upgraded upstream_provider "string list" | Answered client_response

definition proxy_get_handler ::
    "('s, 'u) server_env \<Rightarrow> bool \<Rightarrow> client_request \<Rightarrow> string option \<Rightarrow> ('s, 'u) server
       \<Rightarrow> (get_outcome \<times> ('s, 'u) server) option" where
  "proxy_get_handler E upgrade req client_ip sv =
     (let class = classify_request (cq_method req) (cq_path req) in
      if upgrade then
        Some (Upgraded (rq_provider class) (websocket_client_protocols (ev_http E) (cq_headers req)),
              on_stats record_request sv)
      else map_option (\<lambda>(r, sv). (Answered r, sv)) (proxy_http E req class client_ip sv))"

end
