(* ===== verification/Relay.thy ===== *)
theory Relay
  imports Codex
begin

text \<open>
  The two relay loops of \<open>src/proxy.rs\<close> under \<open>tokio::select!\<close>, as a step relation. Each
  direction takes a frame, converts it, and sends it; while one waits the other may run, and
  the connection ends as soon as one of them returns. What will arrive in a direction is a
  list, at the end of which the stream is closed; when it arrives is the order of the steps.
\<close>

section \<open>One direction\<close>

text \<open>What is still to come, the frame being sent, and the frames sent.\<close>

record ('a, 'b) pump =
  pm_in :: "(proxy_error + 'a) list"
  pm_held :: "'b option"
  pm_out :: "'b list"

datatype relay_end = Closed "proxy_error + unit" | Panicked

type_synonym ('a, 'b, 's) converter = "'a \<Rightarrow> 's \<Rightarrow> ('b option \<times> 's) option"

text \<open>
  A step of one direction, and whether its loop returned. The item at which a loop returns
  is left in \<open>pm_in\<close>: nothing is taken after it.
\<close>

inductive pump_step ::
    "('a, 'b, 's) converter \<Rightarrow> ('a, 'b) pump \<times> 's \<Rightarrow> ('a, 'b) pump \<times> 's \<Rightarrow> relay_end option \<Rightarrow> bool"
  for conv :: "('a, 'b, 's) converter" where
  receive: "pm_held p = None \<Longrightarrow> pm_in p = Inr m # ms \<Longrightarrow> conv m s = Some (Some m', s') \<Longrightarrow>
     pump_step conv (p, s) (p\<lparr>pm_in := ms, pm_held := Some m'\<rparr>, s') None"
| stop: "pm_held p = None \<Longrightarrow> pm_in p = Inr m # ms \<Longrightarrow> conv m s = Some (None, s') \<Longrightarrow>
     pump_step conv (p, s) (p, s') (Some (Closed (Inr ())))"
| panic: "pm_held p = None \<Longrightarrow> pm_in p = Inr m # ms \<Longrightarrow> conv m s = None \<Longrightarrow>
     pump_step conv (p, s) (p, s) (Some Panicked)"
| broken: "pm_held p = None \<Longrightarrow> pm_in p = Inl err # ms \<Longrightarrow>
     pump_step conv (p, s) (p, s) (Some (Closed (Inl err)))"
| closed: "pm_held p = None \<Longrightarrow> pm_in p = [] \<Longrightarrow> pump_step conv (p, s) (p, s) (Some (Closed (Inr ())))"
| send: "pm_held p = Some m' \<Longrightarrow>
     pump_step conv (p, s) (p\<lparr>pm_held := None, pm_out := pm_out p @ [m']\<rparr>, s) None"
| send_fails: "pm_held p = Some m' \<Longrightarrow> pump_step conv (p, s) (p, s) (Some (Closed (Inl err)))"

inductive_cases pump_stepE: "pump_step conv (p, s) (p', s') e"

definition pending :: "('a, 'b) pump \<Rightarrow> 'b list" where
  "pending p = (case pm_held p of Some m \<Rightarrow> [m] | None \<Rightarrow> [])"

section \<open>Both directions\<close>

record ('c, 's) relay =
  rl_up :: "(ws_frame, 'c ts_frame) pump"
  rl_down :: "('c ts_frame, ws_frame) pump"
  rl_state :: 's
  rl_end :: "relay_end option"

inductive relay_step ::
    "(ws_frame, 'c ts_frame, 's) converter \<Rightarrow> ('c ts_frame, ws_frame, 's) converter
       \<Rightarrow> ('c, 's) relay \<Rightarrow> ('c, 's) relay \<Rightarrow> bool"
  for up :: "(ws_frame, 'c ts_frame, 's) converter" and down :: "('c ts_frame, ws_frame, 's) converter" where
  client: "rl_end r = None \<Longrightarrow> pump_step up (rl_up r, rl_state r) (p, s) e \<Longrightarrow>
     relay_step up down r (r\<lparr>rl_up := p, rl_state := s, rl_end := e\<rparr>)"
| upstream: "rl_end r = None \<Longrightarrow> pump_step down (rl_down r, rl_state r) (p, s) e \<Longrightarrow>
     relay_step up down r (r\<lparr>rl_down := p, rl_state := s, rl_end := e\<rparr>)"

inductive_cases relay_stepE: "relay_step up down r r'"

text \<open>The relay of a connection: a Codex one has sent its first frame already.\<close>

definition relay_start ::
    "(proxy_error + ws_frame) list \<Rightarrow> 'c ts_frame list \<Rightarrow> (proxy_error + 'c ts_frame) list \<Rightarrow> 's \<Rightarrow> ('c, 's) relay" where
  "relay_start ups first downs s =
     \<lparr>rl_up = \<lparr>pm_in = ups, pm_held = None, pm_out = first\<rparr>,
      rl_down = \<lparr>pm_in = downs, pm_held = None, pm_out = []\<rparr>, rl_state = s, rl_end = None\<rparr>"

definition passthrough_up :: "('c, 'u) ws_lib \<Rightarrow> (ws_frame, 'c ts_frame, 's) converter" where
  "passthrough_up W m s = Some (axum_to_tungstenite W m, s)"

definition passthrough_down :: "('c, 'u) ws_lib \<Rightarrow> ('c ts_frame, ws_frame, 's) converter" where
  "passthrough_down W m s = Some (tungstenite_to_axum W m, s)"

definition codex_up ::
    "('s, 'u) server_env \<Rightarrow> ('c, 'u) ws_lib \<Rightarrow> header_map \<Rightarrow> (ws_frame, 'c ts_frame, ('s, 'u) server) converter" where
  "codex_up E W hs m sv =
     map_option (\<lambda>(r, sv). (map_option fst r, sv)) (prepare_client_codex_ws_message E W hs m sv)"

definition codex_down ::
    "('s, 'u) server_env \<Rightarrow> ('c, 'u) ws_lib \<Rightarrow> ('c ts_frame, ws_frame, ('s, 'u) server) converter" where
  "codex_down E W m sv =
     Some (tungstenite_to_axum W m,
       case m of TsText t \<Rightarrow> on_stats (observe_text (ev_serde E) t) sv | _ \<Rightarrow> sv)"

text \<open>The end of a connection, however it came.\<close>

definition end_websocket :: "('s, 'u) server \<Rightarrow> ('s, 'u) server" where
  "end_websocket sv = on_stats record_websocket_close sv"

section \<open>What a direction carries\<close>

text \<open>
  The frames sent, and the one being sent, after \<open>first\<close>, correspond one by one and in order
  to the frames that came before those still to come: none lost, repeated or overtaken.
\<close>

definition delivered ::
    "('a \<Rightarrow> 'b \<Rightarrow> bool) \<Rightarrow> 'b list \<Rightarrow> (proxy_error + 'a) list \<Rightarrow> ('a, 'b) pump \<Rightarrow> bool" where
  "delivered R first xs p \<longleftrightarrow>
     (\<exists>ms outs. xs = map Inr ms @ pm_in p \<and> pm_out p @ pending p = first @ outs \<and> list_all2 R ms outs)"

lemma delivered_start: "delivered R first xs \<lparr>pm_in = xs, pm_held = None, pm_out = first\<rparr>"
  unfolding delivered_def by (intro exI[of _ "[]"]) (simp add: pending_def)

lemma delivered_mono: "delivered R first xs p \<Longrightarrow> (\<And>m m'. R m m' \<Longrightarrow> R' m m') \<Longrightarrow> delivered R' first xs p"
  unfolding delivered_def by (blast intro: list_all2_mono)

lemma delivered_step:
  assumes "delivered R first xs p" "pump_step conv (p, s) (p', s') e"
    and "\<And>m m'. conv m s = Some (Some m', s') \<Longrightarrow> R m m'"
  shows "delivered R first xs p'"
proof -
  obtain ms outs where inv: "xs = map Inr ms @ pm_in p" "pm_out p @ pending p = first @ outs" "list_all2 R ms outs"
    using assms(1) by (auto simp: delivered_def)
  from assms(2) show ?thesis
  proof (rule pump_stepE)
    fix m m' ms1
    assume st: "p' = p\<lparr>pm_in := ms1, pm_held := Some m'\<rparr>" "pm_held p = None" "pm_in p = Inr m # ms1"
      "conv m s = Some (Some m', s')"
    have "list_all2 R (ms @ [m]) (outs @ [m'])"
      using inv(3) assms(3)[OF st(4)] by (simp add: list_all2_appendI)
    then show ?thesis using st inv(1,2) unfolding delivered_def
      by (intro exI[of _ "ms @ [m]"] exI[of _ "outs @ [m']"]) (simp add: pending_def)
  next
    fix m'
    assume st: "p' = p\<lparr>pm_held := None, pm_out := pm_out p @ [m']\<rparr>" "pm_held p = Some m'"
    then show ?thesis using inv unfolding delivered_def
      by (intro exI[of _ ms] exI[of _ outs]) (simp add: pending_def)
  qed (use assms(1) in auto)
qed

text \<open>
  A converter that, on good states, returns, keeps them good and only moves up in an order;
  \<open>rel s m m'\<close> says what \<open>m'\<close> may be for \<open>m\<close>, as judged in the state \<open>s\<close>, and stays true.
\<close>

locale frame_pump =
  fixes conv :: "('a, 'b, 's) converter" and rel :: "'s \<Rightarrow> 'a \<Rightarrow> 'b \<Rightarrow> bool"
    and ok :: "'s \<Rightarrow> bool" and le :: "'s \<Rightarrow> 's \<Rightarrow> bool"
  assumes le_refl: "le s s"
    and le_trans: "le s s' \<Longrightarrow> le s' s'' \<Longrightarrow> le s s''"
    and conv_returns: "ok s \<Longrightarrow> conv m s \<noteq> None"
    and conv_ok: "ok s \<Longrightarrow> conv m s = Some (r, s') \<Longrightarrow> ok s' \<and> le s s'"
    and conv_rel: "ok s \<Longrightarrow> conv m s = Some (Some m', s') \<Longrightarrow> rel s' m m'"
    and rel_mono: "rel s m m' \<Longrightarrow> le s s' \<Longrightarrow> rel s' m m'"
begin

lemma delivered_le: "delivered (rel s) first xs p \<Longrightarrow> le s s' \<Longrightarrow> delivered (rel s') first xs p"
  by (erule delivered_mono) (rule rel_mono)

lemma step_ok:
  assumes "ok s" "pump_step conv (p, s) (p', s') e"
  shows "ok s' \<and> le s s' \<and> e \<noteq> Some Panicked"
  using assms(2) by (rule pump_stepE) (use conv_ok[OF assms(1)] conv_returns[OF assms(1)] assms(1) le_refl in auto)

lemma step_delivered:
  assumes "ok s" "delivered (rel s) first xs p" "pump_step conv (p, s) (p', s') e"
  shows "delivered (rel s') first xs p'"
proof (rule delivered_step[OF _ assms(3)])
  show "delivered (rel s') first xs p" using delivered_le assms(2) step_ok[OF assms(1,3)] by blast
qed (rule conv_rel[OF assms(1)])

end

locale relay_protocol =
  up: frame_pump up rel_up ok le + down: frame_pump down rel_down ok le
  for up :: "(ws_frame, 'c ts_frame, 's) converter" and rel_up
    and down :: "('c ts_frame, ws_frame, 's) converter" and rel_down and ok and le
begin

definition sound_relay ::
    "(proxy_error + ws_frame) list \<Rightarrow> 'c ts_frame list \<Rightarrow> (proxy_error + 'c ts_frame) list \<Rightarrow> 's \<Rightarrow> ('c, 's) relay \<Rightarrow> bool" where
  "sound_relay ups first downs s r \<longleftrightarrow> ok (rl_state r) \<and> le s (rl_state r) \<and> rl_end r \<noteq> Some Panicked
     \<and> delivered (rel_up (rl_state r)) first ups (rl_up r) \<and> delivered (rel_down (rl_state r)) [] downs (rl_down r)"

lemma sound_step:
  assumes "sound_relay ups first downs s r" "relay_step up down r r'"
  shows "sound_relay ups first downs s r'"
  using assms(2)
proof (rule relay_stepE)
  fix p s' e
  assume st: "r' = r\<lparr>rl_up := p, rl_state := s', rl_end := e\<rparr>" "pump_step up (rl_up r, rl_state r) (p, s') e"
  have ok: "ok (rl_state r)" using assms(1) by (simp add: sound_relay_def)
  have next_ok: "ok s' \<and> le (rl_state r) s' \<and> e \<noteq> Some Panicked" by (rule up.step_ok[OF ok st(2)])
  then show ?thesis
    using up.step_delivered[OF ok _ st(2)] down.delivered_le[of "rl_state r" _ _ _ s'] up.le_trans assms(1) st(1)
    by (auto simp: sound_relay_def)
next
  fix p s' e
  assume st: "r' = r\<lparr>rl_down := p, rl_state := s', rl_end := e\<rparr>" "pump_step down (rl_down r, rl_state r) (p, s') e"
  have ok: "ok (rl_state r)" using assms(1) by (simp add: sound_relay_def)
  have next_ok: "ok s' \<and> le (rl_state r) s' \<and> e \<noteq> Some Panicked" by (rule down.step_ok[OF ok st(2)])
  then show ?thesis
    using down.step_delivered[OF ok _ st(2)] up.delivered_le[of "rl_state r" _ _ _ s'] up.le_trans assms(1) st(1)
    by (auto simp: sound_relay_def)
qed

lemma sound_run:
  assumes "ok s" "(relay_step up down)\<^sup>*\<^sup>* (relay_start ups first downs s) r"
  shows "sound_relay ups first downs s r"
  using assms(2)
proof (induction rule: rtranclp_induct)
  case base
  then show ?case
    using assms(1) up.le_refl by (simp add: sound_relay_def relay_start_def delivered_start)
next
  case (step r r')
  then show ?case using sound_step by blast
qed

end

section \<open>Progress and ends\<close>

text \<open>What a direction has left to do: two steps for a frame to come, one for a frame to send.\<close>

definition pump_work :: "('a, 'b) pump \<Rightarrow> nat" where
  "pump_work p = 2 * length (pm_in p) + length (pending p)"

definition relay_work :: "('c, 's) relay \<Rightarrow> nat" where
  "relay_work r = pump_work (rl_up r) + pump_work (rl_down r)"

lemma pump_step_work: "pump_step conv (p, s) (p', s') None \<Longrightarrow> pump_work p = Suc (pump_work p')"
  by (erule pump_stepE) (auto simp: pump_work_def pending_def)

lemma pump_progress: "\<exists>p' s' e. pump_step conv (p, s) (p', s') e"
proof (cases "pm_held p")
  case (Some m)
  then show ?thesis by (blast intro: pump_step.send)
next
  case None
  show ?thesis
  proof (cases "pm_in p")
    case Nil
    with None show ?thesis by (blast intro: pump_step.closed)
  next
    case (Cons x xs)
    with None show ?thesis
    proof (cases x)
      case (Inr m)
      with None Cons show ?thesis
        by (cases "conv m s") (auto intro: pump_step.panic pump_step.stop pump_step.receive, metis pump_step.receive pump_step.stop option.exhaust)
    qed (metis pump_step.broken)
  qed
qed

lemma relay_progress: "rl_end r = None \<longleftrightarrow> (\<exists>r'. relay_step up down r r')"
proof
  assume "rl_end r = None"
  moreover obtain p' s' e where "pump_step up (rl_up r, rl_state r) (p', s') e"
    by (metis pump_progress)
  ultimately show "\<exists>r'. relay_step up down r r'" by (blast intro: relay_step.client)
qed (auto elim: relay_stepE)

lemma relay_step_work: "relay_step up down r r' \<Longrightarrow> rl_end r' = None \<Longrightarrow> relay_work r = Suc (relay_work r')"
  by (erule relay_stepE) (auto simp: relay_work_def dest: pump_step_work)

lemma relay_run_length:
  "(relay_step up down ^^ n) r0 r \<Longrightarrow> (if rl_end r = None then n + relay_work r = relay_work r0 else n \<le> Suc (relay_work r0))"
proof (induction n arbitrary: r)
  case (Suc n)
  then obtain r1 where r1: "(relay_step up down ^^ n) r0 r1" "relay_step up down r1 r" by auto
  have "rl_end r1 = None" using r1(2) relay_progress by blast
  then show ?case using Suc.IH[OF r1(1)] relay_step_work[OF r1(2)] by auto
qed simp

definition drained :: "('a, 'b) pump \<Rightarrow> bool" where
  "drained p \<longleftrightarrow> pm_in p = [] \<and> pending p = []"

lemma pump_clean_end:
  assumes "pump_step conv (p, s) (p', s') (Some (Closed (Inr ())))"
  shows "drained p' \<or> (\<exists>m ms. pm_in p' = Inr m # ms \<and> conv m s = Some (None, s'))"
  using assms by (rule pump_stepE) (auto simp: drained_def pending_def)

text \<open>If no client frame stops its loop, and only raw frames stop the other, a clean end has one of three causes.\<close>

lemma relay_clean_end:
  assumes "(relay_step up down)\<^sup>*\<^sup>* (relay_start ups first downs s) r" "rl_end r = Some (Closed (Inr ()))"
    and up: "\<And>m s s'. up m s \<noteq> Some (None, s')"
    and down: "\<And>m s s'. down m s = Some (None, s') \<Longrightarrow> \<exists>b. m = TsFrame b"
  shows "drained (rl_up r) \<or> drained (rl_down r) \<or> (\<exists>b ms. pm_in (rl_down r) = Inr (TsFrame b) # ms)"
  using assms(1)
proof (cases rule: rtranclp.cases)
  case rtrancl_refl
  then show ?thesis using assms(2) by (simp add: relay_start_def)
next
  case (rtrancl_into_rtrancl r1)
  from rtrancl_into_rtrancl(2) show ?thesis
  proof (rule relay_stepE)
    fix p s' e
    assume "r = r1\<lparr>rl_up := p, rl_state := s', rl_end := e\<rparr>" "pump_step up (rl_up r1, rl_state r1) (p, s') e"
    then show ?thesis using assms(2) up pump_clean_end[of up "rl_up r1" _ p s'] by fastforce
  next
    fix p s' e
    assume "r = r1\<lparr>rl_down := p, rl_state := s', rl_end := e\<rparr>" "pump_step down (rl_down r1, rl_state r1) (p, s') e"
    then show ?thesis using assms(2) down pump_clean_end[of down "rl_down r1" _ p s'] by fastforce
  qed
qed

end
