(* ===== verification/Relay_Safety.thy ===== *)
theory Relay_Safety
  imports Relay Proxy_Http_Safety
begin

text \<open>
  Properties of the WebSocket relay: frames arrive in order, whole and at most once; every
  run ends; a Codex frame reaches the upstream as the client sent it or as its compression,
  whose hashes the store resolves.
\<close>

section \<open>The relay that passes everything through\<close>

interpretation passthrough: relay_protocol "passthrough_up W" "\<lambda>s m m'. axum_to_tungstenite W m = Some m'"
  "passthrough_down W" "\<lambda>s m m'. tungstenite_to_axum W m = Some m'" "\<lambda>s. True" "(=)"
  for W :: "('c, 'u) ws_lib"
  by unfold_locales (auto simp: passthrough_up_def passthrough_down_def)

lemma axum_never_stops: "axum_to_tungstenite W m \<noteq> None"
  by (cases "(W, m)" rule: axum_to_tungstenite.cases) auto

lemma tungstenite_stops: "tungstenite_to_axum W m = None \<Longrightarrow> \<exists>b. m = TsFrame b"
  by (cases "(W, m)" rule: tungstenite_to_axum.cases) auto

text \<open>
  C20: A passed-through connection delivers. At every moment, what was sent in a direction,
  and is being sent, is the conversion of the frames that came, one by one and in order, up
  to those still to come. If it ended without an error, one direction was delivered in full
  or the upstream library handed over a raw frame.
\<close>

theorem passthrough_relay_delivers:
  assumes "(relay_step (passthrough_up W) (passthrough_down W))\<^sup>*\<^sup>* (relay_start ups [] downs s) r"
  shows "delivered (\<lambda>m m'. axum_to_tungstenite W m = Some m') [] ups (rl_up r)
    \<and> delivered (\<lambda>m m'. tungstenite_to_axum W m = Some m') [] downs (rl_down r)
    \<and> rl_state r = s \<and> rl_end r \<noteq> Some Panicked
    \<and> (rl_end r = Some (Closed (Inr ())) \<longrightarrow>
         drained (rl_up r) \<or> drained (rl_down r) \<or> (\<exists>b ms. pm_in (rl_down r) = Inr (TsFrame b) # ms))"
proof -
  note inv = passthrough.sound_run[OF TrueI assms, unfolded passthrough.sound_relay_def]
  have "rl_end r = Some (Closed (Inr ())) \<longrightarrow>
      drained (rl_up r) \<or> drained (rl_down r) \<or> (\<exists>b ms. pm_in (rl_down r) = Inr (TsFrame b) # ms)"
    by (intro impI relay_clean_end[OF assms])
      (auto simp: passthrough_up_def passthrough_down_def axum_never_stops dest: tungstenite_stops)
  with inv show ?thesis by simp
qed

text \<open>
  C21: A relay ends. No run of a connection is longer than two steps for every frame there is
  to relay, and one more; and it can go on exactly as long as neither direction has returned.
\<close>

theorem relay_ends:
  assumes "(relay_step up down ^^ n) (relay_start ups first downs s) r"
  shows "n \<le> 2 * (length ups + length downs) + 1 \<and> (rl_end r = None \<longleftrightarrow> (\<exists>r'. relay_step up down r r'))"
  using relay_run_length[OF assms] relay_progress[of r up down]
  by (simp add: relay_start_def relay_work_def pump_work_def pending_def split: if_splits)

definition demo_ws :: "(u16, unit) ws_lib" where
  "demo_ws = \<lparr>ws_code_from = id, ws_code_into = id, ws_client_request = (\<lambda>u. Inr []),
     ws_connect = (\<lambda>url hs u. (Inl (PlainError ''refused''), u)), ws_upstream_send = (\<lambda>m u. (Inr (), u)),
     ws_client_send = (\<lambda>m u. (Inr (), u))\<rparr>"

definition demo_relay :: "(u16, unit) relay" where
  "demo_relay = relay_start [Inr (WsText ''hi'')] [] [] ()"

definition demo_relay_end :: "(u16, unit) relay" where
  "demo_relay_end = \<lparr>rl_up = \<lparr>pm_in = [], pm_held = None, pm_out = [TsText ''hi'']\<rparr>,
     rl_down = \<lparr>pm_in = [], pm_held = None, pm_out = []\<rparr>, rl_state = (), rl_end = Some (Closed (Inr ()))\<rparr>"

lemma demo_relay_run: "(relay_step (passthrough_up demo_ws) (passthrough_down demo_ws) ^^ 3) demo_relay demo_relay_end"
proof -
  let ?step = "relay_step (passthrough_up demo_ws) (passthrough_down demo_ws)"
  let ?r1 = "demo_relay\<lparr>rl_up := \<lparr>pm_in = [], pm_held = Some (TsText ''hi''), pm_out = []\<rparr>\<rparr>"
  let ?r2 = "?r1\<lparr>rl_up := \<lparr>pm_in = [], pm_held = None, pm_out = [TsText ''hi'']\<rparr>\<rparr>"
  have "?step demo_relay ?r1"
    using relay_step.client[OF _ pump_step.receive[of "rl_up demo_relay" "WsText ''hi''" "[]"
        "passthrough_up demo_ws" "rl_state demo_relay" "TsText ''hi''" "()"], of "passthrough_down demo_ws"]
    by (simp add: demo_relay_def relay_start_def passthrough_up_def)
  moreover have "?step ?r1 ?r2"
    using relay_step.client[OF _ pump_step.send[of "rl_up ?r1" "TsText ''hi''" "passthrough_up demo_ws" "rl_state ?r1"], of "passthrough_down demo_ws"]
    by (simp add: demo_relay_def relay_start_def)
  moreover have "?step ?r2 demo_relay_end"
    using relay_step.client[OF _ pump_step.closed[of "rl_up ?r2" "passthrough_up demo_ws" "rl_state ?r2"], of "passthrough_down demo_ws"]
    by (simp add: demo_relay_def relay_start_def demo_relay_end_def)
  ultimately show ?thesis by (auto simp: numeral_3_eq_3)
qed

theorem passthrough_relay_delivers_witness:
  "delivered (\<lambda>m m'. axum_to_tungstenite demo_ws m = Some m') [] [Inr (WsText ''hi'')] (rl_up demo_relay_end)
   \<and> (drained (rl_up demo_relay_end) \<or> drained (rl_down demo_relay_end))"
proof -
  have "(relay_step (passthrough_up demo_ws) (passthrough_down demo_ws))\<^sup>*\<^sup>* demo_relay demo_relay_end"
    using demo_relay_run by (rule relpowp_imp_rtranclp)
  from passthrough_relay_delivers[OF this[unfolded demo_relay_def]] show ?thesis by (auto simp: demo_relay_end_def)
qed

theorem relay_ends_witness: "(3 :: nat) \<le> 2 * (1 + 0) + 1 \<and> rl_end demo_relay_end \<noteq> None"
  using relay_ends[OF demo_relay_run[unfolded demo_relay_def]] by (simp add: demo_relay_end_def)

section \<open>The relay of a Codex connection\<close>

definition entries_of :: "(sqlite_store, 'u) server \<Rightarrow> string \<rightharpoonup> string" where
  "entries_of sv = sqlite_entries (the_store (sv_world sv))"

definition store_le :: "(sqlite_store, 'u) server \<Rightarrow> (sqlite_store, 'u) server \<Rightarrow> bool" where
  "store_le sv sv' \<longleftrightarrow> entries_of sv \<subseteq>\<^sub>m entries_of sv'"

text \<open>The libraries behave as documented, and the store is consistent and content-addressed.\<close>

definition codex_ok :: "(sqlite_store, 'u) server_env \<Rightarrow> (sqlite_store, 'u) server \<Rightarrow> bool" where
  "codex_ok E sv \<longleftrightarrow> borrows_ok (ev_serde E) \<and> strings_print (ev_serde E)
     \<and> (\<forall>t. \<exists>now. ev_ops E t = sqlite_ops now)
     \<and> sqlite_sound (the_store (sv_world sv)) \<and> addressed (ev_sha256 E) (entries_of sv)"

text \<open>
  \<open>t'\<close> is the frame \<open>t\<close>, or what its \<open>response.create\<close> becomes when the body it carries is
  compressed; every hash that compression reported resolves in the state \<open>sv\<close>.
\<close>

definition codex_rewrite ::
    "(sqlite_store, 'u) server_env \<Rightarrow> header_map \<Rightarrow> (sqlite_store, 'u) server \<Rightarrow> string \<Rightarrow> string \<Rightarrow> bool" where
  "codex_rewrite E hs sv t t' \<longleftrightarrow> t' = t
     \<or> (\<exists>frame body now w w' mutation. sd_value (ev_serde E) t = Some frame \<and> is_response_create frame
          \<and> sd_to_vec (ev_serde E) (unwrap_or frame (json_get ''response'' frame)) = Some body
          \<and> compress_json_request_ctx (ev_serde E) (ev_sha256 E) (ev_md5 E) (sqlite_ops now) body OpenAiResponses
              (codex_ctx E hs) w = Some (mutation, w')
          \<and> rewrap_frame (ev_serde E) t frame (rc_body mutation) = Some t'
          \<and> (\<forall>h \<in> set (rc_hashes mutation). \<exists>x. entries_of sv h = Some x \<and> content_hash (ev_sha256 E) x = h))"

definition codex_rel ::
    "(sqlite_store, 'u) server_env \<Rightarrow> ('c, 'u) ws_lib \<Rightarrow> header_map \<Rightarrow> (sqlite_store, 'u) server
       \<Rightarrow> ws_frame \<Rightarrow> 'c ts_frame \<Rightarrow> bool" where
  "codex_rel E W hs sv m m' \<longleftrightarrow>
     (case m of WsText t \<Rightarrow> (\<exists>t'. m' = TsText t' \<and> codex_rewrite E hs sv t t')
      | _ \<Rightarrow> axum_to_tungstenite W m = Some m')"

lemma codex_rewrite_mono: "codex_rewrite E hs sv t t' \<Longrightarrow> store_le sv sv' \<Longrightarrow> codex_rewrite E hs sv' t t'"
  unfolding codex_rewrite_def store_le_def map_le_def by (metis domI)

lemma rewrap_returns: "rewrap_frame S t frame body \<noteq> None"
  by (cases frame) (auto simp: rewrap_frame_def split: option.splits)

lemma store_le_refl [simp]: "store_le sv sv" by (simp add: store_le_def)

lemma store_le_same: "the_store (sv_world sv') = the_store (sv_world sv) \<Longrightarrow> store_le sv sv'"
  by (simp add: store_le_def entries_of_def)

lemma codex_ok_same:
  "codex_ok E sv \<Longrightarrow> the_store (sv_world sv') = the_store (sv_world sv) \<Longrightarrow> codex_ok E sv'"
  by (simp add: codex_ok_def entries_of_def)

lemma compress_codex_body_ok:
  assumes "codex_ok E sv" "sd_value (ev_serde E) t = Some frame" "is_response_create frame"
    and "sd_to_vec (ev_serde E) (unwrap_or frame (json_get ''response'' frame)) = Some body"
  shows "\<exists>t' sv'. compress_codex_body E t hs frame body sv = Some (t', sv') \<and> codex_ok E sv' \<and> store_le sv sv'
    \<and> codex_rewrite E hs sv' t t'"
proof -
  obtain now where now: "ev_ops E (ev_wall E (sv_ticks sv)) = sqlite_ops now"
    using assms(1) by (auto simp: codex_ok_def)
  let ?run = "compress_json_request_ctx (ev_serde E) (ev_sha256 E) (ev_md5 E) (sqlite_ops now) body OpenAiResponses
    (codex_ctx E hs) (sv_world sv)"
  obtain mutation w' where run: "?run = Some (mutation, w')"
    using assms(1) compress_ctx_total[of "ev_serde E"] by (auto simp: codex_ok_def) blast
  let ?sv' = "on_stats (record_mutation_stats mutation) (sv\<lparr>sv_ticks := Suc (sv_ticks sv), sv_world := w'\<rparr>)"
  have kept: "sqlite.kept (ev_sha256 E) (sv_world sv) w' (rc_hashes mutation)"
    using assms(1) sqlite.request_kept[OF _ _ run] by (simp add: codex_ok_def entries_of_def)
  then have ok: "codex_ok E ?sv'" "store_le sv ?sv'"
    using assms(1) by (simp_all add: codex_ok_def store_le_def entries_of_def sqlite.kept_def on_stats_frame)
  have hashes: "\<forall>h \<in> set (rc_hashes mutation). \<exists>x. entries_of ?sv' h = Some x \<and> content_hash (ev_sha256 E) x = h"
    using kept by (auto simp: sqlite.kept_def addressed_def entries_of_def on_stats_frame)
  obtain t' where t': "rewrap_frame (ev_serde E) t frame (rc_body mutation) = Some t'"
    using rewrap_returns by blast
  let ?t = "if rc_body mutation = body then t else t'"
  have "compress_codex_body E t hs frame body sv = Some (?t, ?sv')"
    using now run t' by (simp add: compress_codex_body_def store_ops_def wall_now_def Let_def)
  moreover have "codex_rewrite E hs ?sv' t ?t"
  proof (cases "rc_body mutation = body")
    case False
    then show ?thesis using assms(2-4) run t' hashes unfolding codex_rewrite_def by (simp del: split_paired_Ex) blast
  qed (simp add: codex_rewrite_def)
  ultimately show ?thesis using ok by blast
qed

lemma maybe_compress_ok:
  assumes "codex_ok E sv"
  shows "\<exists>t' sv'. maybe_compress_codex_response_create_frame E t hs sv = Some (t', sv') \<and> codex_ok E sv'
    \<and> store_le sv sv' \<and> codex_rewrite E hs sv' t t'"
proof -
  have same: "codex_rewrite E hs sv' t t" for sv' by (simp add: codex_rewrite_def)
  have stats: "codex_ok E (on_stats f sv)" "store_le sv (on_stats f sv)" for f
    using assms by (simp_all add: codex_ok_same store_le_same on_stats_frame)
  show ?thesis
    using assms same stats compress_codex_body_ok[OF assms]
    by (simp add: maybe_compress_codex_response_create_frame_def split: option.splits)
qed

lemma prepare_ok:
  assumes "codex_ok E sv"
  shows "\<exists>m' f sv'. prepare_client_codex_ws_message E W hs m sv = Some (Some (m', f), sv') \<and> codex_ok E sv'
    \<and> store_le sv sv' \<and> codex_rel E W hs sv' m m'"
proof (cases m)
  case (WsText t)
  then show ?thesis
    using maybe_compress_ok[OF assms, of t hs] by (auto simp: prepare_client_codex_ws_message_def codex_rel_def)
next
  case (WsClose c)
  then show ?thesis
    using assms by (cases c) (auto simp: prepare_client_codex_ws_message_def codex_rel_def)
qed (use assms in \<open>auto simp: prepare_client_codex_ws_message_def codex_rel_def\<close>)

interpretation codex: relay_protocol "codex_up E W hs" "codex_rel E W hs"
  "codex_down E W" "\<lambda>s m m'. tungstenite_to_axum W m = Some m'" "codex_ok E" store_le
  for E :: "(sqlite_store, 'u) server_env" and W :: "('c, 'u) ws_lib" and hs
proof unfold_locales
  fix s s' :: "(sqlite_store, 'u) server" and m m' r
  show "store_le s s" by simp
  show "store_le s s' \<Longrightarrow> store_le s' s'' \<Longrightarrow> store_le s s''" for s'' unfolding store_le_def by (rule map_le_trans)
  assume ok: "codex_ok E s"
  from prepare_ok[OF this, of W hs m] obtain m1 f s1
    where p: "prepare_client_codex_ws_message E W hs m s = Some (Some (m1, f), s1)" "codex_ok E s1" "store_le s s1"
      "codex_rel E W hs s1 m m1" by blast
  show "codex_up E W hs m s \<noteq> None" using p by (simp add: codex_up_def)
  show "codex_up E W hs m s = Some (r, s') \<Longrightarrow> codex_ok E s' \<and> store_le s s'" using p by (auto simp: codex_up_def)
  show "codex_up E W hs m s = Some (Some m', s') \<Longrightarrow> codex_rel E W hs s' m m'" using p by (auto simp: codex_up_def)
next
  fix s s' :: "(sqlite_store, 'u) server" and m :: ws_frame and m' :: "'c ts_frame"
  assume "codex_rel E W hs s m m'" "store_le s s'"
  then show "codex_rel E W hs s' m m'" by (auto simp: codex_rel_def codex_rewrite_mono split: ws_frame.splits)
next
  fix s s' :: "(sqlite_store, 'u) server" and m :: "'c ts_frame" and r
  assume ok: "codex_ok E s"
  show "codex_down E W m s \<noteq> None" by (simp add: codex_down_def)
  show "codex_ok E s' \<and> store_le s s'" if "codex_down E W m s = Some (r, s')"
    using that ok by (auto simp: codex_down_def on_stats_frame split: ts_frame.splits intro: codex_ok_same store_le_same)
qed (auto simp: codex_down_def)


text \<open>
  C19: A Codex connection delivers, compressed, and retrievably. After the first frame, what
  goes upstream corresponds one by one and in order to the client's frames: any other than
  text unchanged, a text as it is or as the compression of the \<open>response.create\<close> it is, and
  every hash that compression reported resolves in the store from then on. What goes to the
  client is what came from the upstream. The store only grows, and nothing panics.
\<close>

theorem codex_relay_delivers:
  assumes "codex_ok E sv"
    and "(relay_step (codex_up E W hs) (codex_down E W))\<^sup>*\<^sup>* (relay_start ups [first] downs sv) r"
  shows "delivered (codex_rel E W hs (rl_state r)) [first] ups (rl_up r)
    \<and> delivered (\<lambda>m m'. tungstenite_to_axum W m = Some m') [] downs (rl_down r)
    \<and> store_le sv (rl_state r) \<and> rl_end r \<noteq> Some Panicked"
  using codex.sound_run[OF assms, unfolded codex.sound_relay_def] by simp

definition demo_codex :: "(u16, (sqlite_store, unit) server) relay" where
  "demo_codex = relay_start [Inr (WsText ''hi'')] [TsText ''first''] [] demo_server"

lemma codex_ok_demo: "codex_ok (demo_env no_upstream) demo_server"
proof -
  have "borrows_ok demo_printer"
    using borrows_ok_demo by (simp add: demo_printer_def borrows_ok_def)
  moreover have "strings_print demo_printer" by (simp add: demo_printer_def strings_print_def)
  ultimately show ?thesis
    using sqlite_sound_empty
    by (auto simp: codex_ok_def demo_env_def demo_server_def empty_world_def addressed_def entries_of_def
        sqlite_entries_def sqlite_in_memory_def)
qed

lemma demo_codex_step:
  "\<exists>r. relay_step (codex_up (demo_env no_upstream) demo_ws []) (codex_down (demo_env no_upstream) demo_ws) demo_codex r"
proof -
  let ?up = "codex_up (demo_env no_upstream) demo_ws []" and ?p = "rl_up demo_codex" and ?s = "rl_state demo_codex"
  have "?up (WsText ''hi'') ?s = Some (Some (TsText ''hi''), ?s)"
    by (simp add: codex_up_def prepare_client_codex_ws_message_def maybe_compress_codex_response_create_frame_def
        demo_env_def demo_printer_def demo_serde_def is_response_create_def get_str_def)
  then have "pump_step ?up (?p, ?s) (?p\<lparr>pm_in := [], pm_held := Some (TsText ''hi'')\<rparr>, ?s) None"
    by (rule pump_step.receive[rotated 2]) (simp_all add: demo_codex_def relay_start_def)
  then show ?thesis
    by (intro exI) (rule relay_step.client, simp_all add: demo_codex_def relay_start_def)
qed

theorem codex_relay_delivers_witness:
  "\<exists>r. relay_step (codex_up (demo_env no_upstream) demo_ws []) (codex_down (demo_env no_upstream) demo_ws) demo_codex r
     \<and> delivered (codex_rel (demo_env no_upstream) demo_ws [] (rl_state r)) [TsText ''first''] [Inr (WsText ''hi'')] (rl_up r)"
proof -
  obtain r where r: "relay_step (codex_up (demo_env no_upstream) demo_ws []) (codex_down (demo_env no_upstream) demo_ws) demo_codex r"
    using demo_codex_step by blast
  then have "(relay_step (codex_up (demo_env no_upstream) demo_ws []) (codex_down (demo_env no_upstream) demo_ws))\<^sup>*\<^sup>* demo_codex r"
    by blast
  from codex_relay_delivers[OF codex_ok_demo this[unfolded demo_codex_def]] r show ?thesis by blast
qed

end
