(* ===== verification/Codex_Safety.thy ===== *)
theory Codex_Safety
  imports Codex Chunk_Framing Proxy_Http_Safety
begin

text \<open>
  Properties of the Codex WebSocket path: which frames are rewritten and what a rewrite keeps,
  the handshake's headers, and the HTTP fallback - its request body, and the relay of an SSE
  response, which does not depend on how the stream is cut into chunks.
\<close>

section \<open>The lines of an SSE response\<close>

text \<open>The complete lines of a text, line feeds included.\<close>

definition full_lines :: "string \<Rightarrow> string list" where
  "full_lines s = map (\<lambda>l. l @ [LF]) (butlast (split_on (\<lambda>c. c = LF) s))"

lemma cut_line_None: "cut_line buf = None \<longleftrightarrow> LF \<notin> set buf"
proof -
  have "cut_line buf = None \<longleftrightarrow> dropWhile (\<lambda>c. c \<noteq> LF) buf = []" 
    by (cases "dropWhile (\<lambda>c. c \<noteq> LF) buf") (simp_all only: cut_line_def list.case option.distinct list.distinct simp_thms)
  then show ?thesis by (auto simp: dropWhile_eq_Nil_conv)
qed

lemma cut_line_Some: "cut_line buf = Some (line, rest) \<longleftrightarrow> (\<exists>l. LF \<notin> set l \<and> line = l @ [LF] \<and> buf = l @ LF # rest)"
proof
  assume "cut_line buf = Some (line, rest)"
  then obtain c where d: "dropWhile (\<lambda>c. c \<noteq> LF) buf = c # rest" and line: "line = takeWhile (\<lambda>c. c \<noteq> LF) buf @ [c]"
    by (auto simp: cut_line_def split: list.splits)
  then have "c = LF" using hd_dropWhile[of "\<lambda>c. c \<noteq> LF" buf] by simp
  moreover have "buf = takeWhile (\<lambda>c. c \<noteq> LF) buf @ c # rest" using d by (metis takeWhile_dropWhile_id)
  moreover have "LF \<notin> set (takeWhile (\<lambda>c. c \<noteq> LF) buf)" by (metis (mono_tags) set_takeWhileD)
  ultimately show "\<exists>l. LF \<notin> set l \<and> line = l @ [LF] \<and> buf = l @ LF # rest" using line by blast
next
  assume "\<exists>l. LF \<notin> set l \<and> line = l @ [LF] \<and> buf = l @ LF # rest"
  then obtain l where "\<forall>c \<in> set l. c \<noteq> LF" "line = l @ [LF]" "buf = l @ LF # rest" by blast
  then show "cut_line buf = Some (line, rest)" by (simp add: cut_line_def)
qed

interpretation ws_lines: chunk_framer cut_line
  by unfold_locales (auto simp: cut_line_Some dest: cut_line_shrinks)

lemma drain_lines: "fst (drain cut_line s) = full_lines s"
proof (induction "length s" arbitrary: s rule: less_induct)
  case less
  show ?case
  proof (cases "cut_line s")
    case None
    then have "split_on (\<lambda>c. c = LF) s = [s]" by (intro split_on_no_sep) (auto simp: cut_line_None)
    then show ?thesis using None by (simp add: ws_lines.drain_None full_lines_def)
  next
    case (Some lr)
    then obtain l rest where l: "LF \<notin> set l" "s = l @ LF # rest" "cut_line s = Some (l @ [LF], rest)"
      by (cases lr) (auto simp: cut_line_Some)
    have "split_on (\<lambda>c. c = LF) s = split_on (\<lambda>c. c = LF) l @ split_on (\<lambda>c. c = LF) rest"
      unfolding l(2) by (rule split_on_append_sep) simp
    moreover have "split_on (\<lambda>c. c = LF) l = [l]" using l(1) by (intro split_on_no_sep) auto
    ultimately have "full_lines s = (l @ [LF]) # full_lines rest" by (simp add: full_lines_def)
    then show ?thesis using less[of rest] l by (simp add: ws_lines.drain_Some)
  qed
qed

section \<open>The relay of an SSE response\<close>

text \<open>One line after the other, until a send fails.\<close>

fun relay_all ::
    "('s, 'u) server_env \<Rightarrow> ('c, 'u) ws_lib \<Rightarrow> string list \<Rightarrow> ('s, 'u) server
       \<Rightarrow> (proxy_error + unit) \<times> ('s, 'u) server" where
  "relay_all E W [] sv = (Inr (), sv)"
| "relay_all E W (line # ls) sv =
     (case relay_line E W line sv of
        (Inl err, sv) \<Rightarrow> (Inl err, sv)
      | (Inr _, sv) \<Rightarrow> relay_all E W ls sv)"

lemma relay_all_append:
  "relay_all E W (ls @ ls') sv =
     (case relay_all E W ls sv of (Inl err, sv) \<Rightarrow> (Inl err, sv) | (Inr _, sv) \<Rightarrow> relay_all E W ls' sv)"
  by (induction ls arbitrary: sv) (auto split: prod.splits sum.splits)

lemma relay_buffer_drain:
  "relay_buffer E W buf sv =
     (case relay_all E W (fst (drain cut_line buf)) sv of
        (Inl err, sv) \<Rightarrow> (Inl err, sv) | (Inr _, sv) \<Rightarrow> (Inr (snd (drain cut_line buf)), sv))"
proof (induction "length buf" arbitrary: buf sv rule: less_induct)
  case less
  show ?case
  proof (cases "cut_line buf")
    case None
    then show ?thesis by (subst relay_buffer.simps) (simp add: ws_lines.drain_None)
  next
    case (Some lr)
    then obtain line rest where lr: "cut_line buf = Some (line, rest)" by (cases lr) auto
    have "length rest < length buf" using lr by (rule cut_line_shrinks)
    then show ?thesis using lr less[of rest]
      by (subst relay_buffer.simps) (auto simp: ws_lines.drain_Some split: prod.splits sum.splits)
  qed
qed

lemma relay_chunks_feed: "relay_chunks E W buf (map Inr cs) sv = relay_all E W (fst (feed cut_line buf cs)) sv"
  by (induction cs arbitrary: buf sv)
    (auto simp: relay_buffer_drain relay_all_append split_beta split: prod.splits sum.splits)

text \<open>
  C26: Relaying an SSE response over a WebSocket does what going through the complete lines of
  the whole response does, in order and until a send fails, however the response was cut into
  chunks; a last line without a line feed is not relayed.
\<close>

theorem sse_relay_refines:
  "relay_sse_response_over_websocket E W \<lparr>hp_status = st, hp_headers = hs, hp_chunks = map Inr cs\<rparr> sv
     = relay_all E W (full_lines (concat cs)) sv"
proof -
  have "cut_line [] = None" by (simp add: cut_line_None)
  then show ?thesis
    by (simp add: relay_sse_response_over_websocket_def relay_chunks_feed ws_lines.feed_concat drain_lines)
qed

section \<open>Which frames are rewritten\<close>

text \<open>
  Only a \<open>response.create\<close> frame is rewritten, and none when compression is off or the
  client asks to bypass it: any other text is forwarded as it is, and the store, the trackers
  and the batch contexts do not change.
\<close>

theorem codex_frame_untouched:
  assumes "map_option is_response_create (sd_value (ev_serde E) t) \<noteq> Some True
    \<or> \<not> ev_compression_enabled E \<or> \<not> allows_compression (ev_compression_mode E)
    \<or> compression_bypass_requested (ev_http E) hs"
  shows "\<exists>sv'. maybe_compress_codex_response_create_frame E t hs sv = Some (t, sv') \<and> shared sv' = shared sv"
  using assms by (auto simp: maybe_compress_codex_response_create_frame_def split: option.splits)

theorem codex_frame_untouched_witness:
  "\<exists>sv'. maybe_compress_codex_response_create_frame (demo_env no_upstream) ''null'' [] demo_server = Some (''null'', sv')"
  using codex_frame_untouched[of "demo_env no_upstream" "''null''" "[]" demo_server]
  by (auto simp: demo_env_def demo_printer_def demo_serde_def is_response_create_def get_str_def)

text \<open>
  Putting a compressed body back into a frame that wraps it changes nothing else: what is
  sent is the frame as it came, or the print of an object with the same fields, except that
  \<open>response\<close> is the compressed body, parsed.
\<close>

theorem rewrap_keeps_fields:
  assumes "json_get ''response'' frame \<noteq> None" "rewrap_frame S t frame body = Some t'"
  shows "t' = t \<or> (\<exists>frame' mutated. sd_to_vec S frame' = Some t' \<and> sd_value S body = Some mutated
    \<and> (\<forall>k. json_get k frame' = (if k = ''response'' then Some mutated else json_get k frame)))"
proof -
  obtain m where frame: "frame = JObject m" using assms(1) by (cases frame) auto
  show ?thesis
  proof (cases "sd_value S body")
    case None
    then show ?thesis using assms by (simp add: rewrap_frame_def del: not_None_eq)
  next
    case (Some mutated)
    let ?frame' = "JObject (obj_insert ''response'' mutated m)"
    have "t' = unwrap_or t (sd_to_vec S ?frame')"
      using assms Some frame by (simp add: rewrap_frame_def del: not_None_eq)
    then have "t' = t \<or> sd_to_vec S ?frame' = Some t'" by (cases "sd_to_vec S ?frame'") auto
    then show ?thesis using Some frame by (auto intro!: exI[of _ ?frame'])
  qed
qed

text \<open>A library that prints one object.\<close>

definition demo_object :: json where
  "demo_object = JObject [(''response'', JNull), (''type'', JString ''response.create'')]"

definition demo_frames :: serde where
  "demo_frames = demo_serde\<lparr>sd_value := (\<lambda>t. Some JNull),
     sd_to_vec := (\<lambda>v. if v = demo_object then Some ''obj'' else None)\<rparr>"

theorem rewrap_keeps_fields_witness:
  "\<exists>frame'. sd_to_vec demo_frames frame' = Some ''obj''
     \<and> json_get ''type'' frame' = Some (JString ''response.create'') \<and> json_get ''response'' frame' = Some JNull"
proof -
  have "json_get ''response'' demo_object \<noteq> None" by (simp add: demo_object_def)
  moreover have "rewrap_frame demo_frames ''raw'' demo_object ''x'' = Some ''obj''"
    by (simp add: rewrap_frame_def demo_frames_def demo_object_def)
  ultimately have "\<exists>frame' mutated. sd_to_vec demo_frames frame' = Some ''obj'' \<and> sd_value demo_frames ''x'' = Some mutated
    \<and> (\<forall>k. json_get k frame' = (if k = ''response'' then Some mutated else json_get k demo_object))"
    using rewrap_keeps_fields[of demo_object demo_frames "''raw''" "''x''" "''obj''"] by simp
  then show ?thesis by (auto simp: demo_frames_def demo_object_def)
qed

section \<open>The handshake's headers\<close>

lemma header_get_insert_header:
  "n \<noteq> m \<Longrightarrow> header_get n (insert_header H m v hs) = header_get n hs"
  by (simp add: insert_header_def split: option.splits)

lemma header_get_insert_opt: "n \<noteq> m \<Longrightarrow> header_get n (insert_opt H m v hs) = header_get n hs"
  by (simp add: insert_opt_def header_get_insert_header split: option.splits)

lemma copy_client_headers_snoc:
  "copy_client_headers (hs @ [(n, v)]) to_hs =
     (if should_skip_websocket_header n then copy_client_headers hs to_hs
      else header_insert n v (copy_client_headers hs to_hs))"
  by (simp add: copy_client_headers_def)

lemma header_get_copy_client:
  "header_get name (copy_client_headers hs to_hs) =
     (if should_skip_websocket_header name \<or> header_get_all name hs = [] then header_get name to_hs
      else Some (last (header_get_all name hs)))"
proof (induction hs rule: rev_induct)
  case Nil
  then show ?case by (simp add: copy_client_headers_def header_get_all_def)
next
  case (snoc h hs)
  obtain n v where h: "h = (n, v)" by (cases h)
  have "header_get_all name (hs @ [(n, v)]) = header_get_all name hs @ (if n = name then [v] else [])"
    by (simp add: header_get_all_def)
  then show ?case using snoc by (auto simp: h copy_client_headers_snoc)
qed

text \<open>The headers the proxy writes itself.\<close>

definition proxy_names :: "string list" where
  "proxy_names = [''x-request-id'', ''x-forwarded-proto'', ''x-forwarded-host'', ''x-forwarded-for'', ''chatgpt-account-id'']"

text \<open>
  What the upstream of a WebSocket is told. Under a name the proxy does not write itself
  it gets, if the name is dropped or the client sent none, what the handshake had, and
  otherwise the last of the client's values - only the last.
\<close>

theorem websocket_headers_from_client:
  assumes "copy_websocket_headers E hs to_hs client_ip sv = (to_hs', sv')" "name \<notin> set proxy_names"
  shows "header_get name to_hs' =
    (if should_skip_websocket_header name \<or> header_get_all name hs = [] then header_get name to_hs
     else Some (last (header_get_all name hs)))"
proof -
  obtain rid sv1 where rid: "request_id_for E hs sv = (rid, sv1)" by fastforce
  let ?host = "\<lambda>to_hs. case header_get ''host'' hs of
      Some host \<Rightarrow> header_insert ''x-forwarded-host'' host to_hs | None \<Rightarrow> to_hs"
  have host: "header_get name (?host to) = header_get name to" for to
    using assms(2) by (simp add: proxy_names_def split: option.splits)
  have "to_hs' = copy_client_headers hs
      (insert_opt (ev_http E) ''chatgpt-account-id'' (chatgpt_account_id_from_authorization (ev_http E) (ev_serde E) hs)
        (insert_opt (ev_http E) ''x-forwarded-for'' (forwarded_for (ev_http E) hs client_ip)
          (?host (header_insert ''x-forwarded-proto'' ''http'' (insert_header (ev_http E) ''x-request-id'' rid to_hs)))))"
    using assms(1) rid by (auto simp: copy_websocket_headers_def Let_def)
  then show ?thesis
    using assms(2) by (simp add: header_get_copy_client header_get_insert_opt header_get_insert_header host proxy_names_def)
qed

theorem websocket_headers_from_client_witness:
  "header_get ''cookie'' (fst (copy_websocket_headers (demo_env no_upstream)
     [(''cookie'', ''a''), (''cookie'', ''b'')] [] None demo_server)) = Some ''b''"
proof -
  let ?hs = "[(''cookie'', ''a''), (''cookie'', ''b'')]"
  obtain to_hs' sv' where run: "copy_websocket_headers (demo_env no_upstream) ?hs [] None demo_server = (to_hs', sv')"
    by fastforce
  have "\<not> should_skip_websocket_header ''cookie''" "''cookie'' \<notin> set proxy_names"
    by (code_simp, simp add: proxy_names_def)
  with websocket_headers_from_client[OF run, of "''cookie''"] run show ?thesis by (simp add: header_get_all_def)
qed

section \<open>The body of the fallback\<close>

text \<open>
  The HTTP fallback posts the response a \<open>response.create\<close> frame asks for: the print of the
  frame's \<open>response\<close>, or of the frame itself, without \<open>type\<close>, with \<open>stream\<close> set, and with
  every other field; for any other frame there is no fallback.
\<close>

theorem fallback_body_fields:
  assumes "codex_ws_http_fallback_body S t = Some body" "sd_value S t = Some frame"
    and "unwrap_or frame (json_get ''response'' frame) = JObject m"
  shows "is_response_create frame \<and> (\<exists>v. sd_to_vec S v = Some body
    \<and> (\<forall>k. json_get k v = (if k = ''stream'' then Some (JBool True) else if k = ''type'' then None
                      else json_get k (unwrap_or frame (json_get ''response'' frame)))))"
proof -
  let ?v = "JObject (obj_insert ''stream'' (JBool True) (obj_remove ''type'' m))"
  have "is_response_create frame" "sd_to_vec S ?v = Some body"
    using assms by (auto simp: codex_ws_http_fallback_body_def streaming_body_def split: if_splits)
  then show ?thesis using assms(3) by (auto intro!: exI[of _ ?v])
qed

end
