(* ===== verification/Batch_Safety.thy ===== *)
theory Batch_Safety
  imports Proxy_Effects
begin

text \<open>
  Properties of batch-result processing: line by line, only a result that asks for a
  retrieval is rewritten, and where the continuations of a batch go.
\<close>

section \<open>The lines of a result file\<close>

text \<open>What may be written for a line: itself, or its result with the message a continuation ended with.\<close>

definition line_written :: "serde \<Rightarrow> (string \<times> json) list \<Rightarrow> string \<Rightarrow> string \<Rightarrow> bool" where
  "line_written S contexts line written \<longleftrightarrow> written = line
     \<or> (\<exists>result message params final. batch_line_task S contexts line = Some (result, message, params)
          \<and> sd_to_vec S (set_result_message result final) = Some written)"

definition nonblank :: "string \<Rightarrow> bool" where
  "nonblank line \<longleftrightarrow> trim line \<noteq> []"

lemma batch_result_line_written:
  assumes "batch_result_line E url hs ip contexts line sv = Some (Inr (written, processed), sv')"
  shows "line_written (ev_serde E) contexts line written \<and> (\<not> processed \<longrightarrow> written = line)"
  using assms
  by (auto simp: batch_result_line_def line_written_def Let_def split: option.splits prod.splits if_splits)

lemma batch_result_lines_written:
  assumes "batch_result_lines E url hs ip contexts ls done_lines any_before sv = Some (Inr (out_lines, any), sv')"
  shows "\<exists>written. out_lines = done_lines @ written
    \<and> list_all2 (line_written (ev_serde E) contexts) (filter nonblank ls) written
    \<and> (any_before \<longrightarrow> any) \<and> (\<not> any \<longrightarrow> written = filter nonblank ls)"
  using assms
proof (induction ls arbitrary: done_lines any_before sv)
  case (Cons line ls)
  show ?case
  proof (cases "trim line = []")
    case True
    then show ?thesis using Cons by (simp add: nonblank_def)
  next
    case False
    then obtain w p sv1 where line: "batch_result_line E url hs ip contexts line sv = Some (Inr (w, p), sv1)"
      and rest: "batch_result_lines E url hs ip contexts ls (done_lines @ [w]) (any_before \<or> p) sv1 = Some (Inr (out_lines, any), sv')"
      using Cons.prems by (auto split: option.splits prod.splits sum.splits)
    obtain written where "out_lines = (done_lines @ [w]) @ written"
      "list_all2 (line_written (ev_serde E) contexts) (filter nonblank ls) written"
      "any_before \<or> p \<longrightarrow> any" "\<not> any \<longrightarrow> written = filter nonblank ls"
      using Cons.IH[OF rest] by blast
    moreover have "nonblank line" using False by (simp add: nonblank_def)
    ultimately show ?thesis
      using batch_result_line_written[OF line] by (intro exI[of _ "w # written"]) auto
  qed
qed simp

text \<open>
  C39: Batch results. Every line that is not blank gives one line, in the same order: the line
  itself, unless it is a result whose message calls the retrieve tool and whose request is
  known, when it may be that result with nothing but its message replaced. If no line was
  processed, they are all the lines as they came.
\<close>

theorem batch_lines_written:
  assumes "batch_result_lines E url hs ip contexts ls [] False sv = Some (Inr (out_lines, processed), sv')"
  shows "list_all2 (line_written (ev_serde E) contexts) (filter nonblank ls) out_lines
    \<and> (\<not> processed \<longrightarrow> out_lines = filter nonblank ls)"
  using batch_result_lines_written[OF assms] by auto

theorem batch_lines_written_witness:
  "fst (the (batch_result_lines (demo_env no_upstream) ''u'' [] None [] [''x'', [], ''y''] [] False demo_server))
     = Inr ([''x'', ''y''], False)"
proof -
  have blank: "trim [] = []" by (simp add: trim_def drop_while_end_def)
  have "is_ascii ''x''" "\<not> is_whitespace ''x''" "is_ascii ''y''" "\<not> is_whitespace ''y''"
    by (simp_all add: is_ascii_def is_whitespace_def byte_def Let_def)
  then have letters: "trim ''x'' = ''x''" "trim ''y'' = ''y''" by (simp_all add: trim_ascii)
  have "batch_line_task (ev_serde (demo_env no_upstream)) [] line = None" for line
    by (simp add: batch_line_task_def demo_env_def demo_printer_def demo_serde_def get_str_def)
  then have "batch_result_line (demo_env no_upstream) ''u'' [] None [] line sv = Some (Inr (line, False), sv)"
    for line and sv :: "(sqlite_store, unit) server"
    by (simp add: batch_result_line_def)
  then have run: "batch_result_lines (demo_env no_upstream) ''u'' [] None [] [''x'', [], ''y''] [] False demo_server
      = Some (Inr ([''x'', ''y''], False), demo_server)"
    by (simp add: letters blank)
  then show ?thesis using batch_lines_written[OF run] by simp
qed

section \<open>Where continuations go\<close>

text \<open>
  With an upstream configured under a base path, a request goes below that path, but the
  continuations of a batch's results do not.
\<close>

lemma batch_url_ignores_base_path:
  assumes "url_path (ev_url E) (ev_anthropic_upstream E) = ''/base''"
  shows "upstream_url E UpstreamAnthropic ''/v1/messages'' None
      = url_set_query (ev_url E) None (url_set_path (ev_url E) ''/base/v1/messages'' (ev_anthropic_upstream E))"
    and "batch_messages_url E = url_set_path (ev_url E) ''/v1/messages'' (ev_anthropic_upstream E)"
  using assms
  by (simp_all add: upstream_url_def apply_uri_path_and_query_def batch_messages_url_def drop_while_end_def)

end
