(* ===== verification/Json_Types.thy ===== *)
theory Json_Types
  imports Continuation_Safety Proxy_Http
begin

text \<open>
  The encoding of JSON values. A \<open>serde_json::Map\<close> is a \<open>BTreeMap\<close>, which in the model is an
  association list in strictly ascending key order, at every depth. In Rust nothing else
  exists; here it is an invariant of the lists, and this theory checks that the model's
  operations keep it, so that they never leave what a \<open>BTreeMap\<close> can be.
\<close>

fun json_wf :: "json \<Rightarrow> bool" where
  "json_wf (JArray xs) = list_all json_wf xs"
| "json_wf (JObject m) = (obj_wf m \<and> list_all (\<lambda>(k, v). json_wf v) m)"
| "json_wf _ = True"

definition fields_wf :: "(string \<times> json) list \<Rightarrow> bool" where
  "fields_wf m \<longleftrightarrow> obj_wf m \<and> list_all (\<lambda>(k, v). json_wf v) m"

lemma json_wf_object [simp]: "json_wf (JObject m) = fields_wf m"
  by (simp add: fields_wf_def)

declare json_wf.simps(2) [simp del]

named_theorems wf_intros \<open>operations that keep JSON values well-formed\<close>

lemma wf_get: "json_wf v \<Longrightarrow> json_get k v = Some x \<Longrightarrow> json_wf x"
  by (cases v) (auto simp: fields_wf_def list_all_iff dest: map_of_SomeD)

lemma wf_get_or [wf_intros]: "json_wf v \<Longrightarrow> json_wf d \<Longrightarrow> json_wf (unwrap_or d (json_get k v))"
  by (cases "json_get k v") (auto dest: wf_get)

lemma wf_array: "json_wf v \<Longrightarrow> get_array k v = Some xs \<Longrightarrow> list_all json_wf xs"
proof -
  assume v: "json_wf v" and "get_array k v = Some xs"
  then obtain x where x: "json_get k v = Some x" "as_array x = Some xs" by (auto simp: get_array_def bind_eq_Some_conv)
  then show "list_all json_wf xs" using wf_get[OF v x(1)] by (cases x) auto
qed

lemma obj_insert_set: "set (obj_insert k v m) \<subseteq> insert (k, v) (set m)"
  by (induction k v m rule: obj_insert.induct) auto

lemma fields_insert [wf_intros]: "fields_wf m \<Longrightarrow> json_wf v \<Longrightarrow> fields_wf (obj_insert k v m)"
  using obj_insert_set[of k v m] by (auto simp: fields_wf_def obj_wf_insert list_all_iff)

lemma fields_remove [wf_intros]: "fields_wf m \<Longrightarrow> fields_wf (obj_remove k m)"
  using obj_wf_remove[of m k] by (auto simp: fields_wf_def list_all_iff) (auto simp: obj_remove_def)

lemma wf_obj [wf_intros]: "list_all (\<lambda>(k, v). json_wf v) kvs \<Longrightarrow> json_wf (json_obj kvs)"
proof -
  have "fields_wf (fold (\<lambda>(k, v). obj_insert k v) kvs m)" if "list_all (\<lambda>(k, v). json_wf v) kvs" "fields_wf m" for m
    using that by (induction kvs arbitrary: m) (auto intro: wf_intros)
  moreover have "fields_wf []" by (simp add: fields_wf_def obj_wf_def)
  ultimately show "list_all (\<lambda>(k, v). json_wf v) kvs \<Longrightarrow> json_wf (json_obj kvs)" by (simp add: json_obj_def)
qed

lemma wf_set [wf_intros]: "json_wf v \<Longrightarrow> json_wf x \<Longrightarrow> json_wf (obj_set k x v)"
  by (cases v) (auto intro: wf_intros)

lemma wf_unset [wf_intros]: "json_wf v \<Longrightarrow> json_wf (obj_unset k v)"
  by (cases v) (auto intro: wf_intros)

lemma wf_json_set: "json_wf v \<Longrightarrow> json_wf x \<Longrightarrow> json_set k x v = Some w \<Longrightarrow> json_wf w"
  by (cases v) (auto simp: fields_wf_def[of "[_]"] obj_wf_def intro: wf_intros)

lemma wf_filter [wf_intros]: "list_all json_wf xs \<Longrightarrow> list_all json_wf (filter P xs)"
  by (auto simp: list_all_iff)

section \<open>The rounds of a continuation\<close>

lemma wf_strip_anthropic: "json_wf r \<Longrightarrow> strip_anthropic S r = Some r' \<Longrightarrow> json_wf r'"
  by (auto simp: strip_anthropic_def Let_def split: option.splits if_splits dest: wf_array intro!: wf_intros)

lemma wf_calls:
  assumes "json_wf c" "choice_tool_calls c = Some calls"
  shows "list_all json_wf calls"
proof -
  obtain m where m: "json_get ''message'' c = Some m" "json_get ''tool_calls'' m = Some (JArray calls)"
    using choice_tool_calls_message[OF assms(2)] by blast
  then have "json_wf (JArray calls)" using wf_get[OF wf_get[OF assms(1) m(1)] m(2)] by simp
  then show ?thesis by simp
qed

lemma wf_strip_choice: "json_wf c \<Longrightarrow> json_wf (fst (strip_choice S c))"
  by (auto simp: strip_choice_def Let_def split: option.splits
      intro!: wf_intros dest: wf_get wf_calls)

lemma wf_strip_openai:
  assumes "json_wf r" "strip_openai S r = Some r'"
  shows "json_wf r'"
proof -
  obtain choices where c: "get_array ''choices'' r = Some choices"
    "r' = obj_set ''choices'' (JArray (map (fst \<circ> strip_choice S) choices)) r"
    using assms(2) by (auto simp: strip_openai_def Let_def split: option.splits if_splits)
  have "list_all json_wf choices" by (rule wf_array[OF assms(1) c(1)])
  then have "json_wf (JArray (map (fst \<circ> strip_choice S) choices))" by (auto simp: list_all_iff wf_strip_choice)
  then show ?thesis using c(2) assms(1) by (auto intro: wf_intros)
qed

lemma wf_strip_current: "json_wf (fst cur) \<Longrightarrow> json_wf (fst (strip_current S p cur))"
  by (cases cur; cases p)
    (auto simp: strip_current_def split: option.splits dest: wf_strip_anthropic wf_strip_openai)

lemma wf_assistant: "json_wf r \<Longrightarrow> json_wf (extract_assistant_message p r)"
proof (cases p)
  case CcrAnthropic
  assume "json_wf r"
  then show ?thesis using CcrAnthropic by (auto intro!: wf_intros)
next
  case CcrOpenAi
  assume r: "json_wf r"
  define message where "message = unwrap_or (JObject []) (Option.bind (Option.bind (get_array ''choices'' r)
      (\<lambda>cs. case cs of c # _ \<Rightarrow> Some c | [] \<Rightarrow> None)) (json_get ''message''))"
  have empty: "json_wf (JObject [])" by (simp add: fields_wf_def obj_wf_def)
  have "json_wf message"
  proof (cases "get_array ''choices'' r")
    case None
    then show ?thesis using empty by (simp add: message_def)
  next
    case (Some cs)
    then have "list_all json_wf cs" by (rule wf_array[OF r])
    then show ?thesis using Some empty by (cases cs) (auto simp: message_def intro: wf_intros)
  qed
  moreover have "extract_assistant_message p r =
      (let assistant = json_obj [(''role'', JString ''assistant''), (''content'', unwrap_or JNull (json_get ''content'' message))]
       in case json_get ''tool_calls'' message of
            Some tool_calls \<Rightarrow> obj_set ''tool_calls'' tool_calls assistant | None \<Rightarrow> assistant)"
    unfolding CcrOpenAi extract_assistant_message.simps Let_def message_def ..
  ultimately show ?thesis
    by (auto simp: Let_def split: option.splits intro!: wf_intros dest: wf_get)
qed

lemma wf_tool_result: "json_wf (format_tool_result S call label data)"
  by (auto simp: format_tool_result_def Let_def intro!: wf_intros)

text \<open>The parser of the library gives well-formed values.\<close>

definition parses_wf :: "serde \<Rightarrow> bool" where
  "parses_wf S \<longleftrightarrow> (\<forall>t v. sd_value S t = Some v \<longrightarrow> json_wf v)"

lemma wf_next_messages:
  assumes "json_wf current" "list_all json_wf ms" "next_messages E p ms current sv = (ms', sv')"
  shows "list_all json_wf ms'"
proof -
  obtain ops sv1 where ops: "store_ops E (on_stats (record_ccr_continuation_retrievals
      (of_nat (length (extract_ccr_tool_calls (ev_serde E) p current)))) sv) = (ops, sv1)" by fastforce
  obtain answers w where ans: "answer_calls E ops p (extract_ccr_tool_calls (ev_serde E) p current) (sv_world sv1) = (answers, w)"
    by fastforce
  have "list_all json_wf answers"
    using conjunct2[OF answer_calls_map[OF ans refl]] by (auto simp: list_all_iff wf_tool_result)
  then have "list_all json_wf (answer_messages p answers)"
    by (cases p) (auto intro!: wf_intros)
  moreover have "ms' = ms @ [extract_assistant_message p current] @ answer_messages p answers"
    using assms(3) ops ans by (simp add: next_messages_def)
  ultimately show ?thesis using assms(1,2) wf_assistant by (simp add: list_all_append)
qed

lemma wf_send: "parses_wf (ev_serde E) \<Longrightarrow> send_ccr_continuation E b url hs ip sv = (Inr v, sv') \<Longrightarrow> json_wf v"
  by (auto simp: send_ccr_continuation_def parses_wf_def split: option.splits prod.splits sum.splits if_splits)

lemma wf_rounds:
  assumes "parses_wf (ev_serde E)" "json_wf (fst cur)" "ccr_rounds n E body url hs ip p ms cur sv = Some (cur', sv')"
  shows "json_wf (fst cur')"
  using assms(2,3)
proof (induction n arbitrary: ms cur sv)
  case (Suc n)
  show ?case
  proof (cases rule: ccr_round_cases[of E p cur n body url hs ip ms sv])
    case blocked
    then show ?thesis using Suc.prems wf_strip_current[of cur] by auto
  next
    case (continued ms1 sv1 b v sv2)
    then show ?thesis using Suc.IH[of "(v, True)"] Suc.prems wf_send[OF assms(1) continued(3)] by simp
  qed (use Suc.prems in auto)
qed simp

text \<open>
  The continuation stays within what the encoding stands for. If the parser gives well-formed values, a
  continuation of a well-formed response ends with a well-formed response, and the messages
  of every round, those of a well-formed conversation extended, are well-formed, as is the
  body they are put into.
\<close>

theorem continuation_well_formed:
  assumes "parses_wf (ev_serde E)" "json_wf initial"
    and "run_ccr_continuation E body initial url hs ip p sv = Some ((final, changed), sv')"
    and "list_all json_wf ms" "next_messages E p ms final sv' = (ms', sv1)"
    and "json_wf body" "json_set ''messages'' (JArray ms') body = Some next_body"
  shows "json_wf final \<and> list_all json_wf ms' \<and> json_wf next_body"
proof -
  obtain cur where cur: "ccr_rounds MAX_CCR_CONTINUATION_ROUNDS E body url hs ip p
      (unwrap_or [] (get_array ''messages'' body)) (initial, False) sv = Some (cur, sv')"
    and final: "(final, changed) = strip_current (ev_serde E) p cur"
    using assms(3) by (auto simp: run_ccr_continuation_def Let_def split: option.splits)
  have "json_wf (fst cur)" using wf_rounds[OF assms(1) _ cur] assms(2) by simp
  then have "json_wf final" using wf_strip_current[of cur "ev_serde E" p] by (simp flip: final)
  moreover from this assms(4,5) have "list_all json_wf ms'" by (rule wf_next_messages)
  ultimately show ?thesis using wf_json_set[OF assms(6) _ assms(7)] by simp
qed

theorem continuation_well_formed_witness:
  "\<exists>final changed sv'.
     run_ccr_continuation (demo_env no_upstream) (JObject []) demo_response ''u'' [] None CcrAnthropic demo_server
       = Some ((final, changed), sv') \<and> json_wf final"
proof -
  obtain final changed sv' where run:
    "run_ccr_continuation (demo_env no_upstream) (JObject []) demo_response ''u'' [] None CcrAnthropic demo_server
       = Some ((final, changed), sv')"
    using run_ccr_continuation_total[OF demo_object] by blast
  obtain ms' sv1 where ms: "next_messages (demo_env no_upstream) CcrAnthropic [] final sv' = (ms', sv1)" by fastforce
  have parser: "parses_wf (ev_serde (demo_env no_upstream))"
    by (simp add: parses_wf_def demo_env_def demo_printer_def demo_serde_def)
  have "json_wf (JObject [])" by (simp add: fields_wf_def obj_wf_def)
  moreover have "json_wf demo_response" by (auto simp: demo_response_def demo_call_def intro!: wf_intros)
  ultimately show ?thesis
    using continuation_well_formed[OF parser _ run _ ms] run by auto
qed

end
