(* ===== verification/Endpoints.thy ===== *)
theory Endpoints
  imports Server
begin

text \<open>
  The proxy's own endpoints in \<open>src/proxy.rs\<close> that report health, counters and metrics, and
  the JSON form of the counters that \<open>src/stats.rs\<close> derives.
\<close>

section \<open>Health\<close>

record upstream_health =
  uh_ok :: bool
  uh_status :: "nat option"
  uh_error :: "string option"

definition opt_json :: "('a \<Rightarrow> json) \<Rightarrow> 'a option \<Rightarrow> json" where
  "opt_json f x = (case x of Some v \<Rightarrow> f v | None \<Rightarrow> JNull)"

definition upstream_health_json :: "upstream_health \<Rightarrow> json" where
  "upstream_health_json h = json_obj [(''ok'', JBool (uh_ok h)), (''status'', opt_json json_nat (uh_status h)),
     (''error'', opt_json JString (uh_error h))]"

definition probe_upstream ::
    "('s, 'u) server_env \<Rightarrow> upstream_provider \<Rightarrow> ('s, 'u) server \<Rightarrow> upstream_health \<times> ('s, 'u) server" where
  "probe_upstream E provider sv =
     (let upstream = (case provider of UpstreamOpenAi \<Rightarrow> ev_openai_upstream E | UpstreamAnthropic \<Rightarrow> ev_anthropic_upstream E);
          url = url_set_query (ev_url E) None (url_set_path (ev_url E) ''/healthz'' upstream)
      in case send_request E \<lparr>hq_method = ''GET'', hq_url = url, hq_headers = [], hq_chunks = []\<rparr> sv of
           (Inr reply, sv) \<Rightarrow>
             (\<lparr>uh_ok = (200 \<le> hp_status reply \<and> hp_status reply < 300), uh_status = Some (hp_status reply),
               uh_error = None\<rparr>, sv)
         | (Inl err, sv) \<Rightarrow> (\<lparr>uh_ok = False, uh_status = None, uh_error = Some (error_text err)\<rparr>, sv))"

definition probe_both ::
    "('s, 'u) server_env \<Rightarrow> ('s, 'u) server \<Rightarrow> (upstream_health \<times> upstream_health) \<times> ('s, 'u) server" where
  "probe_both E sv =
     (let (openai, sv) = probe_upstream E UpstreamOpenAi sv; (anthropic, sv) = probe_upstream E UpstreamAnthropic sv
      in ((openai, anthropic), sv))"

definition ready_status :: "bool \<Rightarrow> nat" where
  "ready_status ready = (if ready then 200 else 503)"

definition readyz_handler :: "('s, 'u) server_env \<Rightarrow> ('s, 'u) server \<Rightarrow> client_response \<times> ('s, 'u) server" where
  "readyz_handler E sv =
     (let ((openai, anthropic), sv) = probe_both E sv; ready = (uh_ok openai \<and> uh_ok anthropic)
      in (json_response E (ready_status ready)
            (json_obj [(''service'', JString ''hr-proxy''), (''ready'', JBool ready),
               (''openai'', upstream_health_json openai), (''anthropic'', upstream_health_json anthropic)]), sv))"

definition healthz_upstream_handler ::
    "('s, 'u) server_env \<Rightarrow> ('s, 'u) server \<Rightarrow> client_response \<times> ('s, 'u) server" where
  "healthz_upstream_handler E sv =
     (let ((openai, anthropic), sv) = probe_both E sv; ok = (uh_ok openai \<and> uh_ok anthropic)
      in (json_response E (ready_status ok)
            (json_obj [(''ok'', JBool ok), (''openai'', upstream_health_json openai),
               (''anthropic'', upstream_health_json anthropic)]), sv))"

definition healthz_handler :: "('s, 'u) server_env \<Rightarrow> client_response" where
  "healthz_handler E = json_response E 200 (json_obj [(''ok'', JBool True), (''service'', JString ''hr-proxy'')])"

definition livez_handler :: "('s, 'u) server_env \<Rightarrow> client_response" where
  "livez_handler E = json_response E 200 (json_obj [(''service'', JString ''hr-proxy''),
     (''status'', JString ''healthy''), (''alive'', JBool True)])"

section \<open>The counters as JSON\<close>

definition json_u64 :: "u64 \<Rightarrow> json" where
  "json_u64 n = JNumber (PosInt n)"

definition json_i64 :: "i64 \<Rightarrow> json" where
  "json_i64 i = JNumber (if 0 \<le> i then PosInt (of_int i) else NegInt i)"

text \<open>The entries of a \<open>BTreeMap\<close>, in key order.\<close>

definition map_entries :: "(string \<rightharpoonup> 'a) \<Rightarrow> (string \<times> 'a) list" where
  "map_entries m = map (\<lambda>k. (k, the (m k))) (sorted_list_of_set (dom m))"

definition map_json :: "('a \<Rightarrow> json) \<Rightarrow> (string \<rightharpoonup> 'a) \<Rightarrow> json" where
  "map_json f m = JObject (map (\<lambda>(k, v). (k, f v)) (map_entries m))"

definition hit_rate_json :: "cache_hit_rate_stats \<Rightarrow> json" where
  "hit_rate_json e = json_obj [(''count'', json_u64 (hit_count e)), (''sum'', JNumber (Float (hit_sum e)))]"

definition rate_limit_json :: "rate_limit_snapshot \<Rightarrow> json" where
  "rate_limit_json r = json_obj [
     (''remaining_requests'', opt_json json_i64 (remaining_requests r)),
     (''remaining_tokens'', opt_json json_i64 (remaining_tokens r)),
     (''remaining_input_tokens'', opt_json json_i64 (remaining_input_tokens r)),
     (''remaining_output_tokens'', opt_json json_i64 (remaining_output_tokens r))]"

definition snapshot_json :: "stats_snapshot \<Rightarrow> json" where
  "snapshot_json snap =
     (let s = snap_counters snap in json_obj [
        (''total_requests'', json_u64 (total_requests s)),
        (''compressed_requests'', json_u64 (compressed_requests s)),
        (''skipped_requests'', map_json json_u64 (skipped_requests s)),
        (''bytes_before'', json_u64 (bytes_before s)), (''bytes_after'', json_u64 (bytes_after s)),
        (''tokens_before'', json_u64 (tokens_before s)), (''tokens_after'', json_u64 (tokens_after s)),
        (''savings_ratio'', JNumber (Float (savings_ratio snap))),
        (''ccr_entry_count'', json_u64 (ccr_entry_count s)),
        (''decompress_hits'', json_u64 (decompress_hits s)),
        (''decompress_misses'', json_u64 (decompress_misses s)),
        (''websocket_sessions'', json_u64 (websocket_sessions s)),
        (''active_websocket_sessions'', json_u64 (active_websocket_sessions s)),
        (''sse_streams'', json_u64 (sse_streams s)),
        (''sse_input_tokens'', json_u64 (sse_input_tokens s)),
        (''sse_output_tokens'', json_u64 (sse_output_tokens s)),
        (''sse_cache_read_input_tokens'', json_u64 (sse_cache_read_input_tokens s)),
        (''sse_cache_creation_input_tokens'', json_u64 (sse_cache_creation_input_tokens s)),
        (''sse_cache_hit_rates'', map_json hit_rate_json (sse_cache_hit_rates s)),
        (''ccr_continuation_rounds'', json_u64 (ccr_continuation_rounds s)),
        (''ccr_continuation_retrievals'', json_u64 (ccr_continuation_retrievals s)),
        (''ccr_stream_tool_calls'', json_u64 (ccr_stream_tool_calls s)),
        (''ccr_batch_results_processed'', json_u64 (ccr_batch_results_processed s)),
        (''sse_inferred_cache_write_tokens'', json_u64 (sse_inferred_cache_write_tokens s)),
        (''service_tier_counts'', map_json json_u64 (service_tier_counts s)),
        (''response_status_counts'', map_json json_u64 (response_status_counts s)),
        (''rate_limit_remaining'', map_json rate_limit_json (rate_limit_remaining s))])"

text \<open>The snapshot of a report: the entry count is read from the store, 0 if that fails.\<close>

definition report_snapshot ::
    "('s, 'u) server_env \<Rightarrow> ('s, 'u) server \<Rightarrow> stats_snapshot \<times> ('s, 'u) server" where
  "report_snapshot E sv =
     (let n = (case count_op (ev_ops E 0) (the_store (sv_world sv)) of Inr n \<Rightarrow> n | Inl _ \<Rightarrow> 0);
          (snap, s) = stats_with_ccr_entry_count n (the_stats (sv_world sv))
      in (snap, sv\<lparr>sv_world := (sv_world sv)\<lparr>the_stats := s\<rparr>\<rparr>))"

definition health_handler :: "('s, 'u) server_env \<Rightarrow> ('s, 'u) server \<Rightarrow> client_response \<times> ('s, 'u) server" where
  "health_handler E sv =
     (let (snap, sv) = report_snapshot E sv
      in (json_response E 200 (json_obj [(''service'', JString ''hr-proxy''), (''status'', JString ''healthy''),
            (''ready'', JBool True), (''stats'', snapshot_json snap)]), sv))"

definition retrieve_stats_handler :: "('s, 'u) server_env \<Rightarrow> ('s, 'u) server \<Rightarrow> client_response \<times> ('s, 'u) server" where
  "retrieve_stats_handler E sv =
     (let (snap, sv) = report_snapshot E sv; s = snap_counters snap
      in (json_response E 200 (json_obj [
            (''store'', json_obj [(''entries'', json_u64 (ccr_entry_count s)),
               (''decompress_hits'', json_u64 (decompress_hits s)),
               (''decompress_misses'', json_u64 (decompress_misses s))]),
            (''recent_retrievals'', JArray [])]), sv))"

text \<open>
  \<open>axum::Json(snapshot)\<close>: \<open>print\<close> is the serialization derived for the snapshot, which has its
  fields in the order of their declaration; if it fails, the error is the answer.
\<close>

definition stats_handler ::
    "('s, 'u) server_env \<Rightarrow> (stats_snapshot \<Rightarrow> hr_error + string) \<Rightarrow> ('s, 'u) server
       \<Rightarrow> client_response \<times> ('s, 'u) server" where
  "stats_handler E print sv =
     (let (snap, sv) = report_snapshot E sv
      in (case print snap of
            Inr body \<Rightarrow> \<lparr>rs_status = 200, rs_headers = [(''content-type'', ''application/json'')], rs_chunks = [Inr body]\<rparr>
          | Inl err \<Rightarrow> error_response 500 err, sv))"

section \<open>Metrics\<close>

definition dec_u64 :: "u64 \<Rightarrow> string" where
  "dec_u64 n = dec (unat n)"

definition dec_i64 :: "i64 \<Rightarrow> string" where
  "dec_i64 i = (if 0 \<le> i then dec (nat i) else CHR ''-'' # dec (nat (- i)))"

text \<open>A metric with its type, and one with a label.\<close>

definition metric :: "string \<Rightarrow> string \<Rightarrow> u64 \<Rightarrow> string" where
  "metric kind name n = ''# TYPE '' @ name @ '' '' @ kind @ [LF] @ name @ '' '' @ dec_u64 n @ [LF]"

definition labelled :: "string \<Rightarrow> string \<Rightarrow> string \<Rightarrow> string \<Rightarrow> string" where
  "labelled name label key v = name @ ''{'' @ label @ ''='' @ [CHR 0x22] @ key @ [CHR 0x22] @ ''} '' @ v @ [LF]"

text \<open>\<open>sum\<close> of \<open>u64\<close>s, which wraps in a release build.\<close>

definition skipped_total :: "stats \<Rightarrow> u64" where
  "skipped_total s = sum_list (map snd (map_entries (skipped_requests s)))"

definition metric_counters :: "stats \<Rightarrow> string" where
  "metric_counters s =
     metric ''counter'' ''hr_total_requests'' (total_requests s)
     @ metric ''counter'' ''hr_compressed_requests'' (compressed_requests s)
     @ metric ''counter'' ''hr_skipped_requests'' (skipped_total s)
     @ metric ''counter'' ''hr_bytes_before'' (bytes_before s)
     @ metric ''counter'' ''hr_bytes_after'' (bytes_after s)
     @ metric ''counter'' ''hr_tokens_before'' (tokens_before s)
     @ metric ''counter'' ''hr_tokens_after'' (tokens_after s)
     @ metric ''gauge'' ''hr_ccr_entry_count'' (ccr_entry_count s)
     @ metric ''counter'' ''hr_decompress_hits'' (decompress_hits s)
     @ metric ''counter'' ''hr_decompress_misses'' (decompress_misses s)
     @ metric ''counter'' ''hr_websocket_sessions'' (websocket_sessions s)
     @ metric ''counter'' ''hr_sse_streams'' (sse_streams s)
     @ metric ''counter'' ''hr_sse_input_tokens'' (sse_input_tokens s)
     @ metric ''counter'' ''hr_sse_output_tokens'' (sse_output_tokens s)
     @ metric ''counter'' ''hr_sse_cache_read_input_tokens'' (sse_cache_read_input_tokens s)
     @ metric ''counter'' ''hr_sse_cache_creation_input_tokens'' (sse_cache_creation_input_tokens s)
     @ metric ''counter'' ''hr_ccr_continuation_rounds'' (ccr_continuation_rounds s)
     @ metric ''counter'' ''hr_ccr_continuation_retrievals'' (ccr_continuation_retrievals s)
     @ metric ''counter'' ''hr_ccr_stream_tool_calls'' (ccr_stream_tool_calls s)
     @ metric ''counter'' ''hr_ccr_batch_results_processed'' (ccr_batch_results_processed s)
     @ metric ''counter'' ''hr_sse_inferred_cache_write_tokens'' (sse_inferred_cache_write_tokens s)"

definition hit_rate_lines :: "(rat \<Rightarrow> string) \<Rightarrow> string \<times> cache_hit_rate_stats \<Rightarrow> string" where
  "hit_rate_lines show_f64 = (\<lambda>(provider, e).
     ''# TYPE proxy_cache_hit_rate_per_session summary'' @ [LF]
     @ labelled ''proxy_cache_hit_rate_per_session_count'' ''provider'' provider (dec_u64 (hit_count e))
     @ labelled ''proxy_cache_hit_rate_per_session_sum'' ''provider'' provider (show_f64 (hit_sum e)))"

definition rate_limit_lines :: "string \<times> rate_limit_snapshot \<Rightarrow> string" where
  "rate_limit_lines = (\<lambda>(provider, gauges).
     concat (List.map_filter (\<lambda>(name, v). map_option (\<lambda>n. labelled name ''provider'' provider (dec_i64 n)) v)
       [(''proxy_rate_limit_remaining_requests'', remaining_requests gauges),
        (''proxy_rate_limit_remaining_tokens'', remaining_tokens gauges),
        (''proxy_rate_limit_remaining_input_tokens'', remaining_input_tokens gauges),
        (''proxy_rate_limit_remaining_output_tokens'', remaining_output_tokens gauges)]))"

definition counted_lines :: "string \<Rightarrow> string \<Rightarrow> (string \<rightharpoonup> u64) \<Rightarrow> string" where
  "counted_lines name label m = concat (map (\<lambda>(k, n). labelled name label k (dec_u64 n)) (map_entries m))"

definition metrics_text :: "(rat \<Rightarrow> string) \<Rightarrow> stats \<Rightarrow> string" where
  "metrics_text show_f64 s =
     metric_counters s
     @ counted_lines ''hr_skipped_requests_by_reason'' ''reason'' (skipped_requests s)
     @ concat (map (hit_rate_lines show_f64) (map_entries (sse_cache_hit_rates s)))
     @ counted_lines ''proxy_service_tier_count_total'' ''tier'' (service_tier_counts s)
     @ counted_lines ''proxy_response_status_count_total'' ''status'' (response_status_counts s)
     @ concat (map rate_limit_lines (map_entries (rate_limit_remaining s)))"

definition metrics_handler ::
    "('s, 'u) server_env \<Rightarrow> (rat \<Rightarrow> string) \<Rightarrow> ('s, 'u) server \<Rightarrow> client_response \<times> ('s, 'u) server" where
  "metrics_handler E show_f64 sv =
     (let (snap, sv) = report_snapshot E sv
      in (\<lparr>rs_status = 200, rs_headers = [(''content-type'', ''text/plain; version=0.0.4'')],
           rs_chunks = [Inr (metrics_text show_f64 (snap_counters snap))]\<rparr>, sv))"

section \<open>Properties\<close>

lemma report_frame: "report_snapshot E sv = (snap, sv') \<Longrightarrow> the_store (sv_world sv') = the_store (sv_world sv)"
  by (auto simp: report_snapshot_def stats_with_ccr_entry_count_def Let_def)

lemma rate_limit_lines_empty: "rate_limit_is_empty r \<Longrightarrow> rate_limit_lines (p, r) = []"
  by (simp add: rate_limit_is_empty_def rate_limit_lines_def List.map_filter_simps)

text \<open>A proxy is ready exactly when both upstreams answer their probe with success.\<close>

lemma readyz_status:
  assumes "\<And>v. sd_to_vec (ev_serde E) v \<noteq> None" "readyz_handler E sv = (r, sv')"
  shows "rs_status r = 200 \<longleftrightarrow> (\<forall>h \<in> (case fst (probe_both E sv) of (o1, a1) \<Rightarrow> {o1, a1}). uh_ok h)"
proof -
  obtain o1 a1 sv1 where p: "probe_both E sv = ((o1, a1), sv1)" by (metis prod.exhaust)
  define v where "v = json_obj [(''service'', JString ''hr-proxy''), (''ready'', JBool (uh_ok o1 \<and> uh_ok a1)),
     (''openai'', upstream_health_json o1), (''anthropic'', upstream_health_json a1)]"
  have "r = json_response E (ready_status (uh_ok o1 \<and> uh_ok a1)) v"
    using assms(2) p by (simp add: readyz_handler_def v_def Let_def)
  then show ?thesis
    using assms(1)[of v] p by (auto simp: json_response_def ready_status_def)
qed

end
