(* ===== verification/Process.thy ===== *)
theory Process
  imports Proxy_Http_Safety Endpoints Relay
begin

text \<open>
  The whole process of \<open>src/proxy.rs\<close>: everything it does to its shared state, as a step
  relation. A step is a handler, a spawned SSE parser, or one action of a WebSocket
  connection. The locale \<open>keeps_state\<close> states what an invariant of the store, the session
  trackers and the batch contexts must be kept by, and shows that every handler keeps it.
\<close>

section \<open>What keeps an invariant of the shared state\<close>

named_theorems keeps \<open>operations that keep the invariant\<close>

text \<open>
  The primitive changes: a \<open>put\<close> under the content hash, the tracker operations, and the
  operations on the list of batch contexts.
\<close>

locale keeps_state =
  fixes E :: "('s, 'u) server_env"
    and P :: "'s \<Rightarrow> bool" and Q :: "inner \<Rightarrow> bool" and R :: "batch_context_entry list \<Rightarrow> bool"
  assumes put_keeps: "P s \<Longrightarrow> P (snd (put_op (ev_ops E t) (content_hash (ev_sha256 E) x) x s))"
    and betas_keeps: "Q st \<Longrightarrow> sticky_betas p sid v st = (merged, st') \<Longrightarrow> Q st'"
    and floor_keeps: "Q st \<Longrightarrow> frozen_message_count t0 t1 p sid st = (n, st') \<Longrightarrow> Q st'"
    and update_keeps: "Q st \<Longrightarrow> Q (update_from_response t0 t1 p sid r w es st)"
    and record_keeps: "R b \<Longrightarrow> R (record_batch_context now i body b)"
    and lookup_keeps: "R b \<Longrightarrow> batch_context now i b = (c, b') \<Longrightarrow> R b'"
begin

definition inv :: "('s, 'u) server \<Rightarrow> bool" where
  "inv sv \<longleftrightarrow> P (the_store (sv_world sv)) \<and> Q (sv_trackers sv) \<and> R (sv_batches sv)"

lemma inv_other [simp]:
  "inv (on_stats f sv) = inv sv" "inv (sv\<lparr>sv_net := u\<rparr>) = inv sv" "inv (sv\<lparr>sv_tasks := ts\<rparr>) = inv sv"
  "inv (sv\<lparr>sv_ticks := n\<rparr>) = inv sv" "inv (sv\<lparr>sv_counter := c\<rparr>) = inv sv"
  by (simp_all add: inv_def on_stats_frame)

lemma inv_world: "inv sv \<Longrightarrow> P (the_store w) \<Longrightarrow> inv (sv\<lparr>sv_world := w\<rparr>)"
  by (simp add: inv_def)

lemma inv_same_store: "inv sv \<Longrightarrow> the_store w = the_store (sv_world sv) \<Longrightarrow> inv (sv\<lparr>sv_world := w\<rparr>)"
  by (simp add: inv_def)

lemma inv_trackers: "inv sv \<Longrightarrow> Q st \<Longrightarrow> inv (sv\<lparr>sv_trackers := st\<rparr>)"
  by (simp add: inv_def)

lemma inv_batches: "inv sv \<Longrightarrow> R b \<Longrightarrow> inv (sv\<lparr>sv_batches := b\<rparr>)"
  by (simp add: inv_def)

lemma invD: "inv sv \<Longrightarrow> P (the_store (sv_world sv))" "inv sv \<Longrightarrow> Q (sv_trackers sv)" "inv sv \<Longrightarrow> R (sv_batches sv)"
  by (simp_all add: inv_def)

text \<open>Clocks, ids, and requests to the upstreams.\<close>

lemma wall_now_keeps [keeps]: "wall_now E sv = (t, sv') \<Longrightarrow> inv sv \<Longrightarrow> inv sv'"
  by (auto simp: wall_now_def)

lemma instant_now_keeps [keeps]: "instant_now E sv = (t, sv') \<Longrightarrow> inv sv \<Longrightarrow> inv sv'"
  by (auto simp: instant_now_def)

lemma store_ops_keeps [keeps]: "store_ops E sv = (ops, sv') \<Longrightarrow> inv sv \<Longrightarrow> inv sv'"
  by (auto simp: store_ops_def split: prod.splits dest: keeps)

lemma store_ops_of: "store_ops E sv = (ops, sv') \<Longrightarrow> \<exists>t. ops = ev_ops E t"
  by (auto simp: store_ops_def split: prod.splits)

lemma request_id_keeps [keeps]: "request_id_for E hs sv = (rid, sv') \<Longrightarrow> inv sv \<Longrightarrow> inv sv'"
  by (auto simp: request_id_for_def Let_def split: prod.splits dest: keeps)

lemma new_request_id_keeps [keeps]: "new_request_id E sv = (rid, sv') \<Longrightarrow> inv sv \<Longrightarrow> inv sv'"
  by (auto simp: new_request_id_def Let_def split: prod.splits dest: keeps)

lemma send_request_keeps [keeps]: "send_request E q sv = (r, sv') \<Longrightarrow> inv sv \<Longrightarrow> inv sv'"
  by (auto simp: send_request_def split: prod.splits)

lemma forward_request_keeps [keeps]: "forward_request E m hs cs url ip rid sv = (r, sv') \<Longrightarrow> inv sv \<Longrightarrow> inv sv'"
  by (auto simp: forward_request_def dest: keeps)

section \<open>The retrieval endpoints and the continuation\<close>

lemma retrieve_keeps:
  "retrieve_value lower ops h q (sv_world sv) = (v, w) \<Longrightarrow> inv sv \<Longrightarrow> inv (sv\<lparr>sv_world := w\<rparr>)"
  by (auto dest!: retrieve_value_store intro: inv_same_store)

lemma retrieve_response_keeps [keeps]: "retrieve_response E h q sv = (r, sv') \<Longrightarrow> inv sv \<Longrightarrow> inv sv'"
  by (auto simp: retrieve_response_def split: prod.splits dest: keeps intro: retrieve_keeps)

lemma tool_call_keeps [keeps]: "retrieve_tool_call_handler E v sv = (r, sv') \<Longrightarrow> inv sv \<Longrightarrow> inv sv'"
  by (auto simp: retrieve_tool_call_handler_def Let_def split: prod.splits option.splits dest: keeps intro: retrieve_keeps)

lemma next_messages_keeps [keeps]:
  assumes "next_messages E p ms current sv = (ms', sv')" "inv sv"
  shows "inv sv'"
proof -
  obtain ops sv1 where ops: "store_ops E (on_stats (record_ccr_continuation_retrievals
      (of_nat (length (extract_ccr_tool_calls (ev_serde E) p current)))) sv) = (ops, sv1)" by fastforce
  obtain answers w where ans: "answer_calls E ops p (extract_ccr_tool_calls (ev_serde E) p current) (sv_world sv1) = (answers, w)"
    by fastforce
  have "inv sv1" using store_ops_keeps[OF ops] assms(2) by simp
  then have "inv (sv1\<lparr>sv_world := w\<rparr>)" using conjunct1[OF answer_calls_map[OF ans refl]] by (rule inv_same_store)
  then show ?thesis using assms(1) ops ans by (auto simp: next_messages_def)
qed

lemma send_continuation_keeps [keeps]: "send_ccr_continuation E b url hs ip sv = (r, sv') \<Longrightarrow> inv sv \<Longrightarrow> inv sv'"
  by (auto simp: send_ccr_continuation_def Let_def split: prod.splits option.splits sum.splits if_splits dest: keeps)

lemma rounds_keeps: "ccr_rounds n E body url hs ip p ms cur sv = Some (cur', sv') \<Longrightarrow> inv sv \<Longrightarrow> inv sv'"
proof (induction n arbitrary: ms cur sv)
  case (Suc n)
  show ?case
  proof (cases rule: ccr_round_cases[of E p cur n body url hs ip ms sv])
    case (failed ms1 sv1 b err sv2)
    then show ?thesis using Suc.prems by (auto dest!: keeps)
  next
    case (continued ms1 sv1 b v sv2)
    then have "inv (on_stats record_ccr_continuation_round sv2)" using Suc.prems(2) by (auto dest!: keeps)
    then show ?thesis using Suc.IH Suc.prems(1) continued(4) by metis
  qed (use Suc.prems in auto)
qed simp

lemma run_keeps [keeps]: "run_ccr_continuation E body initial url hs ip p sv = Some (r, sv') \<Longrightarrow> inv sv \<Longrightarrow> inv sv'"
  by (auto simp: run_ccr_continuation_def Let_def split: option.splits dest: rounds_keeps)

section \<open>The proxied requests\<close>

lemma response_keeps [keeps]: "response_to_axum E reply rid path session sv = (r, sv') \<Longrightarrow> inv sv \<Longrightarrow> inv sv'"
  by (auto simp: response_to_axum_def Let_def split: option.splits)

lemma session_keeps: "inv sv \<Longrightarrow> inv (update_session_from_json_response E session v p sv)"
  by (auto simp: update_session_from_json_response_def Let_def simp del: option_filter_Some
      split: option.splits prod.splits dest!: keeps intro!: inv_trackers update_keeps dest: invD)

lemma streaming_keeps [keeps]: "forward_streaming E m hs cs url path ip sv = (r, sv') \<Longrightarrow> inv sv \<Longrightarrow> inv sv'"
  by (auto simp: forward_streaming_def Let_def split: prod.splits sum.splits dest!: keeps)

lemma streaming_state: "inv sv \<Longrightarrow> inv (snd (forward_streaming E m hs cs url path ip sv))"
  by (cases "forward_streaming E m hs cs url path ip sv") (auto dest: keeps)

lemma buffered_keeps [keeps]: "forward_buffered E m hs b url path ip session sv = (r, sv') \<Longrightarrow> inv sv \<Longrightarrow> inv sv'"
  by (auto simp: forward_buffered_def Let_def split: prod.splits sum.splits option.splits if_splits
      dest!: keeps intro: session_keeps)

lemma batch_create_keeps [keeps]: "forward_batch_create E m hs b url path ip sv = (r, sv') \<Longrightarrow> inv sv \<Longrightarrow> inv sv'"
  by (auto simp: forward_batch_create_def Let_def split: prod.splits sum.splits option.splits if_splits
      dest!: keeps intro!: inv_batches record_keeps dest: invD)

lemma continue_keeps [keeps]:
  "continue_reply E body initial reply bytes rid url hs ip p session sv = Some (r, sv') \<Longrightarrow> inv sv \<Longrightarrow> inv sv'"
  by (auto simp: continue_reply_def Let_def split: option.splits if_splits dest!: keeps intro: session_keeps)

lemma ccr_forward_keeps [keeps]:
  "forward_with_ccr_continuation E m hs b url path ip p session sv = Some (r, sv') \<Longrightarrow> inv sv \<Longrightarrow> inv sv'"
  by (auto simp: forward_with_ccr_continuation_def Let_def split: prod.splits sum.splits option.splits if_splits
      dest!: keeps)

lemma target_keeps [keeps]:
  "forward_target E t m hs b url path ip session sv = Some (r, sv') \<Longrightarrow> inv sv \<Longrightarrow> inv sv'"
  by (cases t) (auto simp: forward_target_def dest!: keeps)

lemma batch_line_keeps [keeps]:
  "batch_result_line E url hs ip contexts line sv = Some (r, sv') \<Longrightarrow> inv sv \<Longrightarrow> inv sv'"
  by (auto simp: batch_result_line_def Let_def split: option.splits if_splits dest!: keeps)

lemma batch_lines_keeps [keeps]:
  "batch_result_lines E url hs ip contexts ls out_lines processed sv = Some (r, sv') \<Longrightarrow> inv sv \<Longrightarrow> inv sv'"
  by (induction ls arbitrary: out_lines processed sv)
    (auto split: option.splits if_splits sum.splits prod.splits dest!: keeps)

lemma batch_results_keeps [keeps]:
  "forward_batch_results E hs url path ip contexts sv = Some (r, sv') \<Longrightarrow> inv sv \<Longrightarrow> inv sv'"
  by (auto simp: forward_batch_results_def Let_def split: prod.splits sum.splits option.splits if_splits dest!: keeps)

lemma frozen_floor_keeps [keeps]: "frozen_floor E ident sv = (n, sv') \<Longrightarrow> inv sv \<Longrightarrow> inv sv'"
  by (auto simp: frozen_floor_def Let_def split: option.splits prod.splits dest!: keeps
      intro!: inv_trackers intro: floor_keeps dest: invD)

lemma beta_header_keeps [keeps]: "merge_beta_header E t ident hs sv = (hs', sv') \<Longrightarrow> inv sv \<Longrightarrow> inv sv'"
  by (auto simp: merge_beta_header_def Let_def split: option.splits prod.splits
      intro!: inv_trackers intro: betas_keeps dest: invD)

lemma compress_keeps:
  assumes "store_ops E sv = (ops, sv1)" "inv sv"
    and "compress_json_request_ctx (ev_serde E) (ev_sha256 E) md5 ops body shape ctx (sv_world sv1) = Some (r, w)"
  shows "inv (sv1\<lparr>sv_world := w\<rparr>)"
proof -
  obtain t where t: "ops = ev_ops E t" using store_ops_of[OF assms(1)] by blast
  have sv1: "inv sv1" by (rule store_ops_keeps[OF assms(1,2)])
  have "P (the_store w)"
    by (rule request_store_inv[OF _ assms(3)[unfolded t]]) (use put_keeps invD(1)[OF sv1] in auto)
  then show ?thesis using inv_world[OF sv1] by blast
qed

lemma compress_for_target_keeps [keeps]:
  "compress_for_target E t hs n body sv = Some (mutation, sv') \<Longrightarrow> inv sv \<Longrightarrow> inv sv'"
  by (auto simp: compress_for_target_def Let_def split: prod.splits option.splits dest: compress_keeps)

lemma buffer_keeps [keeps]:
  "buffer_and_forward_known_json E req t url ip sv = Some (r, sv') \<Longrightarrow> inv sv \<Longrightarrow> inv sv'"
  by (auto simp: buffer_and_forward_known_json_def answer_request_def Let_def split: prod.splits sum.splits option.splits if_splits
      dest!: keeps)

lemma batch_contexts_keeps [keeps]: "batch_results_contexts E req sv = (c, sv') \<Longrightarrow> inv sv \<Longrightarrow> inv sv'"
  by (auto simp: batch_results_contexts_def Let_def split: prod.splits option.splits dest!: keeps
      intro!: inv_batches intro: lookup_keeps dest: invD)

lemma or_error_state:
  "or_upstream_error x = (r, sv') \<Longrightarrow> snd x = sv'" "or_payload_error x = (r, sv') \<Longrightarrow> snd x = sv'"
  by (auto simp: or_upstream_error_def or_payload_error_def split: prod.splits)

lemma proxy_http_keeps [keeps]: "proxy_http E req class ip sv = Some (r, sv') \<Longrightarrow> inv sv \<Longrightarrow> inv sv'"
  by (auto simp: proxy_http_def Let_def split: prod.splits option.splits dest!: keeps or_error_state intro: streaming_state)

lemma compress_only_keeps [keeps]: "compress_only_handler E req sv = Some (r, sv') \<Longrightarrow> inv sv \<Longrightarrow> inv sv'"
  using compress_keeps[of "on_stats record_request sv"]
  by (auto simp: compress_only_handler_def compress_json_request_with_auth_def Let_def
      split: prod.splits sum.splits option.splits if_splits dest: keeps)

section \<open>Endpoints and the SSE parser\<close>

lemma report_keeps [keeps]: "report_snapshot E sv = (snap, sv') \<Longrightarrow> inv sv \<Longrightarrow> inv sv'"
  by (auto simp: report_snapshot_def stats_with_ccr_entry_count_def Let_def intro: inv_same_store)

lemma probes_keep [keeps]:
  "probe_upstream E p sv = (h, sv') \<Longrightarrow> inv sv \<Longrightarrow> inv sv'"
  "probe_both E sv = (hs, sv') \<Longrightarrow> inv sv \<Longrightarrow> inv sv'"
proof -
  show one: "inv sv \<Longrightarrow> inv sv'" if "probe_upstream E p sv = (h, sv')" for p sv h sv'
    using that by (auto simp: probe_upstream_def Let_def split: prod.splits sum.splits dest: keeps)
  show "probe_both E sv = (hs, sv') \<Longrightarrow> inv sv \<Longrightarrow> inv sv'"
    by (auto simp: probe_both_def Let_def split: prod.splits dest!: one)
qed

lemma reports_keep [keeps]:
  "readyz_handler E sv = (r, sv') \<Longrightarrow> inv sv \<Longrightarrow> inv sv'"
  "healthz_upstream_handler E sv = (r, sv') \<Longrightarrow> inv sv \<Longrightarrow> inv sv'"
  "health_handler E sv = (r, sv') \<Longrightarrow> inv sv \<Longrightarrow> inv sv'"
  "retrieve_stats_handler E sv = (r, sv') \<Longrightarrow> inv sv \<Longrightarrow> inv sv'"
  "metrics_handler E show_f64 sv = (r, sv') \<Longrightarrow> inv sv \<Longrightarrow> inv sv'"
  "stats_handler E print sv = (r, sv') \<Longrightarrow> inv sv \<Longrightarrow> inv sv'"
  by (auto simp: readyz_handler_def stats_handler_def healthz_upstream_handler_def health_handler_def retrieve_stats_handler_def
      metrics_handler_def Let_def split: prod.splits dest!: keeps)

lemma emit_trackers: "Q (env_trackers env) \<Longrightarrow> Q (env_trackers (snd (emit_final t0 t1 (st, env))))"
  by (simp add: emit_final_def Let_def update_keeps split: option.split)

lemma event_trackers:
  assumes "Q (env_trackers (snd s))"
  shows "Q (env_trackers (snd (apply_event S t0 t1 e s)))"
proof -
  obtain st env where s: "s = (st, env)" by (cases s)
  have Q: "Q (env_trackers env)" using assms s by simp
  have chat: "Q (env_trackers (snd (apply_chat t0 t1 v (st, env))))"
    and responses: "Q (env_trackers (snd (apply_responses t0 t1 name v (st, env))))"
    and anthropic: "Q (env_trackers (snd (apply_anthropic t0 t1 name v (st, env))))"
    if "Q (env_trackers env)" for env name v
    using that
    by (simp_all add: apply_chat_def apply_responses_def apply_anthropic_def Let_def emit_trackers split: option.split)
  show ?thesis
    using Q by (simp add: s apply_event_def Let_def chat responses anthropic split: option.split sse_kind.split)
qed

lemma steps_trackers: "Q (env_trackers (snd s)) \<Longrightarrow> Q (env_trackers (snd (apply_steps S es s)))"
  unfolding apply_steps_def
proof (induction es arbitrary: s)
  case (Cons e es)
  obtain t0 t1 ev where e: "e = (t0, t1, ev)" by (cases e)
  show ?case using Cons.IH[OF event_trackers[OF Cons.prems]] by (simp add: e)
qed simp

lemma sse_task_keeps [keeps]: "run_sse_task E task taken sv = sv' \<Longrightarrow> inv sv \<Longrightarrow> inv sv'"
proof -
  have finish: "env_trackers (finish s) = env_trackers (snd s)" for s
    by (cases s) (simp add: finish_def split: option.split)
  have "Q (env_trackers (run_sse_state_machine S clock kind session chunks env))" if "Q (env_trackers env)"
    for S clock kind session chunks env
    unfolding run_sse_state_machine_def finish by (rule steps_trackers) (simp add: that)
  then show "run_sse_task E task taken sv = sv' \<Longrightarrow> inv sv \<Longrightarrow> inv sv'"
    by (auto simp: run_sse_task_def Let_def inv_def)
qed

section \<open>WebSockets\<close>

lemma client_send_keeps [keeps]: "client_send W m sv = (r, sv') \<Longrightarrow> inv sv \<Longrightarrow> inv sv'"
  by (auto simp: client_send_def split: prod.splits)

lemma relay_line_keeps [keeps]: "relay_line E W line sv = (r, sv') \<Longrightarrow> inv sv \<Longrightarrow> inv sv'"
  by (auto simp: relay_line_def split: option.splits dest!: keeps)

lemma relay_buffer_keeps [keeps]: "relay_buffer E W buf sv = (r, sv') \<Longrightarrow> inv sv \<Longrightarrow> inv sv'"
proof (induction "length buf" arbitrary: buf sv rule: less_induct)
  case less
  show ?case
  proof (cases "cut_line buf")
    case None
    then show ?thesis using less.prems relay_buffer.simps[of E W buf sv] by simp
  next
    case (Some cut)
    obtain line rest where cut: "cut = (line, rest)" by fastforce
    obtain a sv1 where a: "relay_line E W line sv = (a, sv1)" by fastforce
    have inv1: "inv sv1" by (rule relay_line_keeps[OF a less.prems(2)])
    show ?thesis
    proof (cases a)
      case (Inl err)
      then show ?thesis using less.prems(1) relay_buffer.simps[of E W buf sv] Some cut a inv1 by simp
    next
      case (Inr u)
      then have "relay_buffer E W rest sv1 = (r, sv')"
        using less.prems(1) relay_buffer.simps[of E W buf sv] Some cut a by simp
      then show ?thesis using less.hyps[OF cut_line_shrinks[OF Some[unfolded cut]]] inv1 by blast
    qed
  qed
qed

lemma relay_chunks_keeps [keeps]: "relay_chunks E W buf cs sv = (r, sv') \<Longrightarrow> inv sv \<Longrightarrow> inv sv'"
proof (induction cs arbitrary: buf sv)
  case (Cons c cs)
  then show ?case by (cases c) (auto split: prod.splits sum.splits dest!: keeps)
qed simp

lemma fallback_keeps [keeps]:
  "codex_ws_http_fallback E W path query hs first_text ip err sv = Some (r, sv') \<Longrightarrow> inv sv \<Longrightarrow> inv sv'"
  by (auto simp: codex_ws_http_fallback_def fallback_refused_def relay_sse_response_over_websocket_def Let_def
      split: option.splits prod.splits sum.splits if_splits dest!: keeps)

lemma headers_keep [keeps]: "copy_websocket_headers E hs to_hs ip sv = (hs', sv') \<Longrightarrow> inv sv \<Longrightarrow> inv sv'"
  by (auto simp: copy_websocket_headers_def Let_def split: prod.splits dest!: keeps)

lemma handshake_keeps [keeps]: "handshake_headers E W p path query hs ip sv = (r, sv') \<Longrightarrow> inv sv \<Longrightarrow> inv sv'"
  by (auto simp: handshake_headers_def Let_def split: prod.splits sum.splits dest!: keeps)

lemma connect_keeps [keeps]: "connect_upstream W url hs sv = (r, sv') \<Longrightarrow> inv sv \<Longrightarrow> inv sv'"
  by (auto simp: connect_upstream_def split: prod.splits)

lemma connection_betas_keeps [keeps]: "connection_betas E hs sv = (hs', sv') \<Longrightarrow> inv sv \<Longrightarrow> inv sv'"
  by (auto simp: connection_betas_def Let_def split: prod.splits dest!: keeps intro!: inv_trackers
      intro: betas_keeps dest: invD)

lemma codex_body_keeps [keeps]:
  "compress_codex_body E t hs frame body sv = Some (t', sv') \<Longrightarrow> inv sv \<Longrightarrow> inv sv'"
  by (auto simp: compress_codex_body_def Let_def split: prod.splits option.splits if_splits dest: compress_keeps)

lemma frame_keeps [keeps]:
  "maybe_compress_codex_response_create_frame E t hs sv = Some (t', sv') \<Longrightarrow> inv sv \<Longrightarrow> inv sv'"
  by (auto simp: maybe_compress_codex_response_create_frame_def split: option.splits if_splits dest: keeps)

lemma prepare_keeps [keeps]: "prepare_client_codex_ws_message E W hs m sv = Some (r, sv') \<Longrightarrow> inv sv \<Longrightarrow> inv sv'"
  by (auto simp: prepare_client_codex_ws_message_def split: option.splits ts_frame.splits dest: keeps)

lemma start_keeps [keeps]:
  "connect_codex E W path query hs ip m ft sv = Some (r, sv') \<Longrightarrow> inv sv \<Longrightarrow> inv sv'"
  "start_codex E W path query hs ip event sv = Some (r, sv') \<Longrightarrow> inv sv \<Longrightarrow> inv sv'"
  "start_passthrough E W p path query hs ip sv = (r, sv') \<Longrightarrow> inv sv \<Longrightarrow> inv sv'"
proof -
  show connect: "connect_codex E W path query hs ip m ft sv = Some (r, sv') \<Longrightarrow> inv sv \<Longrightarrow> inv sv'"
    for hs m ft sv r sv'
    by (auto simp: connect_codex_def Let_def split: prod.splits sum.splits dest!: keeps)
  have "inv sv \<Longrightarrow> inv (snd (client_send W m sv))" for m
    by (cases "client_send W m sv") (auto dest: keeps)
  then show "start_codex E W path query hs ip event sv = Some (r, sv') \<Longrightarrow> inv sv \<Longrightarrow> inv sv'"
    by (auto simp: start_codex_def Let_def split: first_event.splits sum.splits prod.splits option.splits
        dest!: keeps dest: connect)
  show "start_passthrough E W p path query hs ip sv = (r, sv') \<Longrightarrow> inv sv \<Longrightarrow> inv sv'"
    by (auto simp: start_passthrough_def Let_def split: prod.splits sum.splits dest!: keeps)
qed

lemma websocket_keeps [keeps]:
  "start_websocket E W path query hs p ip event sv = Some (r, sv') \<Longrightarrow> inv sv \<Longrightarrow> inv sv'"
  by (auto simp: start_websocket_def Let_def split: websocket_kind.splits dest!: keeps)

lemma get_keeps [keeps]: "proxy_get_handler E upgrade req ip sv = Some (r, sv') \<Longrightarrow> inv sv \<Longrightarrow> inv sv'"
  by (auto simp: proxy_get_handler_def Let_def split: if_splits dest!: keeps)

lemma codex_frames_keep [keeps]:
  "codex_up E W hs m sv = Some (r, sv') \<Longrightarrow> inv sv \<Longrightarrow> inv sv'"
  "codex_down E W m' sv = Some (r', sv') \<Longrightarrow> inv sv \<Longrightarrow> inv sv'"
  by (auto simp: codex_up_def codex_down_def split: ts_frame.splits dest: keeps)

end

section \<open>The process\<close>

text \<open>
  One step of the process. Everything a client, an upstream or the clock decides is a free
  variable of its rule. A parser runs once, on a subsequence of the chunks of its stream:
  its queue drops chunks when it is full. A client that is gone may leave a connection in any
  state, so opening, relaying and closing are steps of their own, the latter two while the
  gauge of \<open>stats.rs\<close> counts an open connection. A handler is one step: what others do between
  its operations is the subject of \<open>Process_Safety\<close>, \<open>Retention\<close> and \<open>Isolation\<close>.
\<close>

definition connected :: "('s, 'u) server \<Rightarrow> bool" where
  "connected sv \<longleftrightarrow> active_websocket_sessions (the_stats (sv_world sv)) > 0"

inductive process_step ::
    "('s, 'u) server_env \<Rightarrow> ('c, 'u) ws_lib \<Rightarrow> ('s, 'u) server \<Rightarrow> ('s, 'u) server \<Rightarrow> bool"
  for E :: "('s, 'u) server_env" and W :: "('c, 'u) ws_lib" where
  proxied: "proxy_http_handler E req ip sv = Some (r, sv') \<Longrightarrow> process_step E W sv sv'"
| got: "proxy_get_handler E upgrade req ip sv = Some (outcome, sv') \<Longrightarrow> process_step E W sv sv'"
| compressed: "compress_only_handler E req sv = Some (r, sv') \<Longrightarrow> process_step E W sv sv'"
| retrieved: "retrieve_post_handler E body sv = (r, sv') \<or> retrieve_get_handler E hash query sv = (r, sv')
     \<Longrightarrow> process_step E W sv sv'"
| called: "retrieve_tool_call_handler E v sv = (r, sv') \<Longrightarrow> process_step E W sv sv'"
| probed: "readyz_handler E sv = (r, sv') \<or> healthz_upstream_handler E sv = (r, sv') \<Longrightarrow> process_step E W sv sv'"
| reported: "health_handler E sv = (r, sv') \<or> retrieve_stats_handler E sv = (r, sv')
     \<or> metrics_handler E show_f64 sv = (r, sv') \<or> stats_handler E print sv = (r, sv') \<Longrightarrow> process_step E W sv sv'"
| parsed: "task \<in> set (sv_tasks sv) \<Longrightarrow> subseq taken (st_chunks task) \<Longrightarrow> run_sse_task E task taken sv = sv' \<Longrightarrow>
     process_step E W sv (sv'\<lparr>sv_tasks := remove1 task (sv_tasks sv')\<rparr>)"
| opened: "start_websocket E W path query hs provider ip event sv = Some (r, sv') \<Longrightarrow> process_step E W sv sv'"
| upstream_frame: "connected sv \<Longrightarrow> codex_up E W hs m sv = Some (r, sv') \<Longrightarrow> process_step E W sv sv'"
| client_frame: "connected sv \<Longrightarrow> codex_down E W m sv = Some (r, sv') \<Longrightarrow> process_step E W sv sv'"
| closed: "connected sv \<Longrightarrow> process_step E W sv (end_websocket sv)"

context keeps_state
begin

lemma step_keeps: "process_step E W sv sv' \<Longrightarrow> inv sv \<Longrightarrow> inv sv'"
  by (induction rule: process_step.induct)
    (auto simp: proxy_http_handler_def retrieve_post_handler_def retrieve_get_handler_def end_websocket_def dest: keeps intro: sse_task_keeps[OF refl])

lemma steps_keep: "(process_step E W)\<^sup>*\<^sup>* sv sv' \<Longrightarrow> inv sv \<Longrightarrow> inv sv'"
  by (induction rule: rtranclp_induct) (auto dest: step_keeps)

end

end
