(* ===== verification/Shared_Store.thy ===== *)
theory Shared_Store
  imports Request
begin

text \<open>
  The store while others use it. Several requests are in flight at once, and the commands of
  the command line open the same database file: between any two statements of one request,
  others may \<open>put\<close>. The connection lock of \<open>src/ccr.rs\<close> makes a \<open>put\<close> one step, so what others
  do is a list of \<open>put\<close>s before each \<open>put\<close> of the request that is looked at.
\<close>

section \<open>A database others write to\<close>

record shared_store =
  db :: sqlite_store
  others :: "put_request list list"

definition shared_put ::
    "i64 \<Rightarrow> string \<Rightarrow> string \<Rightarrow> shared_store \<Rightarrow> (hr_error + bool) \<times> shared_store" where
  "shared_put now hash text st =
     (let meanwhile = (case others st of [] \<Rightarrow> [] | ps # _ \<Rightarrow> ps);
          (r, d) = sqlite_put now hash text (later_puts meanwhile (db st))
      in (r, \<lparr>db = d, others = tl (others st)\<rparr>))"

definition shared_ops :: "i64 \<Rightarrow> shared_store ccr_store_ops" where
  "shared_ops now = \<lparr>put_op = shared_put now, get_op = (\<lambda>h st. sqlite_get h (db st)),
     count_op = (\<lambda>st. sqlite_count (db st))\<rparr>"

text \<open>The code puts a text under its content hash and nowhere else.\<close>

definition addressed_puts :: "(string \<Rightarrow> string) \<Rightarrow> put_request list \<Rightarrow> bool" where
  "addressed_puts sha256 ps \<longleftrightarrow> (\<forall>(now, h, x) \<in> set ps. h = content_hash sha256 x)"

definition shared_entries :: "shared_store \<Rightarrow> string \<rightharpoonup> string" where
  "shared_entries st = sqlite_entries (db st)"

definition shared_sound :: "(string \<Rightarrow> string) \<Rightarrow> shared_store \<Rightarrow> bool" where
  "shared_sound sha256 st \<longleftrightarrow> sqlite_sound (db st) \<and> list_all (addressed_puts sha256) (others st)"

lemma sqlite_put_op: "sqlite_put now h t s = (r, s') \<longleftrightarrow> put_op (sqlite_ops now) h t s = (r, s')"
  by (simp add: sqlite_ops_def)

lemma later_puts_origin:
  assumes "sqlite_sound s" "addressed_puts sha256 ps" "sqlite_entries (later_puts ps s) k = Some x"
  shows "sqlite_entries s k = Some x \<or> k = content_hash sha256 x"
  using assms
proof (induction ps arbitrary: s)
  case (Cons p ps)
  obtain now h t r s' where p: "p = (now, h, t)" and put: "sqlite_put now h t s = (r, s')"
    by (metis prod.exhaust)
  note op = put[unfolded sqlite_put_op]
  have "sqlite_entries s' k = Some x \<or> k = content_hash sha256 x"
    using Cons.IH[of s'] Cons.prems p put sqlite.put_sound[OF _ op]
    by (simp add: addressed_puts_def later_puts_def)
  then show ?case
    using sqlite.grow_origin[OF Cons.prems(1) op, of k x sha256] Cons.prems(2) p
    by (auto simp: addressed_puts_def)
qed (simp add: later_puts_def)

lemma shared_put_cases:
  assumes "shared_sound sha256 s" "put_op (shared_ops now) h t s = (r, s')"
  obtains d where "sqlite_sound d" "sqlite_entries (db s) \<subseteq>\<^sub>m sqlite_entries d"
    "\<And>k x. sqlite_entries d k = Some x \<Longrightarrow> sqlite_entries (db s) k = Some x \<or> k = content_hash sha256 x"
    "put_op (sqlite_ops now) h t d = (r, db s')" "others s' = tl (others s)"
proof -
  define ps where "ps = (case others s of [] \<Rightarrow> [] | ps # _ \<Rightarrow> ps)"
  have s: "sqlite_sound (db s)" "addressed_puts sha256 ps"
    using assms(1) by (cases "others s"; simp add: shared_sound_def ps_def addressed_puts_def)+
  show thesis
    using that[of "later_puts ps (db s)"] later_puts_keep[OF s(1), of ps] later_puts_origin[OF s] assms(2)
    by (auto simp: shared_ops_def shared_put_def ps_def[symmetric] sqlite_ops_def Let_def split: prod.splits)
qed

interpretation shared: growing_store "shared_ops now" shared_entries "shared_sound sha256" sha256 for now sha256
proof unfold_locales
  fix s s' :: shared_store and h t r k x b
  assume s: "shared_sound sha256 s"
  show "shared_sound sha256 s'" if put: "put_op (shared_ops now) h t s = (r, s')"
    by (rule shared_put_cases[OF s put])
      (use s sqlite.put_sound in \<open>cases "others s"; auto simp: shared_sound_def\<close>)
  show "shared_entries s \<subseteq>\<^sub>m shared_entries s'" if put: "put_op (shared_ops now) h t s = (r, s')"
    by (rule shared_put_cases[OF s put]) (metis shared_entries_def sqlite.put_extends map_le_trans)
  show "shared_entries s' h \<noteq> None" if put: "put_op (shared_ops now) h t s = (Inr b, s')"
    by (rule shared_put_cases[OF s put]) (use sqlite.put_stores in \<open>auto simp: shared_entries_def\<close>)
  show "shared_entries s k = Some x \<or> (k, x) = (h, t) \<or> k = content_hash sha256 x"
    if put: "put_op (shared_ops now) h t s = (r, s')" and "shared_entries s' k = Some x"
    by (rule shared_put_cases[OF s put])
      (use that(2) sqlite.grow_origin in \<open>fastforce simp: shared_entries_def\<close>)
qed

section \<open>What is sent does not depend on the store\<close>

text \<open>A store whose \<open>put\<close>s succeed, as long as \<open>P\<close> holds of it.\<close>

locale accepting_store =
  fixes ops :: "'s ccr_store_ops" and P :: "'s \<Rightarrow> bool"
  assumes accepts: "P s \<Longrightarrow> put_op ops h t s = (r, s') \<Longrightarrow> P s' \<and> (\<exists>inserted. r = Inr inserted)"

text \<open>The store that accepts everything and keeps nothing.\<close>

definition null_ops :: "unit ccr_store_ops" where
  "null_ops = \<lparr>put_op = (\<lambda>_ _ u. (Inr True, u)), get_op = (\<lambda>_ _. Inr None), count_op = (\<lambda>_. Inr 0)\<rparr>"

definition null_world :: "unit world" where
  "null_world = \<lparr>the_store = (), the_stats = stats_default\<rparr>"

text \<open>What becomes of a request, as a function of the request alone.\<close>

definition request_outcome ::
    "serde \<Rightarrow> (string \<Rightarrow> string) \<Rightarrow> (string \<Rightarrow> string) \<Rightarrow> string \<Rightarrow> api_shape \<Rightarrow> compress_context
       \<Rightarrow> request_compression option" where
  "request_outcome S sha256 md5 body shape ctx =
     map_option fst (compress_json_request_ctx S sha256 md5 null_ops body shape ctx null_world)"

context accepting_store
begin

lemma slot_accepted:
  assumes "P (the_store w)"
  shows "map_option fst (compress_slot S sha256 ops slot w) = map_option fst (compress_slot S sha256 null_ops slot v)
    \<and> (\<forall>x w1. compress_slot S sha256 ops slot w = Some (x, w1) \<longrightarrow> P (the_store w1))"
proof -
  obtain r s' where put: "put_op ops (content_hash sha256 (ps_text slot)) (ps_text slot) (the_store w) = (r, s')"
    by fastforce
  obtain b where "r = Inr b" "P s'" using accepts[OF assms put] by blast
  then show ?thesis
    using assms put by (auto simp: compress_slot_def null_ops_def Let_def split: option.split)
qed

lemma slots_accepted:
  assumes "P (the_store w)"
  shows "map_option fst (compress_slots S sha256 ops slots w) = map_option fst (compress_slots S sha256 null_ops slots v)"
  using assms
proof (induction slots arbitrary: w v)
  case (Cons slot slots)
  note same = slot_accepted[OF Cons.prems, of S sha256 slot v]
  show ?case
  proof (cases "compress_slot S sha256 ops slot w")
    case None
    then show ?thesis using same by (cases "compress_slot S sha256 null_ops slot v") auto
  next
    case (Some xw)
    then obtain x w1 v1 where run: "compress_slot S sha256 ops slot w = Some (x, w1)"
      "compress_slot S sha256 null_ops slot v = Some (x, v1)"
      using same by (cases xw; cases "compress_slot S sha256 null_ops slot v") auto
    have "map_option fst (compress_slots S sha256 ops slots w1) = map_option fst (compress_slots S sha256 null_ops slots v1)"
      by (rule Cons.IH) (use same run(1) in blast)
    then show ?thesis
      by (cases "compress_slots S sha256 ops slots w1"; cases "compress_slots S sha256 null_ops slots v1")
        (auto simp: run split: option.split)
  qed
qed simp

lemma current_accepted:
  assumes "P (the_store w)"
  shows "map_option fst (compress_current S sha256 ops body shape ctx present mutated current working w)
    = map_option fst (compress_current S sha256 null_ops body shape ctx present mutated current working v)"
proof -
  obtain reason slots where plan: "plan_live_zone S (whole current) working ctx shape = (reason, slots)" by fastforce
  have same: "map_option fst (compress_slots S sha256 ops slots w) = map_option fst (compress_slots S sha256 null_ops slots v)"
    by (rule slots_accepted[OF assms])
  show ?thesis
  proof (cases "compress_slots S sha256 ops slots w")
    case None
    then show ?thesis using same by (simp add: compress_current_def plan)
  next
    case (Some xw)
    then obtain rs hashes indices w1 v1 where "compress_slots S sha256 ops slots w = Some ((rs, hashes, indices), w1)"
      "compress_slots S sha256 null_ops slots v = Some ((rs, hashes, indices), v1)"
      using same by (cases xw) (auto simp: map_option_case split: option.splits)
    then show ?thesis by (simp add: compress_current_def plan Let_def split: option.split prod.split)
  qed
qed

lemma request_accepted:
  assumes "P (the_store w)"
  shows "map_option fst (compress_json_request_ctx S sha256 md5 ops body shape ctx w)
    = request_outcome S sha256 md5 body shape ctx"
  by (auto simp: request_outcome_def compress_json_request_ctx_def Let_def current_accepted[OF assms, where v = null_world]
      split: option.split)

end

text \<open>A database that works: the lock is not poisoned and no statement fails.\<close>

definition healthy :: "sqlite_store \<Rightarrow> bool" where
  "healthy st \<longleftrightarrow> \<not> lock_poisoned st \<and> (\<forall>statement. sql_fails st statement = None)"

lemma later_puts_fields:
  "lock_poisoned (later_puts ps s) = lock_poisoned s \<and> sql_fails (later_puts ps s) = sql_fails s"
proof (induction ps arbitrary: s)
  case (Cons p ps)
  obtain now h t where p: "p = (now, h, t)" by (cases p)
  then show ?case
    using Cons.IH sqlite_put_fields[of now h t s] by (cases "sqlite_put now h t s") (simp add: later_puts_def)
qed (simp add: later_puts_def)

lemma healthy_later_puts: "healthy s \<Longrightarrow> healthy (later_puts ps s)"
  by (simp add: healthy_def later_puts_fields)

lemma healthy_put:
  assumes "healthy s" "sqlite_put now h t s = (r, s')"
  shows "healthy s' \<and> (\<exists>inserted. r = Inr inserted)"
  using assms sqlite_put_fields[OF assms(2)] by (auto simp: healthy_def sqlite_put_def Let_def split: if_splits)

interpretation sqlite_healthy: accepting_store "sqlite_ops now" healthy for now
  by unfold_locales (rule healthy_put, simp_all add: sqlite_ops_def)

interpretation shared_healthy: accepting_store "shared_ops now" "\<lambda>st. healthy (db st)" for now
proof unfold_locales
  fix s s' :: shared_store and h t r
  assume "healthy (db s)" "put_op (shared_ops now) h t s = (r, s')"
  then show "healthy (db s') \<and> (\<exists>inserted. r = Inr inserted)"
    using healthy_put[OF healthy_later_puts, of "db s"]
    by (auto simp: shared_ops_def shared_put_def Let_def split: prod.splits)
qed

text \<open>
  C7: Others do not change what is sent. On a database that works, whatever is already stored
  and whatever others put between any two statements of the request, the request is
  compressed to the same body, with the same hashes, reason and counts, as when it has another
  working database for itself.
\<close>

theorem request_unaffected_by_others:
  assumes "healthy (db (the_store w))" "healthy (the_store v)"
  shows "map_option fst (compress_json_request_ctx S sha256 md5 (shared_ops now) body shape ctx w)
    = map_option fst (compress_json_request_ctx S sha256 md5 (sqlite_ops later) body shape ctx v)"
  using shared_healthy.request_accepted[OF assms(1)] sqlite_healthy.request_accepted[OF assms(2)] by metis

text \<open>A store in which another request puts the same text first.\<close>

definition busy_world :: "shared_store world" where
  "busy_world = \<lparr>the_store = \<lparr>db = sqlite_in_memory, others = [[(5, content_hash const_digest demo_text, demo_text)]]\<rparr>,
     the_stats = stats_default\<rparr>"

lemma busy_hashes:
  assumes "compress_json_request_ctx demo_serde const_digest const_digest (shared_ops now)
     (demo_body demo_text) AnthropicMessages (compress_context_new OAuth) w = Some (r, w')" "the_store w = the_store busy_world"
  shows "rc_hashes r = [content_hash const_digest demo_text]"
proof -
  obtain r0 w0 where alone: "compress_json_request_ctx demo_serde const_digest const_digest (sqlite_ops 1)
     (demo_body demo_text) AnthropicMessages (compress_context_new OAuth) empty_world = Some (r0, w0)"
    by (rule demo_request_runs)
  have "healthy (db (the_store w))" "healthy (the_store empty_world)"
    by (simp_all add: assms(2) busy_world_def empty_world_def healthy_def sqlite_in_memory_def)
  then have "r = r0"
    using shared_healthy.request_accepted[of w] sqlite_healthy.request_accepted[of empty_world] assms(1) alone
    by (metis fst_conv option.inject option.simps(9))
  then show ?thesis using demo_request_compressed[OF alone] by simp
qed

theorem request_unaffected_by_others_witness:
  "\<exists>r w'. compress_json_request_ctx demo_serde const_digest const_digest (shared_ops 1)
     (demo_body demo_text) AnthropicMessages (compress_context_new OAuth) busy_world = Some (r, w')
   \<and> rc_hashes r = [content_hash const_digest demo_text]"
proof -
  obtain r0 w0 where alone: "compress_json_request_ctx demo_serde const_digest const_digest (sqlite_ops 1)
     (demo_body demo_text) AnthropicMessages (compress_context_new OAuth) empty_world = Some (r0, w0)"
    by (rule demo_request_runs)
  have "healthy (db (the_store busy_world))" "healthy (the_store empty_world)"
    by (simp_all add: busy_world_def empty_world_def healthy_def sqlite_in_memory_def)
  from request_unaffected_by_others[OF this, of demo_serde const_digest const_digest 1 "demo_body demo_text"
      AnthropicMessages "compress_context_new OAuth" 1] demo_request_compressed[OF alone] alone
  show ?thesis by auto
qed

end
