(* ===== verification/Process_Safety.thy ===== *)
theory Process_Safety
  imports Process Relay_Safety Shared_Store
begin

text \<open>
  The shared state under the finest interleaving. Every lock of the process guards one
  operation: a \<open>put\<close>, an operation of the session trackers, or one of the batch contexts.
  Whatever a handler does to the shared state is a sequence of these atomic operations, and
  what holds however atomic operations follow each other holds for any number of handlers in
  flight.
\<close>

section \<open>Atomic operations\<close>

definition store_step :: "('s, 'u) server_env \<Rightarrow> 's \<Rightarrow> 's \<Rightarrow> bool" where
  "store_step E s s' \<longleftrightarrow> (\<exists>t x. s' = snd (put_op (ev_ops E t) (content_hash (ev_sha256 E) x) x s))"

inductive tracker_step :: "inner \<Rightarrow> inner \<Rightarrow> bool" where
  betas_merged: "sticky_betas p sid v st = (merged, st') \<Longrightarrow> tracker_step st st'"
| floor_read: "frozen_message_count t0 t1 p sid st = (n, st') \<Longrightarrow> tracker_step st st'"
| response_seen: "tracker_step st (update_from_response t0 t1 p sid r w estimates st)"

inductive batch_step :: "batch_context_entry list \<Rightarrow> batch_context_entry list \<Rightarrow> bool" where
  recorded: "batch_step b (record_batch_context now i body b)"
| looked_up: "batch_context now i b = (c, b') \<Longrightarrow> batch_step b b'"

record 's shared_state =
  sh_store :: 's
  sh_trackers :: inner
  sh_batches :: "batch_context_entry list"

inductive atomic_step :: "('s, 'u) server_env \<Rightarrow> 's shared_state \<Rightarrow> 's shared_state \<Rightarrow> bool"
  for E :: "('s, 'u) server_env" where
  store: "store_step E (sh_store sh) s \<Longrightarrow> atomic_step E sh (sh\<lparr>sh_store := s\<rparr>)"
| trackers: "tracker_step (sh_trackers sh) q \<Longrightarrow> atomic_step E sh (sh\<lparr>sh_trackers := q\<rparr>)"
| batches: "batch_step (sh_batches sh) b \<Longrightarrow> atomic_step E sh (sh\<lparr>sh_batches := b\<rparr>)"

definition shared_of :: "('s, 'u) server \<Rightarrow> 's shared_state" where
  "shared_of sv = \<lparr>sh_store = the_store (sv_world sv), sh_trackers = sv_trackers sv, sh_batches = sv_batches sv\<rparr>"

section \<open>Handlers are made of atomic operations\<close>

interpretation atomic: keeps_state E "(store_step E)\<^sup>*\<^sup>* s" "tracker_step\<^sup>*\<^sup>* q" "batch_step\<^sup>*\<^sup>* b"
  for E :: "('s, 'u) server_env" and s q b
proof unfold_locales
  fix s' t x
  show "(store_step E)\<^sup>*\<^sup>* s s' \<Longrightarrow> (store_step E)\<^sup>*\<^sup>* s (snd (put_op (ev_ops E t) (content_hash (ev_sha256 E) x) x s'))"
    by (erule rtranclp.rtrancl_into_rtrancl) (auto simp: store_step_def)
qed (metis rtranclp.rtrancl_into_rtrancl tracker_step.intros batch_step.intros)+

lemma store_steps: "(store_step E)\<^sup>*\<^sup>* (sh_store sh) s \<Longrightarrow> (atomic_step E)\<^sup>*\<^sup>* sh (sh\<lparr>sh_store := s\<rparr>)"
proof (induction rule: rtranclp_induct)
  case (step s1 s2)
  then show ?case using atomic_step.store[of E "sh\<lparr>sh_store := s1\<rparr>" s2] by (simp add: rtranclp.rtrancl_into_rtrancl)
qed simp

lemma tracker_steps: "tracker_step\<^sup>*\<^sup>* (sh_trackers sh) q \<Longrightarrow> (atomic_step E)\<^sup>*\<^sup>* sh (sh\<lparr>sh_trackers := q\<rparr>)"
proof (induction rule: rtranclp_induct)
  case (step q1 q2)
  then show ?case using atomic_step.trackers[of "sh\<lparr>sh_trackers := q1\<rparr>" q2 E] by (simp add: rtranclp.rtrancl_into_rtrancl)
qed simp

lemma batch_steps: "batch_step\<^sup>*\<^sup>* (sh_batches sh) b \<Longrightarrow> (atomic_step E)\<^sup>*\<^sup>* sh (sh\<lparr>sh_batches := b\<rparr>)"
proof (induction rule: rtranclp_induct)
  case (step b1 b2)
  then show ?case using atomic_step.batches[of "sh\<lparr>sh_batches := b1\<rparr>" b2 E] by (simp add: rtranclp.rtrancl_into_rtrancl)
qed simp

lemma step_parts:
  assumes "process_step E W sv sv'"
  shows "(store_step E)\<^sup>*\<^sup>* (the_store (sv_world sv)) (the_store (sv_world sv'))"
    "tracker_step\<^sup>*\<^sup>* (sv_trackers sv) (sv_trackers sv')" "batch_step\<^sup>*\<^sup>* (sv_batches sv) (sv_batches sv')"
proof -
  have "keeps_state.inv ((store_step E)\<^sup>*\<^sup>* (the_store (sv_world sv))) (tracker_step\<^sup>*\<^sup>* (sv_trackers sv))
      (batch_step\<^sup>*\<^sup>* (sv_batches sv)) sv'"
    by (rule atomic.step_keeps[OF assms]) (simp add: atomic.inv_def)
  then show "(store_step E)\<^sup>*\<^sup>* (the_store (sv_world sv)) (the_store (sv_world sv'))"
    "tracker_step\<^sup>*\<^sup>* (sv_trackers sv) (sv_trackers sv')" "batch_step\<^sup>*\<^sup>* (sv_batches sv) (sv_batches sv')"
    by (simp_all add: atomic.inv_def)
qed

lemma step_atomic:
  assumes "process_step E W sv sv'"
  shows "(atomic_step E)\<^sup>*\<^sup>* (shared_of sv) (shared_of sv')"
proof -
  note parts = step_parts[OF assms]
  let ?s = "the_store (sv_world sv')" and ?sh = "shared_of sv"
  have "(atomic_step E)\<^sup>*\<^sup>* ?sh (?sh\<lparr>sh_store := ?s\<rparr>)"
    using store_steps[of E ?sh] parts(1) by (simp add: shared_of_def)
  also have "(atomic_step E)\<^sup>*\<^sup>* \<dots> (?sh\<lparr>sh_store := ?s, sh_trackers := sv_trackers sv'\<rparr>)"
    using tracker_steps[of "?sh\<lparr>sh_store := ?s\<rparr>"] parts(2) by (simp add: shared_of_def)
  also have "(atomic_step E)\<^sup>*\<^sup>* \<dots> (?sh\<lparr>sh_store := ?s, sh_trackers := sv_trackers sv', sh_batches := sv_batches sv'\<rparr>)"
    using batch_steps[of "?sh\<lparr>sh_store := ?s, sh_trackers := sv_trackers sv'\<rparr>"] parts(3) by (simp add: shared_of_def)
  finally show ?thesis by (simp add: shared_of_def)
qed

text \<open>
  The effect of any number of steps on the shared state, as atomic operations. A step of the
  process is a whole handler, so this says what handlers are made of, not how they interleave:
  the properties below hold for every sequence of atomic operations, of whatever handlers.
\<close>

lemma steps_atomic: "(process_step E W)\<^sup>*\<^sup>* sv sv' \<Longrightarrow> (atomic_step E)\<^sup>*\<^sup>* (shared_of sv) (shared_of sv')"
  by (induction rule: rtranclp_induct) (auto intro: rtranclp_trans dest: step_atomic)

section \<open>The database\<close>

text \<open>The store can be read: the lock is not poisoned and the engine serves queries.\<close>

definition readable :: "sqlite_store \<Rightarrow> bool" where
  "readable st \<longleftrightarrow> \<not> lock_poisoned st \<and> sql_fails st SqlSelect = None"

text \<open>One \<open>put\<close> of anybody: a request, a frame, another process on the same file.\<close>

definition put_step :: "(string \<Rightarrow> string) \<Rightarrow> sqlite_store \<Rightarrow> sqlite_store \<Rightarrow> bool" where
  "put_step sha256 s s' \<longleftrightarrow> (\<exists>now x. s' = snd (sqlite_put now (content_hash sha256 x) x s))"

text \<open>A consistent and content-addressed database.\<close>

definition consistent :: "(string \<Rightarrow> string) \<Rightarrow> sqlite_store \<Rightarrow> bool" where
  "consistent sha256 st \<longleftrightarrow> sqlite_sound st \<and> addressed sha256 (sqlite_entries st)"

lemma put_step_keeps:
  assumes "put_step sha256 s s'" "consistent sha256 s"
  shows "consistent sha256 s' \<and> sqlite_entries s \<subseteq>\<^sub>m sqlite_entries s' \<and> readable s' = readable s"
proof -
  obtain now x r where put: "sqlite_put now (content_hash sha256 x) x s = (r, s')"
    using assms(1) unfolding put_step_def by (metis prod.collapse)
  note op = put[unfolded sqlite_put_op] and s = assms(2)[unfolded consistent_def]
  have "addressed sha256 (sqlite_entries s')"
    using sqlite.grow_origin[OF conjunct1[OF s] op, of _ _ sha256] s unfolding addressed_def by (metis prod.inject)
  then show ?thesis
    using s sqlite.put_sound[OF _ op] sqlite.put_extends[OF _ op] sqlite_put_fields[OF put]
    by (simp add: consistent_def readable_def)
qed

lemma put_steps_keep:
  assumes "(put_step sha256)\<^sup>*\<^sup>* s s'" "consistent sha256 s"
  shows "consistent sha256 s' \<and> sqlite_entries s \<subseteq>\<^sub>m sqlite_entries s' \<and> readable s' = readable s"
  using assms
proof (induction rule: rtranclp_induct)
  case (step s1 s2)
  then show ?case using put_step_keeps[OF step.hyps(2)] map_le_trans by blast
qed simp

lemma store_step_put: "ev_ops E = (\<lambda>t. sqlite_ops (clock t)) \<Longrightarrow> store_step E s s' \<Longrightarrow> put_step (ev_sha256 E) s s'"
  by (auto simp: store_step_def put_step_def sqlite_ops_def)

lemma atomic_steps_put:
  assumes "(atomic_step E)\<^sup>*\<^sup>* sh sh'" "ev_ops E = (\<lambda>t. sqlite_ops (clock t))"
  shows "(put_step (ev_sha256 E))\<^sup>*\<^sup>* (sh_store sh) (sh_store sh')"
  using assms(1)
proof (induction rule: rtranclp_induct)
  case (step sh1 sh2)
  have "sh_store sh2 = sh_store sh1 \<or> put_step (ev_sha256 E) (sh_store sh1) (sh_store sh2)"
    using step.hyps(2) store_step_put[OF assms(2)] by cases auto
  then show ?case using step.IH by (metis rtranclp.rtrancl_into_rtrancl)
qed simp

text \<open>
  C5: Originals stay. However atomic operations of any number of handlers follow each other,
  the store stays consistent and content-addressed, an entry that was there is there with the
  same text, and a store that could be read can be read.
\<close>

theorem originals_stay:
  assumes "ev_ops E = (\<lambda>t. sqlite_ops (clock t))" "(atomic_step E)\<^sup>*\<^sup>* sh sh'"
    and "sqlite_sound (sh_store sh)" "addressed (ev_sha256 E) (sqlite_entries (sh_store sh))"
  shows "sqlite_sound (sh_store sh') \<and> addressed (ev_sha256 E) (sqlite_entries (sh_store sh'))
    \<and> sqlite_entries (sh_store sh) \<subseteq>\<^sub>m sqlite_entries (sh_store sh')
    \<and> readable (sh_store sh') = readable (sh_store sh)"
  using put_steps_keep[OF atomic_steps_put[OF assms(2,1)]] assms(3,4) by (simp add: consistent_def)

section \<open>Memory\<close>

lemma tracker_step_betas: "tracker_step st st' \<Longrightarrow> betas_ok st \<Longrightarrow> betas_ok st'"
proof (induction rule: tracker_step.induct)
  case betas_merged
  then show ?case using betas_ok_sticky by blast
next
  case (floor_read t0 t1 p sid st n st')
  then show ?case using frozen_message_count_betas[of t0 t1 p sid st] by (simp add: betas_ok_def)
next
  case response_seen
  then show ?case by (simp add: betas_ok_def update_betas)
qed

lemma batch_step_bounded: "batch_step b b' \<Longrightarrow> batches_ok b \<Longrightarrow> batches_ok b'"
  by (induction rule: batch_step.induct) (auto simp: batches_ok_record batch_context_def Let_def batches_ok_filter)

lemma atomic_steps_memory:
  assumes "(atomic_step E)\<^sup>*\<^sup>* sh sh'" "betas_ok (sh_trackers sh)" "batches_ok (sh_batches sh)"
  shows "betas_ok (sh_trackers sh') \<and> batches_ok (sh_batches sh')"
  using assms(1)
proof (induction rule: rtranclp_induct)
  case base
  then show ?case using assms(2,3) by simp
next
  case (step sh1 sh2)
  from step.hyps(2) step.IH show ?case by cases (auto dest: tracker_step_betas batch_step_bounded)
qed

text \<open>
  C6: Memory is bounded. However atomic operations of any number of handlers follow each other
  in a new process, it remembers the beta headers of at most \<open>MAX_BETA_SESSIONS\<close> sessions and at
  most \<open>MAX_BATCH_CONTEXTS\<close> batches, each at most once.
\<close>

theorem memory_bounded:
  assumes "(atomic_step E)\<^sup>*\<^sup>* sh sh'" "sh_trackers sh = inner_default" "sh_batches sh = []"
  shows "length (betas (sh_trackers sh')) \<le> MAX_BETA_SESSIONS \<and> distinct (map fst (betas (sh_trackers sh')))
    \<and> length (sh_batches sh') \<le> MAX_BATCH_CONTEXTS \<and> distinct (map bc_batch_id (sh_batches sh'))"
proof -
  have "betas_ok (sh_trackers sh') \<and> batches_ok (sh_batches sh')"
    by (rule atomic_steps_memory[OF assms(1)]) (simp_all add: assms(2,3) betas_ok_default batches_ok_def)
  then show ?thesis by (simp add: betas_ok_def batches_ok_def)
qed

section \<open>Two handlers in flight\<close>

text \<open>A \<open>put\<close> of one request, then a batch recorded by another.\<close>

definition demo_shared :: "sqlite_store shared_state" where
  "demo_shared = shared_of demo_server"

definition demo_shared_end :: "sqlite_store shared_state" where
  "demo_shared_end = demo_shared\<lparr>sh_store := snd (sqlite_put 0 (content_hash const_digest ''x'') ''x'' sqlite_in_memory),
     sh_batches := record_batch_context 0 ''b'' JNull []\<rparr>"

lemma demo_server_shared: "demo_shared = \<lparr>sh_store = sqlite_in_memory, sh_trackers = inner_default, sh_batches = []\<rparr>"
  by (simp add: demo_shared_def shared_of_def demo_server_def empty_world_def)

lemma demo_atomic: "(atomic_step (demo_env no_upstream))\<^sup>*\<^sup>* demo_shared demo_shared_end"
proof -
  let ?E = "demo_env no_upstream" and ?s = "snd (sqlite_put 0 (content_hash const_digest ''x'') ''x'' sqlite_in_memory)"
  have "store_step ?E (sh_store demo_shared) ?s"
    unfolding store_step_def by (rule exI[of _ 0], rule exI[of _ "''x''"]) (simp add: demo_env_def sqlite_ops_def demo_server_shared)
  then have "atomic_step ?E demo_shared (demo_shared\<lparr>sh_store := ?s\<rparr>)" by (rule atomic_step.store)
  moreover have "atomic_step ?E (demo_shared\<lparr>sh_store := ?s\<rparr>) demo_shared_end"
    using atomic_step.batches[OF batch_step.recorded, of ?E "demo_shared\<lparr>sh_store := ?s\<rparr>" 0 "''b''" JNull]
    by (simp add: demo_shared_end_def demo_server_shared)
  ultimately show ?thesis by (meson converse_rtranclp_into_rtranclp rtranclp.rtrancl_refl)
qed

theorem memory_bounded_witness: "length (sh_batches demo_shared_end) \<le> MAX_BATCH_CONTEXTS"
  using memory_bounded[OF demo_atomic] by (simp add: demo_server_shared)

theorem originals_stay_witness: "sqlite_sound (sh_store demo_shared_end) \<and> readable (sh_store demo_shared_end)"
proof -
  have "ev_ops (demo_env no_upstream) = (\<lambda>t. sqlite_ops (int t))" by (simp add: demo_env_def)
  note stay = originals_stay[OF this demo_atomic]
  have "sqlite_sound (sh_store demo_shared)"
    "addressed (ev_sha256 (demo_env no_upstream)) (sqlite_entries (sh_store demo_shared))" "readable (sh_store demo_shared)"
    using sqlite_sound_empty
    by (simp_all add: demo_server_shared addressed_def sqlite_entries_def sqlite_in_memory_def readable_def)
  with stay show ?thesis by blast
qed

end
