(* ===== verification/Tee.thy ===== *)
theory Tee
  imports Process
begin

text \<open>
  The tee of a streamed SSE reply, \<open>response_to_axum\<close> of \<open>src/proxy.rs\<close> and the task
  \<open>run_sse_state_machine\<close> of \<open>src/sse.rs\<close>: the body stream hands every chunk to the client and
  tries to put a copy into a bounded queue; the spawned parser takes the copies out. The two
  run concurrently: each action of either is a step, in any order.
\<close>

section \<open>Stream, queue and parser\<close>

definition SSE_PARSER_QUEUE_DEPTH :: nat where
  "SSE_PARSER_QUEUE_DEPTH = 256"

text \<open>
  The chunks still to come, those the client has, the queue with its sender, and the parser:
  the chunks it took, its framer, the events it applied, and whether it has returned.
\<close>

record tee =
  te_source :: body_chunks
  te_client :: body_chunks
  te_queue :: "string list"
  te_sender :: bool
  te_taken :: "string list"
  te_framer :: sse_framer
  te_events :: "sse_event list"
  te_returned :: bool

definition tee_start :: "body_chunks \<Rightarrow> tee" where
  "tee_start chunks = \<lparr>te_source = chunks, te_client = [], te_queue = [], te_sender = True, te_taken = [],
     te_framer = framer_new, te_events = [], te_returned = False\<rparr>"

text \<open>\<open>try_send\<close>: a full queue refuses the chunk, which is then skipped.\<close>

definition try_send :: "string \<Rightarrow> string list \<Rightarrow> string list" where
  "try_send bytes queue = (if length queue < SSE_PARSER_QUEUE_DEPTH then queue @ [bytes] else queue)"

text \<open>The closure of \<open>stream.map\<close>, on one chunk.\<close>

fun tee_chunk :: "proxy_error + string \<Rightarrow> string list \<Rightarrow> string list" where
  "tee_chunk (Inr bytes) queue = try_send bytes queue"
| "tee_chunk (Inl err) queue = queue"

text \<open>
  The server polls the body; the stream is dropped, with the sender, when it has ended or the
  client has gone; \<open>rx.recv\<close> gives a chunk, which is framed and its events applied; \<open>rx.recv\<close>
  gives \<open>None\<close> once the queue is empty and the sender gone, and the parser returns.
\<close>

inductive tee_step :: "tee \<Rightarrow> tee \<Rightarrow> bool" where
  polled: "te_sender t \<Longrightarrow> te_source t = c # cs \<Longrightarrow>
     tee_step t (t\<lparr>te_source := cs, te_client := te_client t @ [c], te_queue := tee_chunk c (te_queue t)\<rparr>)"
| dropped: "te_sender t \<Longrightarrow> tee_step t (t\<lparr>te_sender := False\<rparr>)"
| parsed: "\<not> te_returned t \<Longrightarrow> te_queue t = bytes # rest \<Longrightarrow> ready_events (framer_push bytes (te_framer t)) = (events, f) \<Longrightarrow>
     tee_step t (t\<lparr>te_queue := rest, te_taken := te_taken t @ [bytes], te_framer := f, te_events := te_events t @ events\<rparr>)"
| returned: "\<not> te_returned t \<Longrightarrow> te_queue t = [] \<Longrightarrow> \<not> te_sender t \<Longrightarrow> tee_step t (t\<lparr>te_returned := True\<rparr>)"

inductive_cases tee_stepE: "tee_step t t'"

section \<open>The invariant\<close>

fun framer_after :: "sse_framer \<Rightarrow> string list \<Rightarrow> sse_framer" where
  "framer_after f [] = f"
| "framer_after f (c # cs) = framer_after (snd (ready_events (framer_push c f))) cs"

lemma framed_events_append: "framed_events f (cs @ ds) = framed_events f cs @ framed_events (framer_after f cs) ds"
  by (induction cs arbitrary: f) (auto split: prod.split)

lemma framer_after_append: "framer_after f (cs @ ds) = framer_after (framer_after f cs) ds"
  by (induction cs arbitrary: f) auto

lemma ok_chunks_append [simp]: "ok_chunks (cs @ ds) = ok_chunks cs @ ok_chunks ds"
  by (simp add: ok_chunks_def List.map_filter_def)

lemma ok_chunks_single [simp]: "ok_chunks [Inr b] = [b]" "ok_chunks [Inl e] = []"
  by (simp_all add: ok_chunks_def List.map_filter_def)

definition tee_ok :: "body_chunks \<Rightarrow> tee \<Rightarrow> bool" where
  "tee_ok chunks t \<longleftrightarrow> te_client t @ te_source t = chunks
     \<and> length (te_queue t) \<le> SSE_PARSER_QUEUE_DEPTH
     \<and> subseq (te_taken t @ te_queue t) (ok_chunks (te_client t))
     \<and> te_framer t = framer_after framer_new (te_taken t)
     \<and> te_events t = framed_events framer_new (te_taken t)
     \<and> (te_returned t \<longrightarrow> te_queue t = [] \<and> \<not> te_sender t)"

lemma tee_ok_start: "tee_ok chunks (tee_start chunks)"
  by (simp add: tee_ok_def tee_start_def)

lemma tee_chunk_subseq:
  "subseq (taken @ queue) ok \<Longrightarrow> subseq (taken @ tee_chunk c queue) (ok @ ok_chunks [c])"
proof (cases c)
  case (Inr b)
  assume s: "subseq (taken @ queue) ok"
  have "subseq ((taken @ queue) @ [b]) (ok @ [b])" using s by (simp only: subseq_append)
  then show ?thesis using Inr subseq_rev_drop_many[OF s, of "[b]"] by (simp add: try_send_def)
qed simp

lemma tee_chunk_length: "length queue \<le> SSE_PARSER_QUEUE_DEPTH \<Longrightarrow> length (tee_chunk c queue) \<le> SSE_PARSER_QUEUE_DEPTH"
  by (cases c) (auto simp: try_send_def)

lemma tee_ok_step: "tee_step t t' \<Longrightarrow> tee_ok chunks t \<Longrightarrow> tee_ok chunks t'"
proof (induction rule: tee_step.induct)
  case (polled t c cs)
  then show ?case using tee_chunk_subseq[of "te_taken t" "te_queue t" "ok_chunks (te_client t)" c] tee_chunk_length
    by (auto simp: tee_ok_def)
qed (auto simp: tee_ok_def framed_events_append framer_after_append)

lemma tee_ok_steps: "tee_step\<^sup>*\<^sup>* (tee_start chunks) t \<Longrightarrow> tee_ok chunks t"
  by (induction rule: rtranclp_induct) (auto simp: tee_ok_start dest: tee_ok_step)

section \<open>What the client sees, and what the parser does\<close>

text \<open>As long as the queue is never full nothing is skipped.\<close>

lemma tee_lossless_step:
  assumes "tee_step t t'" "tee_ok chunks t" "length (ok_chunks chunks) \<le> SSE_PARSER_QUEUE_DEPTH"
    and "te_taken t @ te_queue t = ok_chunks (te_client t)"
  shows "te_taken t' @ te_queue t' = ok_chunks (te_client t')"
  using assms(1)
proof cases
  case (polled c cs)
  show ?thesis
  proof (cases c)
    case (Inr b)
    have "chunks = te_client t @ Inr b # cs" using assms(2) polled(3) Inr by (simp add: tee_ok_def)
    then have "ok_chunks chunks = ok_chunks (te_client t) @ ok_chunks [Inr b] @ ok_chunks cs"
      by (metis append_Cons append_Nil ok_chunks_append)
    then have "length (te_queue t) < SSE_PARSER_QUEUE_DEPTH" using assms(3) arg_cong[OF assms(4), of length] by simp
    then show ?thesis using polled(1) Inr assms(4) by (simp add: try_send_def)
  qed (use polled(1) assms(4) in simp)
qed (use assms(4) in simp_all)

lemma tee_lossless:
  assumes "tee_step\<^sup>*\<^sup>* (tee_start chunks) t" "length (ok_chunks chunks) \<le> SSE_PARSER_QUEUE_DEPTH"
  shows "te_taken t @ te_queue t = ok_chunks (te_client t)"
  using assms(1)
proof (induction rule: rtranclp_induct)
  case base
  then show ?case by (simp add: tee_start_def ok_chunks_def List.map_filter_def)
next
  case (step t1 t2)
  then show ?case using tee_lossless_step[OF step.hyps(2) tee_ok_steps[OF step.hyps(1)] assms(2)] by simp
qed

text \<open>
  C24: The tee is transparent. However stream and parser are scheduled, the client gets the
  chunks of the reply, errors included, in order and unchanged; at most
  \<open>SSE_PARSER_QUEUE_DEPTH\<close> chunks are queued; the parser has seen a subsequence of what the
  client got, all of it when it has returned after a stream of at most that many chunks, and
  has applied exactly the events of what it saw.
\<close>

theorem tee_transparent:
  assumes "tee_step\<^sup>*\<^sup>* (tee_start chunks) t"
  shows "te_client t @ te_source t = chunks \<and> length (te_queue t) \<le> SSE_PARSER_QUEUE_DEPTH
    \<and> subseq (te_taken t) (ok_chunks (te_client t)) \<and> te_events t = framed_events framer_new (te_taken t)
    \<and> (te_returned t \<and> length (ok_chunks chunks) \<le> SSE_PARSER_QUEUE_DEPTH \<longrightarrow> te_taken t = ok_chunks (te_client t))"
proof -
  have ok: "tee_ok chunks t" by (rule tee_ok_steps[OF assms])
  then have "subseq (te_taken t) (ok_chunks (te_client t))"
    unfolding tee_ok_def by (metis list_emb_append2 subseq_order.trans subseq_rev_drop_many subseq_order.order_refl)
  moreover have "te_returned t \<and> length (ok_chunks chunks) \<le> SSE_PARSER_QUEUE_DEPTH \<longrightarrow> te_taken t = ok_chunks (te_client t)"
    using ok tee_lossless[OF assms] by (auto simp: tee_ok_def)
  ultimately show ?thesis using ok by (simp add: tee_ok_def)
qed

text \<open>What the parser took when it returned is a run of the spawned task in the process.\<close>

lemma tee_task:
  assumes "tee_step\<^sup>*\<^sup>* (tee_start chunks) t" "task \<in> set (sv_tasks sv)" "st_chunks task = ok_chunks chunks"
  shows "process_step E W sv ((run_sse_task E task (te_taken t) sv)\<lparr>sv_tasks :=
    remove1 task (sv_tasks (run_sse_task E task (te_taken t) sv))\<rparr>)"
proof (rule process_step.parsed[OF assms(2) _ refl])
  have ok: "tee_ok chunks t" by (rule tee_ok_steps[OF assms(1)])
  then have "ok_chunks chunks = ok_chunks (te_client t) @ ok_chunks (te_source t)"
    unfolding tee_ok_def by (metis ok_chunks_append)
  moreover have "subseq (te_taken t) (te_taken t @ te_queue t)" by (rule subseq_rev_drop_many) simp
  moreover have "subseq (te_taken t @ te_queue t) (ok_chunks (te_client t))" using ok by (simp add: tee_ok_def)
  ultimately show "subseq (te_taken t) (st_chunks task)"
    using assms(3) by (metis subseq_order.trans subseq_rev_drop_many)
qed

section \<open>The stream never waits\<close>

definition tee_measure :: "tee \<Rightarrow> nat" where
  "tee_measure t = 2 * length (te_source t) + length (te_queue t)
     + (if te_sender t then 1 else 0) + (if te_returned t then 0 else 1)"

lemma tee_measure_step: "tee_step t t' \<Longrightarrow> tee_measure t' < tee_measure t"
proof (induction rule: tee_step.induct)
  case (polled t c cs)
  then show ?case by (cases c) (auto simp: tee_measure_def try_send_def)
qed (auto simp: tee_measure_def)

lemma tee_measure_run: "(tee_step ^^ n) t t' \<Longrightarrow> n + tee_measure t' \<le> tee_measure t"
proof (induction n arbitrary: t')
  case (Suc n)
  then obtain u where "(tee_step ^^ n) t u" "tee_step u t'" by auto
  then show ?case using Suc.IH[of u] tee_measure_step[of u t'] by simp
qed simp

text \<open>
  C25: The tee ends and never holds up the client. A run takes at most two steps per chunk and
  two more; as long as the stream is not dropped its next chunk can be passed on, whatever
  the queue holds and whatever the parser does; and a run can go on until the stream is
  dropped and the parser has returned.
\<close>

theorem tee_ends:
  assumes "(tee_step ^^ n) (tee_start chunks) t"
  shows "n \<le> 2 * length chunks + 2
    \<and> (te_sender t \<and> te_source t \<noteq> [] \<longrightarrow> (\<exists>t'. tee_step t t' \<and> te_client t' = te_client t @ [hd (te_source t)]))
    \<and> ((\<exists>t'. tee_step t t') \<or> \<not> te_sender t \<and> te_returned t)"
proof (intro conjI)
  show "n \<le> 2 * length chunks + 2"
    using tee_measure_run[OF assms] by (simp add: tee_start_def tee_measure_def)
  show "te_sender t \<and> te_source t \<noteq> [] \<longrightarrow> (\<exists>t'. tee_step t t' \<and> te_client t' = te_client t @ [hd (te_source t)])"
  proof
    assume "te_sender t \<and> te_source t \<noteq> []"
    then have "te_sender t" "te_source t = hd (te_source t) # tl (te_source t)" by simp_all
    from tee_step.polled[OF this] show "\<exists>t'. tee_step t t' \<and> te_client t' = te_client t @ [hd (te_source t)]"
      by (intro exI conjI) (assumption, simp)
  qed
  show "(\<exists>t'. tee_step t t') \<or> \<not> te_sender t \<and> te_returned t"
  proof (cases "te_sender t \<or> te_returned t")
    case True
    then show ?thesis using tee_step.dropped by blast
  next
    case False
    then show ?thesis
      using tee_step.parsed[of t] tee_step.returned[of t] by (cases "te_queue t") (blast, metis prod.exhaust)
  qed
qed

section \<open>A stream of one chunk\<close>

definition demo_chunk :: "proxy_error + string" where
  "demo_chunk = Inr ''data: x''"

lemma demo_polled: "tee_step (tee_start [demo_chunk])
    (tee_start [demo_chunk]\<lparr>te_source := [], te_client := [demo_chunk], te_queue := [''data: x'']\<rparr>)"
  using tee_step.polled[of "tee_start [demo_chunk]" demo_chunk "[]"]
  by (simp add: tee_start_def demo_chunk_def try_send_def SSE_PARSER_QUEUE_DEPTH_def)

theorem tee_transparent_witness:
  "te_client (tee_start [demo_chunk]\<lparr>te_source := [], te_client := [demo_chunk], te_queue := [''data: x'']\<rparr>) = [demo_chunk]"
  using tee_transparent[OF r_into_rtranclp[of tee_step, OF demo_polled]] by (simp add: tee_start_def)

theorem tee_ends_witness:
  "\<exists>t t'. tee_step (tee_start [demo_chunk, demo_chunk]) t \<and> tee_step t t' \<and> te_client t' = [demo_chunk, demo_chunk]"
proof -
  let ?t = "tee_start [demo_chunk, demo_chunk]\<lparr>te_source := [demo_chunk], te_client := [demo_chunk],
    te_queue := [''data: x'']\<rparr>"
  have step: "tee_step (tee_start [demo_chunk, demo_chunk]) ?t"
    using tee_step.polled[of "tee_start [demo_chunk, demo_chunk]" demo_chunk "[demo_chunk]"]
    by (simp add: tee_start_def demo_chunk_def try_send_def SSE_PARSER_QUEUE_DEPTH_def)
  then have "(tee_step ^^ 1) (tee_start [demo_chunk, demo_chunk]) ?t" by (simp only: relpowp_1)
  from tee_ends[OF this] have "\<exists>t'. tee_step ?t t' \<and> te_client t' = [demo_chunk, demo_chunk]"
    by (simp add: tee_start_def)
  with step show ?thesis by blast
qed

end
