(* ===== verification/Router.thy ===== *)
theory Router
  imports Process
begin

text \<open>
  The router of \<open>src/proxy.rs\<close>: which handler serves which path and method. Matching a path
  against the table is the work of the \<open>axum\<close> library, here a parameter; what is documented
  of it, and used, is the law \<open>routes_ok\<close>.
\<close>

datatype endpoint =
    EpHealthz | EpHealthzUpstream | EpLivez | EpReadyz | EpHealth | EpMetrics | EpStats
  | EpCompressOnly | EpRetrievePost | EpRetrieveStats | EpRetrieveToolCall | EpRetrieveGet
  | EpProxyGet | EpProxyHttp

text \<open>\<open>build_router\<close>: the patterns in order, each with its handler for a method.\<close>

definition build_router :: "(string \<times> (string \<times> endpoint) list) list" where
  "build_router =
     [(''/healthz'', [(''GET'', EpHealthz)]),
      (''/healthz/upstream'', [(''GET'', EpHealthzUpstream)]),
      (''/livez'', [(''GET'', EpLivez)]),
      (''/readyz'', [(''GET'', EpReadyz)]),
      (''/health'', [(''GET'', EpHealth)]),
      (''/metrics'', [(''GET'', EpMetrics)]),
      (''/stats'', [(''GET'', EpStats)]),
      (''/v1/compress'', [(''POST'', EpCompressOnly)]),
      (''/v1/retrieve'', [(''POST'', EpRetrievePost)]),
      (''/v1/retrieve/stats'', [(''GET'', EpRetrieveStats)]),
      (''/v1/retrieve/tool_call'', [(''POST'', EpRetrieveToolCall)]),
      (''/v1/retrieve/{hash}'', [(''GET'', EpRetrieveGet)]),
      (''/{*path}'', [(''GET'', EpProxyGet), (''POST'', EpProxyHttp), (''PUT'', EpProxyHttp), (''PATCH'', EpProxyHttp),
         (''DELETE'', EpProxyHttp), (''HEAD'', EpProxyHttp), (''OPTIONS'', EpProxyHttp)])]"

definition router_fallback :: endpoint where
  "router_fallback = EpProxyHttp"

text \<open>
  What the library is documented to do: a pattern without parameters is matched by the path
  that equals it, and such a match comes first; \<open>{*path}\<close> takes any other path that is more
  than a slash, unless the path is one segment below \<open>/v1/retrieve/\<close>; a method that the
  matched pattern has no handler for is answered by the library (\<open>None\<close>), except that a \<open>HEAD\<close>
  is served by the handler for \<open>GET\<close>; a path that no pattern matches goes to the fallback.
\<close>

type_synonym route_lib = "string \<Rightarrow> string \<Rightarrow> endpoint option"

definition method_endpoint :: "(string \<times> endpoint) list \<Rightarrow> string \<Rightarrow> endpoint option" where
  "method_endpoint handlers http_method =
     (case map_of handlers http_method of
        Some e \<Rightarrow> Some e
      | None \<Rightarrow> if http_method = ''HEAD'' then map_of handlers ''GET'' else None)"

definition static_patterns :: "string list" where
  "static_patterns = filter (\<lambda>p. CHR ''{'' \<notin> set p) (map fst build_router)"

definition one_below_retrieve :: "string \<Rightarrow> bool" where
  "one_below_retrieve path =
     (case strip_prefix ''/v1/retrieve/'' path of
        Some hash \<Rightarrow> hash \<noteq> [] \<and> CHR ''/'' \<notin> set hash | None \<Rightarrow> False)"

definition pattern_of :: "string \<Rightarrow> string option" where
  "pattern_of path =
     (if path \<in> set static_patterns then Some path
      else if one_below_retrieve path then Some ''/v1/retrieve/{hash}''
      else if starts_with ''/'' path \<and> path \<noteq> ''/'' then Some ''/{*path}''
      else None)"

definition routes_ok :: "route_lib \<Rightarrow> bool" where
  "routes_ok route \<longleftrightarrow> (\<forall>http_method path. route http_method path =
     (case pattern_of path of
        None \<Rightarrow> Some router_fallback
      | Some pattern \<Rightarrow> Option.bind (map_of build_router pattern) (\<lambda>hs. method_endpoint hs http_method)))"

section \<open>What reaches the proxy\<close>

text \<open>
  A request the proxy would compress is never taken by an endpoint of the proxy's own: it
  reaches \<open>proxy_http_handler\<close>.
\<close>

lemma targets_reach_proxy:
  assumes "routes_ok route" "rq_target (classify_request http_method path) \<noteq> None"
  shows "route http_method path = Some EpProxyHttp"
proof -
  have post: "http_method = ''POST''" and target: "target_of_path path \<noteq> None"
    using assms(2) by (auto simp: classify_request_def Let_def split: if_splits)
  have "list_all (\<lambda>p. pattern_of p = Some ''/{*path}'') [''/v1/chat/completions'', ''/v1/responses'',
      ''/v1/codex/responses'', ''/backend-api/responses'', ''/backend-api/codex/responses'', ''/v1/messages/batches'',
      ''/v1/messages'']"
    by code_simp
  then have "pattern_of path = Some ''/{*path}''"
    using target by (simp add: target_of_path_def is_responses_path_def split: if_splits) blast+
  moreover have "Option.bind (map_of build_router ''/{*path}'') (\<lambda>hs. method_endpoint hs ''POST'') = Some EpProxyHttp"
    by code_simp
  ultimately show ?thesis using assms(1) post by (simp add: routes_ok_def)
qed

text \<open>A path of a pattern without parameters never reaches the proxy, whatever the method.\<close>

lemma own_paths_stay:
  assumes "routes_ok route" "path \<in> set static_patterns"
  shows "route http_method path \<notin> {Some EpProxyHttp, Some EpProxyGet}
    \<and> skipped_reason_for_path path None = Some ''reserved_proxy_endpoint''"
proof -
  have "list_all (\<lambda>p. skipped_reason_for_path p None = Some ''reserved_proxy_endpoint''
      \<and> list_all (\<lambda>(m, e). e \<noteq> EpProxyHttp \<and> e \<noteq> EpProxyGet) (the (map_of build_router p))
      \<and> map_of build_router p \<noteq> None) static_patterns"
    by code_simp
  then obtain hs where hs: "map_of build_router path = Some hs" "\<forall>(m, e) \<in> set hs. e \<noteq> EpProxyHttp \<and> e \<noteq> EpProxyGet"
    and reason: "skipped_reason_for_path path None = Some ''reserved_proxy_endpoint''"
    using assms(2) by (auto simp: list_all_iff)
  have "method_endpoint hs http_method \<noteq> Some e" if "e \<in> {EpProxyHttp, EpProxyGet}" for e
    using hs(2) that by (auto simp: method_endpoint_def split: option.splits if_splits dest!: map_of_SomeD)
  moreover have "route http_method path = method_endpoint hs http_method"
    using assms hs(1) by (simp add: routes_ok_def pattern_of_def)
  ultimately show ?thesis using reason by auto
qed

text \<open>
  The table of reserved paths is wider than the routes: a path two segments below
  \<open>/v1/retrieve/\<close> is called reserved, yet forwarded to an upstream.
\<close>

lemma reserved_path_forwarded:
  assumes "routes_ok route"
  shows "route ''POST'' ''/v1/retrieve/a/b'' = Some EpProxyHttp
    \<and> rq_skipped_reason (classify_request ''POST'' ''/v1/retrieve/a/b'') = Some ''reserved_proxy_endpoint''"
proof -
  have "pattern_of ''/v1/retrieve/a/b'' = Some ''/{*path}''" by code_simp
  moreover have "Option.bind (map_of build_router ''/{*path}'') (\<lambda>hs. method_endpoint hs ''POST'') = Some EpProxyHttp"
    by code_simp
  moreover have "rq_skipped_reason (classify_request ''POST'' ''/v1/retrieve/a/b'') = Some ''reserved_proxy_endpoint''"
    by code_simp
  ultimately show ?thesis using assms by (simp add: routes_ok_def)
qed

end
