(* ===== verification/Cli.thy ===== *)
theory Cli
  imports Compress Proxy_Headers
begin

text \<open>
  The command line of \<open>src/main.rs\<close>: what each command computes from its input text and the
  store, and what it prints. Parsing the arguments (\<open>clap\<close>), reading files, opening the
  database and serving are effects of libraries; a command starts here with its input read.
\<close>

datatype cli_command = CliCompress string | CliDecompressHash string | CliDecompress string | CliStats

text \<open>\<open>println!\<close>\<close>

definition line_out :: "string \<Rightarrow> string" where
  "line_out s = s @ [LF]"

definition stats_command ::
    "'s ccr_store_ops \<Rightarrow> (stats_snapshot \<Rightarrow> hr_error + string) \<Rightarrow> 's world \<Rightarrow> (hr_error + string) \<times> 's world" where
  "stats_command ops pretty w =
     (case count_op ops (the_store w) of
        Inl err \<Rightarrow> (Inl err, w)
      | Inr n \<Rightarrow>
          let (snap, s) = stats_with_ccr_entry_count n (the_stats w)
          in (map_sum id line_out (pretty snap), w\<lparr>the_stats := s\<rparr>))"

text \<open>
  The output, or the error the process ends with. \<open>pretty\<close> is \<open>to_string_pretty\<close> of a
  snapshot.
\<close>

definition run_command ::
    "(string \<Rightarrow> string) \<Rightarrow> 's ccr_store_ops \<Rightarrow> (stats_snapshot \<Rightarrow> hr_error + string) \<Rightarrow> cli_command
       \<Rightarrow> 's world \<Rightarrow> (hr_error + string) \<times> 's world" where
  "run_command sha256 ops pretty command w =
     (case command of
        CliCompress input \<Rightarrow>
          let (result, w) = compress sha256 ops 1 input w in
          (case cr_error result of
             Some err \<Rightarrow> (Inl (''compression failed: '' @ err), w)
           | None \<Rightarrow> (Inr (line_out (cr_output result)), w))
      | CliDecompressHash hash \<Rightarrow>
          (case decompress_hash ops hash w of
             (None, w) \<Rightarrow> (Inl (''hash not found: '' @ hash), w)
           | (Some original, w) \<Rightarrow> (Inr (line_out original), w))
      | CliDecompress input \<Rightarrow>
          let (result, w) = decompress_text ops input w in (Inr (line_out (dr_output result)), w)
      | CliStats \<Rightarrow> stats_command ops pretty w)"

section \<open>Where the store is\<close>

text \<open>\<open>PathBuf::join\<close>: an absolute path replaces, any other is appended below.\<close>

definition path_join :: "string \<Rightarrow> string \<Rightarrow> string" where
  "path_join base path =
     (if starts_with ''/'' path then path
      else if base = [] \<or> ends_with ''/'' base then base @ path
      else base @ ''/'' @ path)"

text \<open>\<open>HR_CCR_DB\<close> and \<open>HOME\<close>, as the environment has them.\<close>

definition default_ccr_db :: "string option \<Rightarrow> string option \<Rightarrow> string" where
  "default_ccr_db hr_ccr_db home =
     unwrap_or (path_join ''.hr'' ''ccr.sqlite'')
       (option_or hr_ccr_db (map_option (\<lambda>h. path_join (path_join h ''.hr'') ''ccr.sqlite'') home))"

text \<open>The flag, or \<open>HEADROOM_COMPRESS_USER_MESSAGES\<close>.\<close>

definition compress_user_text_flag :: "bool \<Rightarrow> string option \<Rightarrow> bool" where
  "compress_user_text_flag compress_user_messages variable \<longleftrightarrow> compress_user_messages
     \<or> unwrap_or False (map_option (\<lambda>v. v = ''1'' \<or> eq_ignore_ascii_case v ''true'') variable)"

section \<open>Properties\<close>

lemma compress_round_trip_output:
  assumes "digest_ok sha256" "sqlite_sound (the_store w)"
    and "compress sha256 (sqlite_ops now) min_bytes input w = (r, w')" "cr_stored r"
    and "sqlite_entries (the_store w) (content_hash sha256 input) \<in> {None, Some input}"
    and "\<not> lock_poisoned (the_store w')" "sql_fails (the_store w') SqlSelect = None"
    and "\<not> contains ''<<ccr:'' behind"
  shows "dr_output (fst (decompress_text (sqlite_ops now') (cr_output r @ behind) w')) = input @ behind"
proof -
  have reads: "reads_ok (sqlite_ops n) (sqlite_entries (the_store w')) (the_store w')" for n
    using assms(6,7) by (rule sqlite_reads_ok)
  have "dr_output (fst (decompress_text (sqlite_ops n) u w')) = expand (sqlite_entries (the_store w')) 0 u" for n u
    by (rule decompress_text_expand[OF reads])
  moreover have "\<not> contains ''<<ccr:'' []" by (simp add: starts_with_def)
  note sqlite.compress_round_trip[OF assms(1-5) reads map_le_refl this assms(8)]
  ultimately show ?thesis by (metis append_Nil)
qed

text \<open>
  The command line round trip. If compressing a text succeeds with a marker, decompressing
  what was printed prints the text again, followed by two line feeds: one that each of the
  two commands adds.
\<close>

theorem cli_round_trip:
  assumes "digest_ok sha256" "sqlite_sound (the_store w)" "trim input \<noteq> []"
    and "sqlite_entries (the_store w) (content_hash sha256 input) \<in> {None, Some input}"
    and "run_command sha256 (sqlite_ops now) pretty (CliCompress input) w = (Inr printed, w')"
    and "\<not> lock_poisoned (the_store w')" "sql_fails (the_store w') SqlSelect = None"
  shows "fst (run_command sha256 (sqlite_ops now') pretty (CliDecompress printed) w') = Inr (input @ [LF, LF])"
proof -
  obtain r w1 where run: "compress sha256 (sqlite_ops now) 1 input w = (r, w1)" by fastforce
  then have out: "printed = cr_output r @ [LF]" "w1 = w'" "cr_error r = None"
    using assms(5) by (auto simp: run_command_def line_out_def split: option.splits)
  have "\<not> length input < 1" using assms(3) by (cases input) (auto simp: trim_def drop_while_end_def)
  then have "cr_stored r"
    using run out(3) assms(3) by (auto simp: compress_def Let_def split: prod.splits sum.splits if_splits)
  moreover have "\<not> contains ''<<ccr:'' [LF]" by (simp add: starts_with_def LF_def)
  ultimately have "dr_output (fst (decompress_text (sqlite_ops now') printed w')) = input @ [LF]"
    using compress_round_trip_output[OF assms(1,2) run[unfolded out(2)] _ assms(4,6,7)] out(1) by simp
  then show ?thesis by (simp add: run_command_def line_out_def split_beta)
qed

theorem cli_round_trip_witness:
  "\<exists>printed w'. run_command const_digest (sqlite_ops 1) (\<lambda>s. Inr []) (CliCompress ''abc'') empty_world = (Inr printed, w')
     \<and> fst (run_command const_digest (sqlite_ops 2) (\<lambda>s. Inr []) (CliDecompress printed) w') = Inr (''abc'' @ [LF, LF])"
proof -
  have blank: "trim ''abc'' \<noteq> []"
    by (simp add: trim_def drop_while_end_def is_whitespace_def byte_def utf8_width_def)
  obtain r w' where run: "compress const_digest (sqlite_ops 1) 1 ''abc'' empty_world = (r, w')" by fastforce
  then have facts: "cr_error r = None" "\<not> lock_poisoned (the_store w')" "sql_fails (the_store w') SqlSelect = None"
    using blank by (auto simp: compress_def Let_def sqlite_ops_def sqlite_put_def empty_world_def sqlite_in_memory_def)
  have "sqlite_sound (the_store empty_world)"
    "sqlite_entries (the_store empty_world) (content_hash const_digest ''abc'') \<in> {None, Some ''abc''}"
    using sqlite_sound_empty by (simp_all add: empty_world_def sqlite_entries_def sqlite_in_memory_def)
  moreover have "run_command const_digest (sqlite_ops 1) (\<lambda>s. Inr []) (CliCompress ''abc'') empty_world
      = (Inr (line_out (cr_output r)), w')"
    using run facts(1) by (simp add: run_command_def)
  ultimately show ?thesis
    using cli_round_trip[OF digest_ok_const _ blank _ _ facts(2,3)] by blast
qed

end
