(* ===== verification/Files.thy ===== *)
theory Files
  imports Compress Headers
begin

text \<open>
  What the program reads of its surroundings: the files it is told to read, standard input,
  environment variables, and the database files that \<open>SqliteStore::open\<close> of \<open>src/ccr.rs\<close>
  opens. Which of these operations fail, and with what message, is part of the surroundings.
\<close>

record os =
  os_file :: "string \<Rightarrow> hr_error + string"
  os_stdin :: "hr_error + string"
  os_var :: "string \<Rightarrow> string option"
  os_mkdir :: "string \<Rightarrow> hr_error option"
  os_connect :: "string \<Rightarrow> hr_error option"
  os_bind :: "string \<Rightarrow> hr_error option"
  os_databases :: "string \<Rightarrow> sqlite_store option"

section \<open>Paths\<close>

definition is_separator :: "char \<Rightarrow> bool" where
  "is_separator c \<longleftrightarrow> c = CHR ''/''"

text \<open>
  \<open>Path::parent\<close>, for paths without \<open>.\<close> components: none of the empty path and of the root,
  else what is before the last component, trailing separators not counted.
\<close>

definition path_parent :: "string \<Rightarrow> string option" where
  "path_parent path =
     (let named = drop_while_end is_separator path in
      if named = [] then None
      else
        let before = drop_while_end (\<lambda>c. \<not> is_separator c) named;
            parent = drop_while_end is_separator before
        in Some (if before \<noteq> [] \<and> parent = [] then ''/'' else parent))"

text \<open>\<open>std::env::var\<close> is an error for a value that is not UTF-8, \<open>var_os\<close> is not.\<close>

definition env_var :: "os \<Rightarrow> string \<Rightarrow> string option" where
  "env_var os name = option_filter utf8_valid (os_var os name)"

section \<open>Input and database\<close>

definition read_input :: "os \<Rightarrow> string \<Rightarrow> hr_error + string" where
  "read_input os path = (if drop_while_end is_separator path = ''-'' then os_stdin os else os_file os path)"

text \<open>
  \<open>Connection::open\<close> creates a database that is not there. What is stored under a path is what
  the processes that had it open left.
\<close>

definition connect :: "os \<Rightarrow> string \<Rightarrow> hr_error + sqlite_store" where
  "connect os path =
     (case os_connect os path of
        Some e \<Rightarrow> Inl e
      | None \<Rightarrow> Inr (unwrap_or sqlite_in_memory (os_databases os path)))"

definition sqlite_open :: "os \<Rightarrow> string \<Rightarrow> hr_error + sqlite_store" where
  "sqlite_open os path =
     (let parent = option_filter (\<lambda>p. p \<noteq> []) (path_parent path) in
      case Option.bind parent (os_mkdir os) of
        Some e \<Rightarrow> Inl e
      | None \<Rightarrow>
          (case connect os path of
             Inl e \<Rightarrow> Inl e
           | Inr connection \<Rightarrow> sqlite_init connection))"

definition save :: "string \<Rightarrow> sqlite_store \<Rightarrow> os \<Rightarrow> os" where
  "save path st os = os\<lparr>os_databases := (os_databases os)(path \<mapsto> st)\<rparr>"

section \<open>Facts\<close>

lemma path_parent_examples:
  "path_parent ''/home/u/.hr/ccr.sqlite'' = Some ''/home/u/.hr''" "path_parent ''ccr.sqlite'' = Some []"
  "path_parent ''/ccr'' = Some ''/''" "path_parent ''/'' = None" "path_parent [] = None"
  by code_simp+

lemma sqlite_open_stored:
  assumes "sqlite_open os path = Inr st"
  shows "st = unwrap_or sqlite_in_memory (os_databases os path)"
  using assms by (auto simp: sqlite_open_def connect_def sqlite_init_def Let_def split: option.splits if_splits)

text \<open>A path that was opened is opened again, on what was saved there, as long as that works.\<close>

lemma sqlite_open_again:
  assumes "sqlite_open os path = Inr st" "\<not> lock_poisoned d" "sql_fails d SqlCreate = None"
  shows "sqlite_open (save path d os) path = Inr d"
  using assms by (auto simp: sqlite_open_def connect_def save_def sqlite_init_def Let_def split: option.splits if_splits)

end
