(* ===== verification/Startup.thy ===== *)
theory Startup
  imports Router Cli Files
begin

text \<open>
  How the proxy is configured and started: \<open>ProxyConfig\<close>, \<open>ProxyState::new\<close> and its builders and
  \<open>serve_proxy\<close> of \<open>src/proxy.rs\<close>, and the \<open>proxy\<close> subcommand of \<open>src/main.rs\<close>. Building the
  HTTP client is the library's; once the address is bound, the process is its initial state
  and goes on as \<open>Process\<close> says.
\<close>

section \<open>The state of a new process\<close>

definition DEFAULT_MAX_BODY_BYTES :: nat where
  "DEFAULT_MAX_BODY_BYTES = 25 * 1024 * 1024"

record proxy_config =
  pc_listen :: string
  pc_openai_upstream :: string
  pc_anthropic_upstream :: string
  pc_ccr_db :: string
  pc_log_level :: string
  pc_max_body_bytes :: nat
  pc_compression_enabled :: bool
  pc_compression_mode :: compression_mode
  pc_compress_user_text :: bool

text \<open>\<open>ProxyState::new\<close>: \<open>E\<close> has the libraries; the fields of the configuration get their defaults.\<close>

definition proxy_state_new :: "string \<Rightarrow> string \<Rightarrow> ('s, 'u) server_env \<Rightarrow> ('s, 'u) server_env" where
  "proxy_state_new openai anthropic E =
     E\<lparr>ev_openai_upstream := openai, ev_anthropic_upstream := anthropic,
       ev_max_body_bytes := DEFAULT_MAX_BODY_BYTES, ev_compression_enabled := True,
       ev_compression_mode := ModeCcr, ev_compress_user_text := False\<rparr>"

definition with_max_body_bytes :: "nat \<Rightarrow> ('s, 'u) server_env \<Rightarrow> ('s, 'u) server_env" where
  "with_max_body_bytes n E = E\<lparr>ev_max_body_bytes := n\<rparr>"

definition with_compression_enabled :: "bool \<Rightarrow> ('s, 'u) server_env \<Rightarrow> ('s, 'u) server_env" where
  "with_compression_enabled b E = E\<lparr>ev_compression_enabled := b\<rparr>"

definition with_compression_mode :: "compression_mode \<Rightarrow> ('s, 'u) server_env \<Rightarrow> ('s, 'u) server_env" where
  "with_compression_mode m E = E\<lparr>ev_compression_mode := m\<rparr>"

definition with_compress_user_text :: "bool \<Rightarrow> ('s, 'u) server_env \<Rightarrow> ('s, 'u) server_env" where
  "with_compress_user_text b E = E\<lparr>ev_compress_user_text := b\<rparr>"

definition configured :: "proxy_config \<Rightarrow> ('s, 'u) server_env \<Rightarrow> ('s, 'u) server_env" where
  "configured c E =
     with_compress_user_text (pc_compress_user_text c)
       (with_compression_mode (pc_compression_mode c)
         (with_compression_enabled (pc_compression_enabled c)
           (with_max_body_bytes (pc_max_body_bytes c)
             (proxy_state_new (pc_openai_upstream c) (pc_anthropic_upstream c) E))))"

text \<open>The shared state of a new process over an opened store; the id counter starts at 1.\<close>

definition new_server :: "'s \<Rightarrow> stats \<Rightarrow> 'u \<Rightarrow> ('s, 'u) server" where
  "new_server store counters net =
     \<lparr>sv_world = \<lparr>the_store = store, the_stats = counters\<rparr>, sv_trackers = inner_default, sv_batches = [],
      sv_counter = 1, sv_ticks = 0, sv_tasks = [], sv_net = net\<rparr>"

text \<open>
  The database is opened, the state built, the address bound; what then serves is the
  configured environment and the new state. The counters of a process start at zero.
\<close>

definition serve_proxy ::
    "os \<Rightarrow> proxy_config \<Rightarrow> (sqlite_store, 'u) server_env \<Rightarrow> 'u
       \<Rightarrow> hr_error + (sqlite_store, 'u) server_env \<times> (sqlite_store, 'u) server" where
  "serve_proxy os c E net =
     (case sqlite_open os (pc_ccr_db c) of
        Inl e \<Rightarrow> Inl e
      | Inr store \<Rightarrow>
          (case os_bind os (pc_listen c) of
             Some e \<Rightarrow> Inl e
           | None \<Rightarrow> Inr (configured c E, new_server store stats_default net)))"

section \<open>The proxy command\<close>

record proxy_args =
  pa_listen :: string
  pa_openai_upstream :: string
  pa_anthropic_upstream :: string
  pa_ccr_db :: string
  pa_log_level :: string
  pa_max_body_bytes :: nat
  pa_compression :: bool
  pa_compression_mode :: string
  pa_compress_user_messages :: bool

text \<open>
  \<open>init_tracing\<close> and \<open>Url::parse\<close> are the libraries'; \<open>var\<close> is the environment variable. The
  first argument that is not accepted ends the command.
\<close>

definition proxy_command ::
    "(string \<Rightarrow> hr_error + unit) \<Rightarrow> (string \<Rightarrow> hr_error + string) \<Rightarrow> string option \<Rightarrow> proxy_args
       \<Rightarrow> hr_error + proxy_config" where
  "proxy_command init_tracing parse_url var args =
     (case init_tracing (pa_log_level args) of
        Inl err \<Rightarrow> Inl err
      | Inr _ \<Rightarrow>
          (case parse_url (pa_openai_upstream args) of
             Inl err \<Rightarrow> Inl err
           | Inr openai \<Rightarrow>
               (case parse_url (pa_anthropic_upstream args) of
                  Inl err \<Rightarrow> Inl err
                | Inr anthropic \<Rightarrow>
                    (case mode_parse (pa_compression_mode args) of
                       Inl err \<Rightarrow> Inl err
                     | Inr m \<Rightarrow> Inr \<lparr>pc_listen = pa_listen args, pc_openai_upstream = openai,
                         pc_anthropic_upstream = anthropic, pc_ccr_db = pa_ccr_db args, pc_log_level = pa_log_level args,
                         pc_max_body_bytes = pa_max_body_bytes args, pc_compression_enabled = pa_compression args,
                         pc_compression_mode = m,
                         pc_compress_user_text = compress_user_text_flag (pa_compress_user_messages args) var\<rparr>))))"

section \<open>What the flags do\<close>

text \<open>
  A started proxy that gets a known JSON request without the bypass header buffers it for
  compression exactly when compression is on and the mode is one of the five names of \<open>ccr\<close>,
  up to case and surrounding white space.
\<close>

lemma flags_enable_compression:
  assumes "proxy_command init_tracing parse_url var args = Inr c"
    and "\<not> compression_bypass_requested (ev_http E) hs" "is_application_json (ev_http E) hs"
  shows "bypass_reason (configured c E) hs = None \<longleftrightarrow> pa_compression args
    \<and> to_ascii_lowercase (trim (pa_compression_mode args)) \<in> {''ccr'', ''compress'', ''compression'', ''on'', ''auto''}"
proof -
  have m: "mode_parse (pa_compression_mode args) = Inr (pc_compression_mode c)"
    "pc_compression_enabled c = pa_compression args"
    using assms(1) by (auto simp: proxy_command_def split: sum.splits)
  have "pc_compression_mode c = ModeCcr \<longleftrightarrow>
      to_ascii_lowercase (trim (pa_compression_mode args)) \<in> {''ccr'', ''compress'', ''compression'', ''on'', ''auto''}"
    using m(1) by (auto simp: mode_parse_def Let_def split: if_splits)
  moreover have "bypass_reason (configured c E) hs = None \<longleftrightarrow> pa_compression args \<and> pc_compression_mode c = ModeCcr"
    using assms(2,3) m(2)
    by (auto simp: bypass_reason_def configured_def proxy_state_new_def with_max_body_bytes_def
        with_compression_enabled_def with_compression_mode_def with_compress_user_text_def allows_compression_def)
  ultimately show ?thesis by blast
qed

text \<open>A new process satisfies what the invariants of the whole process start from.\<close>

lemma new_server_ok: "betas_ok (sv_trackers (new_server st s u)) \<and> batches_ok (sv_batches (new_server st s u))"
  by (simp add: new_server_def betas_ok_default batches_ok_def)

end
