(* ===== verification/Program.thy ===== *)
theory Program
  imports Startup Process_Safety
begin

text \<open>
  The program, \<open>main\<close> of \<open>src/main.rs\<close>: a command, its surroundings before and after, and how it
  ends. Parsing the arguments is \<open>clap\<close>'s, which makes a value of type \<open>hr_command\<close>.
\<close>

section \<open>Commands\<close>

datatype hr_command =
    HrCompress string
  | HrDecompress "string option" "string option"
  | HrProxy proxy_args
  | HrStats

datatype 'u hr_end =
    Printed string
  | Failed hr_error
  | Serves "(sqlite_store, 'u) server_env" "(sqlite_store, 'u) server"

text \<open>
  The libraries: those of the proxy, the clock, \<open>to_string_pretty\<close>, \<open>init_tracing\<close>, \<open>Url::parse\<close>
  and the upstreams.
\<close>

record 'u program_lib =
  pl_env :: "(sqlite_store, 'u) server_env"
  pl_clock :: i64
  pl_pretty :: "stats_snapshot \<Rightarrow> hr_error + string"
  pl_init_tracing :: "string \<Rightarrow> hr_error + unit"
  pl_parse_url :: "string \<Rightarrow> hr_error + string"
  pl_net :: 'u

definition ccr_db_path :: "os \<Rightarrow> string" where
  "ccr_db_path os = default_ccr_db (os_var os ''HR_CCR_DB'') (os_var os ''HOME'')"

definition fresh_world :: "sqlite_store \<Rightarrow> sqlite_store world" where
  "fresh_world store = \<lparr>the_store = store, the_stats = stats_default\<rparr>"

text \<open>A command on the store it opened; what it leaves there is in the file.\<close>

definition run_on :: "'u program_lib \<Rightarrow> cli_command \<Rightarrow> sqlite_store \<Rightarrow> os \<Rightarrow> 'u hr_end \<times> os" where
  "run_on L command store os =
     (let (result, w) = run_command (ev_sha256 (pl_env L)) (sqlite_ops (pl_clock L)) (pl_pretty L) command (fresh_world store)
      in (case result of Inl e \<Rightarrow> Failed e | Inr out \<Rightarrow> Printed out, save (ccr_db_path os) (the_store w) os))"

definition with_store :: "os \<Rightarrow> (sqlite_store \<Rightarrow> 'u hr_end \<times> os) \<Rightarrow> 'u hr_end \<times> os" where
  "with_store os f = (case sqlite_open os (ccr_db_path os) of Inl e \<Rightarrow> (Failed e, os) | Inr store \<Rightarrow> f store)"

definition hr_main :: "'u program_lib \<Rightarrow> hr_command \<Rightarrow> os \<Rightarrow> 'u hr_end \<times> os" where
  "hr_main L command os =
     (case command of
        HrCompress path \<Rightarrow>
          (case read_input os path of
             Inl e \<Rightarrow> (Failed e, os)
           | Inr input \<Rightarrow> with_store os (\<lambda>store. run_on L (CliCompress input) store os))
      | HrDecompress hash path \<Rightarrow>
          with_store os (\<lambda>store.
            case hash of
              Some h \<Rightarrow> run_on L (CliDecompressHash h) store os
            | None \<Rightarrow>
                (case path of
                   None \<Rightarrow> (Printed [], save (ccr_db_path os) store os)
                 | Some path \<Rightarrow>
                     (case read_input os path of
                        Inl e \<Rightarrow> (Failed e, save (ccr_db_path os) store os)
                      | Inr input \<Rightarrow> run_on L (CliDecompress input) store os)))
      | HrProxy args \<Rightarrow>
          (case proxy_command (pl_init_tracing L) (pl_parse_url L) (env_var os ''HEADROOM_COMPRESS_USER_MESSAGES'') args of
             Inl e \<Rightarrow> (Failed e, os)
           | Inr c \<Rightarrow>
               (case serve_proxy os c (pl_env L) (pl_net L) of
                  Inl e \<Rightarrow> (Failed e, os)
                | Inr (E, sv) \<Rightarrow> (Serves E sv, save (pc_ccr_db c) (the_store (sv_world sv)) os)))
      | HrStats \<Rightarrow> with_store os (\<lambda>store. run_on L CliStats store os))"

section \<open>From one process to another\<close>

lemma compress_puts:
  assumes "compress sha256 ops min_bytes input w = (r, w')" "cr_stored r"
  shows "the_store w' = snd (put_op ops (content_hash sha256 input) input (the_store w))"
  using assms by (auto simp: compress_def Let_def skipped_def split: if_splits sum.splits prod.splits)

lemma put_op_sqlite: "put_op (sqlite_ops now) = sqlite_put now"
  by (simp add: sqlite_ops_def)

lemma compress_command_prints:
  assumes "hr_main L (HrCompress p) os = (Printed printed, os1)" "read_input os p = Inr input" "trim input \<noteq> []"
    and "sqlite_open os (ccr_db_path os) = Inr st"
  obtains r w where "compress (ev_sha256 (pl_env L)) (sqlite_ops (pl_clock L)) 1 input (fresh_world st) = (r, w)"
    "cr_stored r" "printed = cr_output r @ [LF]" "os_databases os1 (ccr_db_path os) = Some (the_store w)"
proof -
  obtain r w where run: "compress (ev_sha256 (pl_env L)) (sqlite_ops (pl_clock L)) 1 input (fresh_world st) = (r, w)"
    by fastforce
  then have out: "printed = cr_output r @ [LF]" "cr_error r = None" "os_databases os1 (ccr_db_path os) = Some (the_store w)"
    using assms(1,2,4)
    by (auto simp: hr_main_def with_store_def run_on_def run_command_def line_out_def save_def split: option.splits)
  have "\<not> length input < 1" using assms(3) by (cases input) (auto simp: trim_def drop_while_end_def)
  then have "cr_stored r"
    using run out(2) assms(3) by (auto simp: compress_def Let_def split: prod.splits sum.splits if_splits)
  with run out that show thesis by blast
qed

lemma decompress_command_prints:
  assumes "sqlite_open os (ccr_db_path os) = Inr d" "read_input os q = Inr text"
  shows "fst (hr_main L (HrDecompress None (Some q)) os)
    = Printed (dr_output (fst (decompress_text (sqlite_ops (pl_clock L)) text (fresh_world d))) @ [LF])"
  using assms by (simp add: hr_main_def with_store_def run_on_def run_command_def line_out_def split_beta)

text \<open>
  C10: The round trip from process to process. If \<open>hr compress\<close> printed a marker for a text, then
  whatever other processes put into the database file afterwards, \<open>hr decompress\<close> of a file
  that holds what was printed prints the text again, followed by the two line feeds that the
  two commands add - if the database can be opened and read, and held no other text under
  the hash of this one.
\<close>

theorem process_round_trip:
  assumes "digest_ok (ev_sha256 (pl_env L))" "hr_main L (HrCompress p) os = (Printed printed, os1)"
    and "read_input os p = Inr input" "trim input \<noteq> []"
    and "sqlite_open os (ccr_db_path os) = Inr st" "consistent (ev_sha256 (pl_env L)) st"
    and "sqlite_entries st (content_hash (ev_sha256 (pl_env L)) input) \<in> {None, Some input}"
    and "os_databases os1 (ccr_db_path os) = Some d1" "(put_step (ev_sha256 (pl_env L)))\<^sup>*\<^sup>* d1 d2"
    and "sqlite_open os2 (ccr_db_path os2) = Inr d2" "readable d2" "read_input os2 q = Inr printed"
  shows "fst (hr_main L2 (HrDecompress None (Some q)) os2) = Printed (input @ [LF, LF])"
proof -
  let ?sha = "ev_sha256 (pl_env L)" and ?ops = "sqlite_ops (pl_clock L)"
  obtain r w where run: "compress ?sha ?ops 1 input (fresh_world st) = (r, w)" "cr_stored r"
    and out: "printed = cr_output r @ [LF]" "os_databases os1 (ccr_db_path os) = Some (the_store w)"
    by (rule compress_command_prints[OF assms(2-5)])
  have st: "sqlite_sound (the_store (fresh_world st))" "addressed ?sha (sqlite_entries st)"
    using assms(6) by (simp_all add: consistent_def fresh_world_def)
  have "put_step ?sha st (the_store w)"
    using compress_puts[OF run] unfolding put_step_def by (metis fresh_world_def put_op_sqlite world.select_convs(1))
  then have "consistent ?sha (the_store w)" using put_step_keeps[OF _ assms(6)] by blast
  then have later: "sqlite_entries (the_store w) \<subseteq>\<^sub>m sqlite_entries d2"
    using put_steps_keep[OF assms(9)] out(2) assms(8) by simp
  have reads: "reads_ok (sqlite_ops n) (sqlite_entries d2) (the_store (fresh_world d2))" for n
    using assms(11) sqlite_reads_ok[of d2 n] by (simp add: readable_def fresh_world_def)
  have "dr_output (fst (decompress_text ?ops ([] @ cr_output r @ [LF]) (fresh_world d2))) = [] @ input @ [LF]"
    using reads later assms(7)
    by (intro sqlite.compress_round_trip[OF assms(1) st(1) run]) (simp_all add: fresh_world_def starts_with_def LF_def)
  moreover have "dr_output (fst (decompress_text (sqlite_ops n) u (fresh_world d2))) = expand (sqlite_entries d2) 0 u" for n u
    by (rule decompress_text_expand[OF reads])
  ultimately have "dr_output (fst (decompress_text (sqlite_ops (pl_clock L2)) printed (fresh_world d2))) = input @ [LF]"
    by (simp add: out(1))
  then show ?thesis by (simp add: decompress_command_prints[OF assms(10,12)])
qed

text \<open>Two processes on one database, a third putting a text in between.\<close>

definition demo_lib :: "unit program_lib" where
  "demo_lib = \<lparr>pl_env = demo_env no_upstream, pl_clock = 1, pl_pretty = (\<lambda>_. Inr []), pl_init_tracing = (\<lambda>_. Inr ()),
     pl_parse_url = Inr, pl_net = ()\<rparr>"

definition demo_os :: "string \<Rightarrow> sqlite_store option \<Rightarrow> os" where
  "demo_os text d = \<lparr>os_file = (\<lambda>_. Inr text), os_stdin = Inr [], os_var = (\<lambda>_. None), os_mkdir = (\<lambda>_. None),
     os_connect = (\<lambda>_. None), os_bind = (\<lambda>_. None), os_databases = (\<lambda>_. d)\<rparr>"

lemma demo_os_open: "sqlite_init d = Inr d \<Longrightarrow> sqlite_open (demo_os text (Some d)) path = Inr d"
  by (simp add: sqlite_open_def connect_def demo_os_def split: option.split)

lemma demo_os_read: "read_input (demo_os text d) ''f'' = Inr text"
  by (simp add: read_input_def demo_os_def drop_while_end_def is_separator_def)

theorem process_round_trip_witness:
  "\<exists>printed os1 d. hr_main demo_lib (HrCompress ''f'') (demo_os ''abc'' (Some sqlite_in_memory)) = (Printed printed, os1)
     \<and> fst (hr_main demo_lib (HrDecompress None (Some ''f'')) (demo_os printed (Some d))) = Printed (''abc'' @ [LF, LF])"
proof -
  let ?os = "demo_os ''abc'' (Some sqlite_in_memory)" and ?sha = "ev_sha256 (pl_env demo_lib)"
  have sha: "?sha = const_digest" by (simp add: demo_lib_def demo_env_def)
  have blank: "trim ''abc'' \<noteq> []"
    by (simp add: trim_def drop_while_end_def is_whitespace_def byte_def utf8_width_def)
  have opened: "sqlite_open ?os (ccr_db_path ?os) = Inr sqlite_in_memory"
    by (rule demo_os_open) (rule sqlite_in_memory_init)
  obtain r w where run: "compress const_digest (sqlite_ops 1) 1 ''abc'' (fresh_world sqlite_in_memory) = (r, w)" by fastforce
  then have facts: "cr_error r = None" "readable (the_store w)" "sqlite_init (the_store w) = Inr (the_store w)"
    using blank by (auto simp: compress_def Let_def sqlite_ops_def sqlite_put_def fresh_world_def sqlite_in_memory_def
        readable_def sqlite_init_def)
  let ?os1 = "save (ccr_db_path ?os) (the_store w) ?os"
  have main: "hr_main demo_lib (HrCompress ''f'') ?os = (Printed (cr_output r @ [LF]), ?os1)"
    using run facts(1) opened
    by (simp add: hr_main_def demo_os_read with_store_def run_on_def run_command_def sha)
      (simp add: demo_lib_def line_out_def)
  have empty: "consistent ?sha sqlite_in_memory" "sqlite_entries sqlite_in_memory h \<in> {None, Some ''abc''}" for h
    using sqlite_sound_empty by (simp_all add: consistent_def addressed_def sqlite_entries_def sqlite_in_memory_def)
  have "os_databases ?os1 (ccr_db_path ?os) = Some (the_store w)" by (simp add: save_def)
  note process_round_trip[OF digest_ok_const[folded sha] main demo_os_read blank opened empty this rtranclp.rtrancl_refl
      demo_os_open[OF facts(3)] facts(2) demo_os_read]
  with main show ?thesis by blast
qed

section \<open>Starting and running\<close>

lemma configured_frame:
  "ev_ops (configured c E) = ev_ops E" "ev_sha256 (configured c E) = ev_sha256 E"
  "ev_max_body_bytes (configured c E) = pc_max_body_bytes c"
  by (simp_all add: configured_def proxy_state_new_def with_max_body_bytes_def with_compression_enabled_def
      with_compression_mode_def with_compress_user_text_def)

lemma proxy_command_serves:
  assumes "hr_main L (HrProxy args) os = (Serves E sv, os1)"
  obtains c where "E = configured c (pl_env L)" "pc_ccr_db c = pa_ccr_db args" "pc_max_body_bytes c = pa_max_body_bytes args"
    "sv = new_server (unwrap_or sqlite_in_memory (os_databases os (pa_ccr_db args))) stats_default (pl_net L)"
  using assms
  by (auto simp: hr_main_def serve_proxy_def proxy_command_def split: sum.splits option.splits dest!: sqlite_open_stored)

text \<open>
  C9: From the command line to any later state. When \<open>hr proxy\<close> serves, then in every state the
  process reaches the database is consistent and holds what the file held when it was opened,
  the memory of the process is bounded, and the body limit is the one of the command line.
\<close>

theorem started_process:
  assumes "hr_main L (HrProxy args) os = (Serves E sv, os1)" "ev_ops (pl_env L) = (\<lambda>t. sqlite_ops (clock t))"
    and "consistent (ev_sha256 (pl_env L)) (unwrap_or sqlite_in_memory (os_databases os (pa_ccr_db args)))"
    and "(process_step E W)\<^sup>*\<^sup>* sv sv'"
  shows "consistent (ev_sha256 (pl_env L)) (the_store (sv_world sv'))
    \<and> sqlite_entries (unwrap_or sqlite_in_memory (os_databases os (pa_ccr_db args))) \<subseteq>\<^sub>m sqlite_entries (the_store (sv_world sv'))
    \<and> length (betas (sv_trackers sv')) \<le> MAX_BETA_SESSIONS \<and> length (sv_batches sv') \<le> MAX_BATCH_CONTEXTS
    \<and> ev_max_body_bytes E = pa_max_body_bytes args"
proof -
  let ?st = "unwrap_or sqlite_in_memory (os_databases os (pa_ccr_db args))"
  obtain c where c: "E = configured c (pl_env L)" "pc_max_body_bytes c = pa_max_body_bytes args"
    and sv: "sv = new_server ?st stats_default (pl_net L)"
    by (rule proxy_command_serves[OF assms(1)])
  note run = steps_atomic[OF assms(4)]
  have "ev_ops E = (\<lambda>t. sqlite_ops (clock t))" by (simp add: c(1) configured_frame assms(2))
  from atomic_steps_put[OF run this] have "(put_step (ev_sha256 (pl_env L)))\<^sup>*\<^sup>* ?st (the_store (sv_world sv'))"
    by (simp add: c(1) configured_frame sv shared_of_def new_server_def)
  note put_steps_keep[OF this assms(3)]
  moreover have "betas_ok (sv_trackers sv') \<and> batches_ok (sv_batches sv')"
    using atomic_steps_memory[OF run] new_server_ok[of ?st stats_default "pl_net L"] by (simp add: shared_of_def sv)
  ultimately show ?thesis by (simp add: c configured_frame betas_ok_def batches_ok_def)
qed

definition demo_args :: proxy_args where
  "demo_args = \<lparr>pa_listen = ''127.0.0.1:1'', pa_openai_upstream = ''http://o'', pa_anthropic_upstream = ''http://a'',
     pa_ccr_db = ''d'', pa_log_level = ''info'', pa_max_body_bytes = 7, pa_compression = True,
     pa_compression_mode = ''off'', pa_compress_user_messages = False\<rparr>"

theorem started_process_witness:
  "\<exists>E sv os1. hr_main demo_lib (HrProxy demo_args) (demo_os [] (Some sqlite_in_memory)) = (Serves E sv, os1)
     \<and> ev_max_body_bytes E = 7"
proof -
  let ?os = "demo_os [] (Some sqlite_in_memory)"
  have "trim ''off'' = ''off''" by (rule trim_ascii) (simp_all add: is_ascii_def is_whitespace_def byte_def Let_def)
  moreover have "to_ascii_lowercase ''off'' = ''off''" by code_simp
  ultimately have mode: "mode_parse ''off'' = Inr ModeOff" by (simp add: mode_parse_def)
  have "\<exists>E sv os1. hr_main demo_lib (HrProxy demo_args) ?os = (Serves E sv, os1)"
    using demo_os_open[OF sqlite_in_memory_init, of "[]"] mode
    by (simp add: hr_main_def proxy_command_def serve_proxy_def demo_lib_def demo_args_def) (simp add: demo_os_def)
  then obtain E sv os1 where main: "hr_main demo_lib (HrProxy demo_args) ?os = (Serves E sv, os1)" by blast
  have ops: "ev_ops (pl_env demo_lib) = (\<lambda>t. sqlite_ops (int t))" by (simp add: demo_lib_def demo_env_def)
  have "consistent (ev_sha256 (pl_env demo_lib)) (unwrap_or sqlite_in_memory (os_databases ?os (pa_ccr_db demo_args)))"
    using sqlite_sound_empty
    by (simp add: consistent_def addressed_def sqlite_entries_def sqlite_in_memory_def demo_os_def)
  from started_process[OF main ops this, of demo_ws sv] main show ?thesis by (auto simp: demo_args_def)
qed

end
