(* ===== verification/Retention.thy ===== *)
theory Retention
  imports Process_Safety
begin

text \<open>
  What the process remembers, and how long, while it serves others: the operations of the
  session trackers (\<open>src/session.rs\<close>) and of the batch contexts (\<open>src/proxy.rs\<close>) come from many
  requests in any order. A run is a list of operations; the memory is a first-in, first-out
  list (batches) or a least-recently-used list (betas) of bounded length. Whatever handlers do
  to trackers and batch contexts is such a run (\<open>process_operations\<close>), so what is shown of all
  runs holds between any two operations of one handler.
\<close>

section \<open>Batch contexts\<close>

datatype batch_op = RecordBatch nat string json | LookUpBatch nat string

fun batch_apply :: "batch_op \<Rightarrow> batch_context_entry list \<Rightarrow> batch_context_entry list" where
  "batch_apply (RecordBatch now i body) b = record_batch_context now i body b"
| "batch_apply (LookUpBatch now i) b = snd (batch_context now i b)"

fun batch_time :: "batch_op \<Rightarrow> nat" where
  "batch_time (RecordBatch now i body) = now"
| "batch_time (LookUpBatch now i) = now"

fun records_batch :: "string \<Rightarrow> batch_op \<Rightarrow> bool" where
  "records_batch i (RecordBatch now j body) = (j = i)"
| "records_batch i (LookUpBatch now j) = False"

fun is_record :: "batch_op \<Rightarrow> bool" where
  "is_record (RecordBatch now j body) = True"
| "is_record (LookUpBatch now j) = False"

text \<open>The entry \<open>e\<close> is held, with at most \<open>n\<close> younger entries, none of the same batch.\<close>

definition holds_batch :: "batch_context_entry \<Rightarrow> nat \<Rightarrow> batch_context_entry list \<Rightarrow> bool" where
  "holds_batch e n b \<longleftrightarrow> (\<exists>xs ys. b = xs @ e # ys \<and> length ys \<le> n \<and> (\<forall>y \<in> set ys. bc_batch_id y \<noteq> bc_batch_id e))"

lemma holds_batch_filter:
  assumes "holds_batch e n b" "P e"
  shows "holds_batch e n (filter P b)"
proof -
  obtain xs ys where "b = xs @ e # ys" "length ys \<le> n" "\<forall>y \<in> set ys. bc_batch_id y \<noteq> bc_batch_id e"
    using assms(1) by (auto simp: holds_batch_def)
  then show ?thesis
    using assms(2) le_trans[OF length_filter_le[of P ys]] unfolding holds_batch_def
    by (intro exI[of _ "filter P xs"] exI[of _ "filter P ys"]) auto
qed

lemma holds_batch_evict:
  assumes "holds_batch e n b" "n < m"
  shows "holds_batch e n (evict_front m b)"
  using assms evict_front_keeps[of _ m] unfolding holds_batch_def by (metis le_less_trans)

lemma holds_batch_snoc: "holds_batch e n b \<Longrightarrow> bc_batch_id e' \<noteq> bc_batch_id e \<Longrightarrow> holds_batch e (Suc n) (b @ [e'])"
  unfolding holds_batch_def by fastforce

lemma holds_batch_mono: "holds_batch e n b \<Longrightarrow> n \<le> m \<Longrightarrow> holds_batch e m b"
  unfolding holds_batch_def by fastforce

lemma holds_batch_step:
  assumes "holds_batch e n b" "batch_time oper < bc_expires_at e" "\<not> records_batch (bc_batch_id e) oper"
    and "is_record oper \<longrightarrow> Suc n < MAX_BATCH_CONTEXTS"
  shows "holds_batch e (if is_record oper then Suc n else n) (batch_apply oper b)"
proof (cases oper)
  case (RecordBatch now i body)
  show ?thesis
  proof (cases "contexts_of body = []")
    case True
    then show ?thesis
      using RecordBatch holds_batch_mono[OF assms(1)] by (simp add: record_batch_context_cases)
  next
    case False
    have "holds_batch e n (filter (\<lambda>e. bc_expires_at e > now \<and> bc_batch_id e \<noteq> i) b)"
      by (rule holds_batch_filter[OF assms(1)]) (use assms(2,3) RecordBatch in auto)
    then show ?thesis
      using False RecordBatch assms(3,4) holds_batch_evict
      by (auto simp: record_batch_context_cases intro!: holds_batch_snoc)
  qed
next
  case (LookUpBatch now i)
  then show ?thesis
    using assms(2) holds_batch_filter[OF assms(1)] by (simp add: batch_context_def Let_def)
qed

lemma holds_batch_run:
  assumes "holds_batch e n b" "\<forall>oper \<in> set opers. batch_time oper < bc_expires_at e \<and> \<not> records_batch (bc_batch_id e) oper"
    and "n + length (filter is_record opers) < MAX_BATCH_CONTEXTS"
  shows "holds_batch e (n + length (filter is_record opers)) (fold batch_apply opers b)"
  using assms
proof (induction opers arbitrary: n b)
  case (Cons oper opers)
  have "holds_batch e (if is_record oper then Suc n else n) (batch_apply oper b)"
    by (rule holds_batch_step[OF Cons.prems(1)]) (use Cons.prems(2,3) in auto)
  from Cons.IH[OF this] Cons.prems(2,3) show ?case by (auto split: if_splits)
qed simp

lemma holds_batch_found:
  assumes "holds_batch e n b" "now < bc_expires_at e"
  shows "fst (batch_context now (bc_batch_id e) b) = Some (bc_contexts e)"
proof -
  obtain xs ys where b: "b = xs @ e # ys" "\<forall>y \<in> set ys. bc_batch_id y \<noteq> bc_batch_id e"
    using assms(1) by (auto simp: holds_batch_def)
  have "find (\<lambda>y. now < bc_expires_at y \<and> bc_batch_id y = bc_batch_id e) (rev ys) = None"
    using b(2) by (auto simp: find_None_iff)
  then show ?thesis using b(1) assms(2) by (simp add: batch_context_lookup batch_lookup_def find_append)
qed

text \<open>
  C40: A batch is remembered. After a batch with contexts was recorded, a lookup within a day
  finds exactly those contexts, whatever other lookups and recordings of other batches came in
  between, as long as these were fewer than \<open>MAX_BATCH_CONTEXTS\<close> recordings.
\<close>

theorem batch_context_survives:
  assumes "contexts_of body \<noteq> []" "t' < t + BATCH_CONTEXT_TTL"
    and "\<forall>oper \<in> set opers. batch_time oper < t + BATCH_CONTEXT_TTL \<and> \<not> records_batch i oper"
    and "length (filter is_record opers) < MAX_BATCH_CONTEXTS"
  shows "fst (batch_context t' i (fold batch_apply opers (record_batch_context t i body b))) = Some (contexts_of body)"
proof -
  let ?e = "\<lparr>bc_batch_id = i, bc_contexts = contexts_of body, bc_expires_at = t + BATCH_CONTEXT_TTL\<rparr>"
  have "holds_batch ?e 0 (record_batch_context t i body b)"
    using assms(1) by (auto simp: holds_batch_def record_batch_context_cases)
  from holds_batch_run[OF this, of opers] assms(3,4)
  have "holds_batch ?e (length (filter is_record opers)) (fold batch_apply opers (record_batch_context t i body b))" by simp
  from holds_batch_found[OF this] assms(2) show ?thesis by simp
qed

theorem batch_context_survives_witness:
  "fst (batch_context 9 ''b'' (fold batch_apply [RecordBatch 6 ''c'' demo_batch, LookUpBatch 7 ''c'']
     (record_batch_context 5 ''b'' demo_batch []))) = Some [(''c'', JNull)]"
proof -
  have contexts: "contexts_of demo_batch = [(''c'', JNull)]" by code_simp
  have "contexts_of demo_batch \<noteq> []" by (simp add: contexts)
  from batch_context_survives[OF this, of 9 5 "[RecordBatch 6 ''c'' demo_batch, LookUpBatch 7 ''c'']" "''b''" "[]"]
  show ?thesis by (simp add: contexts BATCH_CONTEXT_TTL_def NANOS_def MAX_BATCH_CONTEXTS_def)
qed

section \<open>Sticky betas\<close>

text \<open>The operations of the session trackers, with their clock readings and arguments.\<close>

datatype tracker_op =
    MergeBetas session_key "string option"
  | ReadFloor nat nat session_key
  | SeeResponse nat nat session_key u64 u64 "u64 list"

fun tracker_apply :: "tracker_op \<Rightarrow> inner \<Rightarrow> inner" where
  "tracker_apply (MergeBetas k v) st = snd (sticky_betas (fst k) (snd k) v st)"
| "tracker_apply (ReadFloor t0 t1 k) st = snd (frozen_message_count t0 t1 (fst k) (snd k) st)"
| "tracker_apply (SeeResponse t0 t1 k r w es) st = update_from_response t0 t1 (fst k) (snd k) r w es st"

fun merges_other :: "session_key \<Rightarrow> tracker_op \<Rightarrow> bool" where
  "merges_other k (MergeBetas k' v) = (k' \<noteq> k)"
| "merges_other k oper = False"

text \<open>
  The session \<open>k\<close> is held with a token for each of \<open>ts\<close>, and at most \<open>n\<close> sessions were used
  since it was.
\<close>

definition holds_betas :: "session_key \<Rightarrow> string list \<Rightarrow> nat \<Rightarrow> inner \<Rightarrow> bool" where
  "holds_betas k ts n st \<longleftrightarrow> betas_ok st \<and> (\<exists>xs ys stored. betas st = xs @ (k, stored) # ys \<and> length ys \<le> n
     \<and> (\<forall>t \<in> set ts. \<exists>s \<in> set stored. eq_ignore_ascii_case s t))"

lemma holds_betas_same: "holds_betas k ts n st \<Longrightarrow> betas st' = betas st \<Longrightarrow> holds_betas k ts n st'"
  by (simp add: holds_betas_def betas_ok_def)

lemma holds_betas_stored:
  assumes "holds_betas k ts n st" "t \<in> set ts"
  shows "\<exists>s \<in> set (stored_betas st k). eq_ignore_ascii_case s t"
proof -
  obtain xs ys stored where b: "betas st = xs @ (k, stored) # ys" "distinct (map fst (betas st))"
    and cover: "\<exists>s \<in> set stored. eq_ignore_ascii_case s t"
    using assms by (auto simp: holds_betas_def betas_ok_def)
  then have "map_of (betas st) k = Some stored" by (intro map_of_is_SomeI) simp_all
  then show ?thesis using cover by (simp add: stored_betas_def)
qed

text \<open>Merging for the session itself makes it the youngest and keeps its tokens.\<close>

lemma holds_betas_own:
  assumes "betas_ok st" "\<And>t. t \<in> set ts \<Longrightarrow> \<exists>s \<in> set (stored_betas st k @ comma_tokens (unwrap_or [] v)). eq_ignore_ascii_case s t"
  shows "holds_betas k ts 0 (snd (sticky_betas (fst k) (snd k) v st))"
proof -
  obtain out st' where run: "sticky_betas (fst k) (snd k) v st = (out, st')" by fastforce
  let ?client = "comma_tokens (unwrap_or [] v)" and ?stored = "stored_betas st (fst k, snd k)"
  note facts = sticky_betas_state[OF assms(1) run]
  obtain new where new: "merge_betas ?stored ?client = ?stored @ new" using merge_betas_extends by blast
  have "\<exists>s \<in> set (merge_betas ?stored ?client). eq_ignore_ascii_case s t" if t: "t \<in> set ts" for t
  proof -
    obtain s where s: "s \<in> set ?stored \<or> s \<in> set ?client" "eq_ignore_ascii_case s t" using assms(2)[OF t] by auto
    show ?thesis
    proof (cases "s \<in> set ?stored")
      case True
      then show ?thesis using s(2) new by auto
    next
      case False
      then obtain s' where "s' \<in> set (merge_betas ?stored ?client)" "eq_ignore_ascii_case s' s"
        using s(1) merge_betas_covers by blast
      then show ?thesis using s(2) by (auto simp: eq_ignore_ascii_case_def)
    qed
  qed
  moreover have "betas_ok st'" by (rule betas_ok_sticky[OF assms(1) run])
  ultimately show ?thesis
    using facts(5) run unfolding holds_betas_def by (metis length_0_conv le_numeral_extra(3) prod.collapse snd_conv)
qed

lemma holds_betas_other:
  assumes "holds_betas k ts n st" "k' \<noteq> k" "Suc n < MAX_BETA_SESSIONS"
  shows "holds_betas k ts (Suc n) (snd (sticky_betas (fst k') (snd k') v st))"
proof -
  obtain xs ys stored where b: "betas st = xs @ (k, stored) # ys" "length ys \<le> n"
    "\<forall>t \<in> set ts. \<exists>s \<in> set stored. eq_ignore_ascii_case s t" and ok: "betas_ok st"
    using assms(1) by (auto simp: holds_betas_def)
  obtain out st' where run: "sticky_betas (fst k') (snd k') v st = (out, st')" by fastforce
  let ?P = "\<lambda>(k'', _). k'' \<noteq> k'"
  have kept: "filter ?P (betas st) = filter ?P xs @ (k, stored) # filter ?P ys" using b(1) assms(2) by auto
  have fewer: "length (filter ?P ys) \<le> n" using b(2) length_filter_le[of ?P ys] by (rule le_trans[rotated])
  have len: "length (filter ?P ys) < MAX_BETA_SESSIONS - 1" using fewer assms(3) by linarith
  obtain xs' where "evict_front (MAX_BETA_SESSIONS - 1) (filter ?P (betas st)) = xs' @ (k, stored) # filter ?P ys"
    using evict_front_keeps[OF len] kept by metis
  then obtain merged where "betas st' = xs' @ (k, stored) # (filter ?P ys @ [(k', merged)])"
    using sticky_betas_state(5)[OF ok run] by simp
  moreover have "length (filter ?P ys @ [(k', merged)]) \<le> Suc n" using fewer by simp
  ultimately show ?thesis using betas_ok_sticky[OF ok run] b(3) run unfolding holds_betas_def by (metis snd_conv)
qed

lemma holds_betas_step:
  assumes "holds_betas k ts n st" "merges_other k oper \<longrightarrow> Suc n < MAX_BETA_SESSIONS"
  shows "holds_betas k ts (if merges_other k oper then Suc n else n) (tracker_apply oper st)"
proof (cases oper)
  case (MergeBetas k' v)
  show ?thesis
  proof (cases "k' = k")
    case True
    have "betas_ok st" using assms(1) by (simp add: holds_betas_def)
    then have "holds_betas k ts 0 (tracker_apply oper st)"
      unfolding MergeBetas True tracker_apply.simps
      by (rule holds_betas_own) (use holds_betas_stored[OF assms(1)] in auto)
    then show ?thesis using MergeBetas True unfolding holds_betas_def by fastforce
  qed (use MergeBetas assms holds_betas_other in auto)
next
  case (ReadFloor t0 t1 k')
  then show ?thesis using holds_betas_same[OF assms(1)] frozen_message_count_betas by simp
next
  case (SeeResponse t0 t1 k' r w es)
  then show ?thesis using holds_betas_same[OF assms(1)] update_betas by simp
qed

lemma holds_betas_run:
  assumes "holds_betas k ts n st" "n + length (filter (merges_other k) opers) < MAX_BETA_SESSIONS"
  shows "holds_betas k ts (n + length (filter (merges_other k) opers)) (fold tracker_apply opers st)"
  using assms
proof (induction opers arbitrary: n st)
  case (Cons oper opers)
  have "holds_betas k ts (if merges_other k oper then Suc n else n) (tracker_apply oper st)"
    by (rule holds_betas_step[OF Cons.prems(1)]) (use Cons.prems(2) in auto)
  from Cons.IH[OF this] Cons.prems(2) show ?case by (auto split: if_splits)
qed simp

text \<open>
  C12: Betas are sticky. A beta token a session's client sent once is, up to case, in the header
  of every later request of the session, whatever the client sends then and whatever the
  trackers did in between, as long as fewer than \<open>MAX_BETA_SESSIONS\<close> merges of other sessions
  came between.
\<close>

theorem betas_stick:
  assumes "betas_ok st" "length (filter (merges_other (p, sid)) opers) < MAX_BETA_SESSIONS"
    and "t \<in> set (comma_tokens (unwrap_or [] v))"
    and "sticky_betas p sid v' (fold tracker_apply opers (snd (sticky_betas p sid v st))) = (out, st')"
  shows "\<exists>s \<in> set (comma_tokens out). eq_ignore_ascii_case s t"
proof -
  let ?client = "comma_tokens (unwrap_or [] v)" and ?st = "fold tracker_apply opers (snd (sticky_betas p sid v st))"
  have "holds_betas (p, sid) ?client 0 (snd (sticky_betas p sid v st))"
    using holds_betas_own[OF assms(1), of ?client "(p, sid)" v] by (auto simp: eq_ignore_ascii_case_def)
  from holds_betas_run[OF this] assms(2)
  have held: "holds_betas (p, sid) ?client (length (filter (merges_other (p, sid)) opers)) ?st" by simp
  obtain s where s: "s \<in> set (stored_betas ?st (p, sid))" "eq_ignore_ascii_case s t"
    using holds_betas_stored[OF held assms(3)] by blast
  have ok: "betas_ok ?st" using held by (simp add: holds_betas_def)
  note facts = sticky_betas_state(1,2)[OF ok assms(4)]
  have "comma_tokens out = merge_betas (stored_betas ?st (p, sid)) (comma_tokens (unwrap_or [] v'))"
    using facts comma_tokens_join unfolding tokens_ok_def by metis
  then have "s \<in> set (comma_tokens out)" using s(1) merge_betas_extends by (metis Un_iff set_append)
  then show ?thesis using s(2) by blast
qed

theorem betas_stick_witness:
  "\<exists>s \<in> set (comma_tokens (fst (sticky_betas SessionAnthropic ''s'' None
      (fold tracker_apply [MergeBetas (SessionAnthropic, ''x'') (Some ''b''), ReadFloor 3 4 (SessionAnthropic, ''s'')]
        (snd (sticky_betas SessionAnthropic ''s'' (Some ''a'') inner_default)))))).
     eq_ignore_ascii_case s ''a''"
proof -
  let ?opers = "[MergeBetas (SessionAnthropic, ''x'') (Some ''b''), ReadFloor 3 4 (SessionAnthropic, ''s'')]"
  let ?st = "fold tracker_apply ?opers (snd (sticky_betas SessionAnthropic ''s'' (Some ''a'') inner_default))"
  have "length (filter (merges_other (SessionAnthropic, ''s'')) ?opers) < MAX_BETA_SESSIONS" by (simp add: MAX_BETA_SESSIONS_def)
  moreover have "''a'' \<in> set (comma_tokens (unwrap_or [] (Some ''a'')))" by (simp add: comma_tokens_def trim_def drop_while_end_def is_whitespace_def byte_def utf8_width_def)
  ultimately show ?thesis
    by (rule betas_stick[OF betas_ok_default _ _ prod.collapse[symmetric]])
qed

section \<open>Frozen prefixes\<close>

fun tracker_times :: "tracker_op \<Rightarrow> nat list" where
  "tracker_times (MergeBetas k v) = []"
| "tracker_times (ReadFloor t0 t1 k) = [t0, t1]"
| "tracker_times (SeeResponse t0 t1 k r w es) = [t0, t1]"

fun sees_response :: "session_key \<Rightarrow> tracker_op \<Rightarrow> bool" where
  "sees_response k (SeeResponse t0 t1 k' r w es) = (k' = k)"
| "sees_response k oper = False"

text \<open>The session \<open>k\<close> has the entry \<open>s\<close>, but for a later time of use.\<close>

definition holds_prefix :: "session_key \<Rightarrow> prefix_state \<Rightarrow> nat \<Rightarrow> inner \<Rightarrow> bool" where
  "holds_prefix k s t st \<longleftrightarrow> (\<exists>a \<ge> t. inner.prefixes st k = Some (s\<lparr>last_activity := a\<rparr>))"

lemma holds_prefix_cleanup: "holds_prefix k s t st \<Longrightarrow> now \<le> t + SESSION_TTL \<Longrightarrow> holds_prefix k s t (maybe_cleanup now st)"
  unfolding holds_prefix_def by (elim exE conjE, rule exI, rule conjI, assumption, rule maybe_cleanup_fresh) auto

lemma sticky_betas_prefixes: "inner.prefixes (snd (sticky_betas p sid v st)) = inner.prefixes st"
  by (auto simp: sticky_betas_def Let_def split: prod.splits)

lemma holds_prefix_step:
  assumes "holds_prefix k s t st" "\<forall>now \<in> set (tracker_times oper). t \<le> now \<and> now \<le> t + SESSION_TTL" "\<not> sees_response k oper"
  shows "holds_prefix k s t (tracker_apply oper st)"
proof (cases oper)
  case (MergeBetas k' v)
  then show ?thesis using assms(1) by (simp add: holds_prefix_def sticky_betas_prefixes)
next
  case (ReadFloor t0 t1 k')
  then have kept: "holds_prefix k s t (maybe_cleanup t0 st)" and t1: "t \<le> t1"
    using holds_prefix_cleanup[OF assms(1)] assms(2) by auto
  show ?thesis
  proof (cases "k' = k")
    case True
    obtain a where "inner.prefixes (maybe_cleanup t0 st) k = Some (s\<lparr>last_activity := a\<rparr>)"
      using kept by (auto simp: holds_prefix_def)
    then show ?thesis using ReadFloor True t1 by (auto simp: holds_prefix_def frozen_message_count_def Let_def)
  next
    case False
    then show ?thesis
      using ReadFloor kept frozen_prefixes_other[of k "fst k'" "snd k'" t0 t1 st] by (simp add: holds_prefix_def)
  qed
next
  case (SeeResponse t0 t1 k' r w es)
  then show ?thesis
    using holds_prefix_cleanup[OF assms(1), of t0] assms(2,3) update_prefixes_other[of k "fst k'" "snd k'" t0 t1 r w es st]
    by (simp add: holds_prefix_def)
qed

lemma holds_prefix_run:
  assumes "holds_prefix k s t st"
    and "\<forall>oper \<in> set opers. \<not> sees_response k oper \<and> (\<forall>now \<in> set (tracker_times oper). t \<le> now \<and> now \<le> t + SESSION_TTL)"
  shows "holds_prefix k s t (fold tracker_apply opers st)"
  using assms
proof (induction opers arbitrary: st)
  case (Cons oper opers)
  have "holds_prefix k s t (tracker_apply oper st)" by (rule holds_prefix_step) (use Cons.prems in auto)
  from Cons.IH[OF this] Cons.prems(2) show ?case by simp
qed simp

text \<open>
  C27: A floor is a confirmed prefix. After a response at time \<open>t\<close> that reported \<open>r\<close> cached and \<open>w\<close>
  written tokens, whatever the trackers did for other sessions, and read for this one, within
  the time to live, the next request of the session within it freezes at least \<open>n\<close> messages
  exactly when the first \<open>n\<close> estimates fit in \<open>r + w\<close> (sums saturating at \<open>u64::MAX\<close>) and \<open>r + w\<close>
  reaches \<open>MIN_CACHED_TOKENS\<close>.
\<close>

theorem frozen_floor_survives:
  assumes "turn_room st (p, sid)" "t \<le> t2" "t2 \<le> t + SESSION_TTL"
    and "\<forall>oper \<in> set opers. \<not> sees_response (p, sid) oper
      \<and> (\<forall>now \<in> set (tracker_times oper). t \<le> now \<and> now \<le> t + SESSION_TTL)"
  shows "n \<le> fst (frozen_message_count t2 t3 p sid (fold tracker_apply opers (update_from_response t0 t p sid r w es st))) \<longleftrightarrow>
     n = 0 \<or> (1024 \<le> unat r + unat w \<and> n \<le> length es
       \<and> fits (saturating_add r w) (sum_list (map unat (take n es))))"
proof -
  let ?st = "update_from_response t0 t p sid r w es st"
  obtain s where s: "inner.prefixes ?st (p, sid) = Some s" "last_activity s = t" "turn_number s \<noteq> 0"
    "cached_token_count s = saturating_add r w"
    "cached_message_count s = (if saturating_add r w = 0 then 0 else frozen_walk (saturating_add r w) es 0 0 0)"
    by (rule update_own_entry[OF assms(1)]) (rule that)
  have "holds_prefix (p, sid) s t ?st"
    unfolding holds_prefix_def by (rule exI[of _ t]) (use s(1,2) in simp)
  from holds_prefix_cleanup[OF holds_prefix_run[OF this assms(4)] assms(3)] obtain a where
    entry: "inner.prefixes (maybe_cleanup t2 (fold tracker_apply opers ?st)) (p, sid) = Some (s\<lparr>last_activity := a\<rparr>)"
    by (auto simp: holds_prefix_def)
  have low: "saturating_add r w < MIN_CACHED_TOKENS \<longleftrightarrow> unat r + unat w < 1024"
    unfolding word_less_nat_alt unat_saturating_add MIN_CACHED_TOKENS_def by auto
  have "fst (frozen_message_count t2 t3 p sid (fold tracker_apply opers ?st)) =
      (if unat r + unat w < 1024 then 0 else frozen_walk (saturating_add r w) es 0 0 0)"
    using entry s low by (auto simp: frozen_message_count_def Let_def)
  then show ?thesis
    using frozen_walk_iff[of 0 n "saturating_add r w" es 0] by auto
qed

theorem frozen_floor_survives_witness:
  "fst (frozen_message_count 9 9 SessionOpenAi ''s''
     (fold tracker_apply [SeeResponse 3 4 (SessionOpenAi, ''x'') 0 0 [], ReadFloor 5 6 (SessionOpenAi, ''s'')]
       (update_from_response 1 2 SessionOpenAi ''s'' 1000 200 [500, 700, 1] inner_default))) \<ge> 2"
  by (subst frozen_floor_survives)
    (simp_all add: turn_room_def inner_default_def SESSION_TTL_def NANOS_def unat_saturating_add
      saturating_add_def unat_word_ariths)

section \<open>Runs of the process\<close>

lemma tracker_step_apply: "tracker_step q q' \<longleftrightarrow> (\<exists>oper. q' = tracker_apply oper q)"
proof
  assume "tracker_step q q'"
  then show "\<exists>oper. q' = tracker_apply oper q"
  proof cases
    case (betas_merged p sid v merged)
    then show ?thesis by (intro exI[of _ "MergeBetas (p, sid) v"]) simp
  next
    case (floor_read t0 t1 p sid n)
    then show ?thesis by (intro exI[of _ "ReadFloor t0 t1 (p, sid)"]) simp
  next
    case (response_seen t0 t1 p sid r w es)
    then show ?thesis by (intro exI[of _ "SeeResponse t0 t1 (p, sid) r w es"]) simp
  qed
next
  assume "\<exists>oper. q' = tracker_apply oper q"
  then obtain oper where q': "q' = tracker_apply oper q" by blast
  show "tracker_step q q'"
    unfolding q' by (cases oper) (simp_all add: tracker_step.intros(1,2)[OF prod.collapse[symmetric]] response_seen)
qed

lemma batch_step_apply: "batch_step b b' \<longleftrightarrow> (\<exists>oper. b' = batch_apply oper b)"
proof
  assume "batch_step b b'"
  then show "\<exists>oper. b' = batch_apply oper b"
  proof cases
    case (recorded now i body)
    then show ?thesis by (intro exI[of _ "RecordBatch now i body"]) simp
  next
    case (looked_up now i c)
    then show ?thesis by (intro exI[of _ "LookUpBatch now i"]) simp
  qed
next
  assume "\<exists>oper. b' = batch_apply oper b"
  then obtain oper where b': "b' = batch_apply oper b" by blast
  show "batch_step b b'"
    unfolding b' by (cases oper) (simp_all add: looked_up[OF prod.collapse[symmetric]] recorded)
qed

lemma steps_fold:
  assumes "\<And>x y. step x y \<longleftrightarrow> (\<exists>oper. y = exec oper x)"
  shows "step\<^sup>*\<^sup>* x y \<longleftrightarrow> (\<exists>opers. y = fold exec opers x)"
proof
  show "step\<^sup>*\<^sup>* x y \<Longrightarrow> \<exists>opers. y = fold exec opers x"
  proof (induction rule: rtranclp_induct)
    case base
    show ?case by (rule exI[of _ "[]"]) simp
  next
    case (step y z)
    then obtain opers oper where "y = fold exec opers x" "z = exec oper y" using assms by blast
    then show ?case by (intro exI[of _ "opers @ [oper]"]) simp
  qed
  have "step\<^sup>*\<^sup>* x (fold exec opers x)" for opers
  proof (induction opers arbitrary: x)
    case (Cons oper opers)
    have "step x (exec oper x)" using assms by blast
    then show ?case using Cons.IH[of "exec oper x"] by (simp add: converse_rtranclp_into_rtranclp)
  qed simp
  then show "\<exists>opers. y = fold exec opers x \<Longrightarrow> step\<^sup>*\<^sup>* x y" by blast
qed

text \<open>What any handlers did to trackers and batch contexts is a list of these operations.\<close>

lemma process_operations:
  assumes "(process_step E W)\<^sup>*\<^sup>* sv sv'"
  shows "\<exists>opers. sv_trackers sv' = fold tracker_apply opers (sv_trackers sv)"
    and "\<exists>opers. sv_batches sv' = fold batch_apply opers (sv_batches sv)"
proof -
  have "tracker_step\<^sup>*\<^sup>* (sv_trackers sv) (sv_trackers sv') \<and> batch_step\<^sup>*\<^sup>* (sv_batches sv) (sv_batches sv')"
    using assms by (induction rule: rtranclp_induct) (auto intro: rtranclp_trans dest: step_parts(2,3))
  then show "\<exists>opers. sv_trackers sv' = fold tracker_apply opers (sv_trackers sv)"
    "\<exists>opers. sv_batches sv' = fold batch_apply opers (sv_batches sv)"
    using steps_fold[of tracker_step tracker_apply, OF tracker_step_apply]
      steps_fold[of batch_step batch_apply, OF batch_step_apply] by blast+
qed

end
