(* ===== verification/Isolation.thy ===== *)
theory Isolation
  imports Retention Proxy_Effects
begin

text \<open>
  Whatever others do to session trackers and batch contexts while a request is served does not
  show in its answer, but for the two values the handler reads: the frozen floor and the
  merged betas. States that differ in nothing else are \<open>sim\<close>; that the rest of a handler gives
  the same result from such states, and goes on to such states, is a relational parametricity:
  it holds of each function because it holds of those it is made of, down to the operations
  on the state.
\<close>

section \<open>States that only others tell apart\<close>

definition unshared :: "('s, 'u) server \<Rightarrow> ('s, 'u) server" where
  "unshared sv = sv\<lparr>sv_trackers := inner_default, sv_batches := []\<rparr>"

definition sim :: "('s, 'u) server \<Rightarrow> ('s, 'u) server \<Rightarrow> bool" where
  "sim sv sv' \<longleftrightarrow> unshared sv = unshared sv'"

lemma sim_iff: "sim sv sv' \<longleftrightarrow> sv_world sv = sv_world sv' \<and> sv_counter sv = sv_counter sv' \<and> sv_ticks sv = sv_ticks sv'
    \<and> sv_tasks sv = sv_tasks sv' \<and> sv_net sv = sv_net sv'"
  by (cases sv; cases sv') (auto simp: sim_def unshared_def)

lemma sim_refl [simp]: "sim sv sv" by (simp add: sim_def)

text \<open>The same result, and states that are \<open>sim\<close>; an outcome may also be a panic.\<close>

abbreviation same_result :: "'a \<times> ('s, 'u) server \<Rightarrow> 'a \<times> ('s, 'u) server \<Rightarrow> bool" where
  "same_result \<equiv> rel_prod (=) sim"

abbreviation same_outcome :: "('a \<times> ('s, 'u) server) option \<Rightarrow> ('a \<times> ('s, 'u) server) option \<Rightarrow> bool" where
  "same_outcome \<equiv> rel_option same_result"

text \<open>The functions that relate so given states that do, and equal arguments: \<open>eq4\<close> stands for four.\<close>

abbreviation on_state :: "('a \<Rightarrow> 'b \<Rightarrow> bool) \<Rightarrow> (('s, 'u) server \<Rightarrow> 'a) \<Rightarrow> (('s, 'u) server \<Rightarrow> 'b) \<Rightarrow> bool" where
  "on_state R \<equiv> rel_fun sim R"

abbreviation eq1 :: "('a \<Rightarrow> 'b \<Rightarrow> bool) \<Rightarrow> ('c \<Rightarrow> 'a) \<Rightarrow> ('c \<Rightarrow> 'b) \<Rightarrow> bool" where
  "eq1 R \<equiv> rel_fun (=) R"

abbreviation eq2 :: "('a \<Rightarrow> 'b \<Rightarrow> bool) \<Rightarrow> ('c \<Rightarrow> 'd \<Rightarrow> 'a) \<Rightarrow> ('c \<Rightarrow> 'd \<Rightarrow> 'b) \<Rightarrow> bool" where
  "eq2 R \<equiv> eq1 (eq1 R)"

abbreviation eq4 :: "('a \<Rightarrow> 'b \<Rightarrow> bool)
    \<Rightarrow> ('c \<Rightarrow> 'd \<Rightarrow> 'e \<Rightarrow> 'f \<Rightarrow> 'a) \<Rightarrow> ('c \<Rightarrow> 'd \<Rightarrow> 'e \<Rightarrow> 'f \<Rightarrow> 'b) \<Rightarrow> bool" where
  "eq4 R \<equiv> eq2 (eq2 R)"

lemma fields_sim [transfer_rule]:
  "on_state (=) sv_world sv_world" "on_state (=) sv_counter sv_counter" "on_state (=) sv_tasks sv_tasks"
  "on_state (=) sv_net sv_net"
  by (auto simp: rel_fun_def sim_iff)

lemma updates_sim [transfer_rule]:
  "rel_fun (eq1 (=)) (on_state sim) sv_world_update sv_world_update"
  "rel_fun (eq1 (=)) (on_state sim) sv_counter_update sv_counter_update"
  "rel_fun (eq1 (=)) (on_state sim) sv_tasks_update sv_tasks_update"
  "rel_fun (eq1 (=)) (on_state sim) sv_net_update sv_net_update"
  by (auto simp: rel_fun_def sim_iff)

lemma clocks_sim [transfer_rule]:
  "eq1 (on_state same_result) wall_now wall_now"
  "eq1 (on_state same_result) instant_now instant_now"
  by (auto simp: rel_fun_def sim_iff wall_now_def instant_now_def)

lemma on_stats_sim [transfer_rule]: "eq1 (on_state sim) on_stats on_stats"
  by (auto simp: rel_fun_def sim_iff on_stats_def)

lemma store_ops_sim [transfer_rule]: "eq1 (on_state same_result) store_ops store_ops"
  unfolding store_ops_def by transfer_prover

lemma new_request_id_sim [transfer_rule]: "eq1 (on_state same_result) new_request_id new_request_id"
  unfolding new_request_id_def by transfer_prover

lemma request_id_for_sim [transfer_rule]:
  "eq2 (on_state same_result) request_id_for request_id_for"
  unfolding request_id_for_def by transfer_prover

lemma send_request_sim [transfer_rule]:
  "eq2 (on_state same_result) send_request send_request"
  unfolding send_request_def by transfer_prover

lemma forward_request_sim [transfer_rule]:
  "eq4 (eq2 (eq1 (on_state same_result))) forward_request forward_request"
  unfolding forward_request_def by transfer_prover

lemma response_to_axum_sim [transfer_rule]:
  "eq4 (eq1 (on_state same_result)) response_to_axum response_to_axum"
  unfolding response_to_axum_def by transfer_prover

lemma update_session_sim [transfer_rule]:
  "eq4 (on_state sim) update_session_from_json_response update_session_from_json_response"
  by (auto simp: rel_fun_def sim_iff update_session_from_json_response_def instant_now_def Let_def
      simp del: option_filter_Some split: option.splits prod.splits)

lemma next_messages_sim [transfer_rule]:
  "eq4 (on_state same_result) next_messages next_messages"
  unfolding next_messages_def by transfer_prover

lemma send_ccr_continuation_sim [transfer_rule]:
  "eq4 (eq1 (on_state same_result)) send_ccr_continuation send_ccr_continuation"
  unfolding send_ccr_continuation_def by transfer_prover

lemma ccr_rounds_rel:
  "sim sv sv' \<Longrightarrow> same_outcome (ccr_rounds n E request_body url hs ip p messages cur sv)
     (ccr_rounds n E request_body url hs ip p messages cur sv')"
proof (induction n arbitrary: messages cur sv sv')
  case (Suc n)
  have "same_result (next_messages E p messages (fst cur) sv) (next_messages E p messages (fst cur) sv')"
    by (intro rel_funD[OF next_messages_sim, THEN rel_funD, THEN rel_funD, THEN rel_funD, THEN rel_funD] refl Suc.prems)
  then obtain ms s t where asked: "next_messages E p messages (fst cur) sv = (ms, s)"
    "next_messages E p messages (fst cur) sv' = (ms, t)" "sim s t"
    by (auto simp: rel_prod_conv split: prod.splits)
  show ?case
  proof (cases "json_set ''messages'' (JArray ms) request_body")
    case (Some b)
    have "same_result (send_ccr_continuation E b url hs ip s) (send_ccr_continuation E b url hs ip t)"
      by (intro rel_funD[OF send_ccr_continuation_sim, THEN rel_funD, THEN rel_funD, THEN rel_funD, THEN rel_funD, THEN rel_funD]
          refl asked(3))
    then obtain r s1 t1 where sent: "send_ccr_continuation E b url hs ip s = (r, s1)"
      "send_ccr_continuation E b url hs ip t = (r, t1)" "sim s1 t1"
      by (auto simp: rel_prod_conv split: prod.splits)
    then have "sim (on_stats record_ccr_continuation_round s1) (on_stats record_ccr_continuation_round t1)"
      by (intro rel_funD[OF on_stats_sim, THEN rel_funD] refl)
    from Suc.IH[OF this] show ?thesis
      using Suc.prems asked sent Some by (cases r) simp_all
  qed (use Suc.prems asked in simp)
qed simp

lemma ccr_rounds_sim [transfer_rule]:
  "eq4 (eq4 (eq1 (on_state same_outcome))) ccr_rounds ccr_rounds"
  by (auto simp: rel_fun_def intro: ccr_rounds_rel)

lemma run_ccr_continuation_sim [transfer_rule]:
  "eq4 (eq2 (eq1 (on_state same_outcome))) run_ccr_continuation run_ccr_continuation"
  unfolding run_ccr_continuation_def by transfer_prover

lemma continue_reply_sim [transfer_rule]:
  "eq4 (eq4 (eq2 (eq1 (on_state same_outcome)))) continue_reply continue_reply"
  unfolding continue_reply_def by transfer_prover

lemma forward_with_ccr_continuation_sim [transfer_rule]:
  "eq4 (eq4 (eq1 (on_state same_outcome))) forward_with_ccr_continuation forward_with_ccr_continuation"
  unfolding forward_with_ccr_continuation_def by transfer_prover

lemma forward_buffered_sim [transfer_rule]:
  "eq4 (eq4 (on_state same_result)) forward_buffered forward_buffered"
  unfolding forward_buffered_def by transfer_prover

lemma forward_batch_create_sim [transfer_rule]:
  "eq4 (eq2 (eq1 (on_state same_result))) forward_batch_create forward_batch_create"
proof -
  have [transfer_rule]: "on_state (\<lambda>_ _. True) sv_batches sv_batches"
    "rel_fun (rel_fun (\<lambda>_ _. True) (\<lambda>_ _. True)) (on_state sim) sv_batches_update sv_batches_update"
    "eq2 (eq1 (rel_fun (\<lambda>_ _. True) (\<lambda>_ _. True))) record_batch_context record_batch_context"
    by (auto simp: rel_fun_def sim_iff)
  show ?thesis unfolding forward_batch_create_def by transfer_prover
qed

lemma forward_target_sim [transfer_rule]:
  "eq4 (eq4 (eq1 (on_state same_outcome))) forward_target forward_target"
proof -
  note compression_target.case_transfer [transfer_rule]
  show ?thesis unfolding forward_target_def by transfer_prover
qed

lemma compress_for_target_sim [transfer_rule]:
  "eq4 (eq1 (on_state same_outcome)) compress_for_target compress_for_target"
  unfolding compress_for_target_def by transfer_prover

lemma answer_request_sim [transfer_rule]:
  "eq4 (eq4 (eq1 (on_state same_outcome))) answer_request answer_request"
  unfolding answer_request_def by transfer_prover

text \<open>The same of a batch-results request, once the contexts of its batch are looked up.\<close>

lemma batch_result_line_sim [transfer_rule]:
  "eq4 (eq2 (on_state same_outcome)) batch_result_line batch_result_line"
  unfolding batch_result_line_def by transfer_prover

lemma batch_result_lines_rel:
  "sim sv sv' \<Longrightarrow> same_outcome (batch_result_lines E url hs ip contexts ls out_lines processed sv)
     (batch_result_lines E url hs ip contexts ls out_lines processed sv')"
proof (induction ls arbitrary: out_lines processed sv sv')
  case (Cons l ls)
  have "same_outcome (batch_result_line E url hs ip contexts l sv) (batch_result_line E url hs ip contexts l sv')"
    by (intro rel_funD[OF batch_result_line_sim, THEN rel_funD, THEN rel_funD, THEN rel_funD, THEN rel_funD,
          THEN rel_funD, THEN rel_funD] refl Cons.prems)
  then show ?case
    by (cases rule: option.rel_cases) (auto simp: Cons.prems intro!: Cons.IH split: sum.splits)
qed simp

lemma batch_result_lines_sim [transfer_rule]:
  "eq4 (eq4 (on_state same_outcome)) batch_result_lines batch_result_lines"
  by (auto simp: rel_fun_def intro: batch_result_lines_rel)

lemma forward_batch_results_sim [transfer_rule]:
  "eq4 (eq2 (on_state same_outcome)) forward_batch_results forward_batch_results"
  unfolding forward_batch_results_def by transfer_prover

section \<open>The two values that are read\<close>

text \<open>The floor comes from the prefixes, which the betas do not touch, and conversely.\<close>

lemma maybe_cleanup_with_betas: "maybe_cleanup now (st\<lparr>betas := b\<rparr>) = (maybe_cleanup now st)\<lparr>betas := b\<rparr>"
  by (cases st) (simp add: maybe_cleanup_def)

lemma frozen_message_count_with_betas:
  "frozen_message_count t0 t1 p sid (st\<lparr>betas := b\<rparr>) =
     map_prod id (\<lambda>st. st\<lparr>betas := b\<rparr>) (frozen_message_count t0 t1 p sid st)"
  by (simp add: frozen_message_count_def maybe_cleanup_with_betas Let_def split: option.splits)

lemma sticky_betas_value: "betas st = betas st' \<Longrightarrow> fst (sticky_betas p sid v st) = fst (sticky_betas p sid v st')"
  by (simp add: sticky_betas_def Let_def split: prod.splits)

definition with_betas :: "(session_key \<times> string list) list \<Rightarrow> ('s, 'u) server \<Rightarrow> ('s, 'u) server" where
  "with_betas b sv = sv\<lparr>sv_trackers := (sv_trackers sv)\<lparr>betas := b\<rparr>\<rparr>"

lemma frozen_floor_with_betas:
  "frozen_floor E ident (with_betas b sv) = map_prod id (with_betas b) (frozen_floor E ident sv)"
  by (cases ident) (auto simp: frozen_floor_def with_betas_def instant_now_def frozen_message_count_with_betas
      split: prod.splits)

lemma merge_beta_header_betas:
  assumes "betas (sv_trackers sv) = betas (sv_trackers sv')" "sim sv sv'"
  shows "same_result (merge_beta_header E t ident hs sv) (merge_beta_header E t ident hs sv')"
proof (cases ident)
  case (Some k)
  obtain p sid where k: "k = (p, sid)" by fastforce
  show ?thesis
  proof (cases "target_beta_header t")
    case (Some name)
    let ?v = "header_str (ev_http E) name hs"
    obtain out q q' where "sticky_betas p sid ?v (sv_trackers sv) = (out, q)" "sticky_betas p sid ?v (sv_trackers sv') = (out, q')"
      using sticky_betas_value[OF assms(1), of p sid ?v] by (metis prod.collapse)
    then show ?thesis using \<open>ident = Some k\<close> k Some assms(2) by (simp add: merge_beta_header_def sim_iff)
  qed (use assms(2) in \<open>simp add: merge_beta_header_def\<close>)
qed (use assms(2) in \<open>simp add: merge_beta_header_def split: option.splits\<close>)

section \<open>The answer\<close>

text \<open>What others do to trackers and batch contexts in the meantime.\<close>

definition meanwhile :: "tracker_op list \<Rightarrow> batch_op list \<Rightarrow> ('s, 'u) server \<Rightarrow> ('s, 'u) server" where
  "meanwhile ts bs sv = sv\<lparr>sv_trackers := fold tracker_apply ts (sv_trackers sv), sv_batches := fold batch_apply bs (sv_batches sv)\<rparr>"

lemma meanwhile_sim: "sim (meanwhile ts bs sv) sv'  \<longleftrightarrow> sim sv sv'" "sim sv' (meanwhile ts bs sv)  \<longleftrightarrow> sim sv' sv"
  by (auto simp: meanwhile_def sim_iff)

text \<open>
  C8: A request is answered as if it were alone. Others may change the session trackers and the
  batch contexts after the handler has read the frozen floor, and again after it has merged
  the betas: what it then sends upstream, answers, stores and counts is what the whole handler
  does on trackers with the prefixes of when it read the floor and the betas of when it merged them.
\<close>

theorem answered_as_alone:
  assumes "read_limited_body E req = Inr body"
    and "t \<noteq> TargetAnthropicMessageBatches \<or> map_option requests_missing_or_empty (sd_value (ev_serde E) body) \<noteq> Some True"
    and "ident = session_identity E t (cq_headers req) (sd_value (ev_serde E) body)"
    and "frozen_floor E ident sv = (n, sv1)"
    and "merge_beta_header E t ident (cq_headers req) (meanwhile ts1 bs1 sv1) = (hs, sv2)"
  shows "same_outcome
      (answer_request E req t url ip ident n hs body (meanwhile ts2 bs2 sv2))
      (buffer_and_forward_known_json E req t url ip
        (sv\<lparr>sv_trackers := (sv_trackers sv)\<lparr>betas := betas (sv_trackers (meanwhile ts1 bs1 sv1))\<rparr>\<rparr>))"
proof -
  let ?b = "betas (sv_trackers (meanwhile ts1 bs1 sv1))"
  have floor: "frozen_floor E ident (with_betas ?b sv) = (n, with_betas ?b sv1)"
    by (simp add: frozen_floor_with_betas assms(4))
  have "same_result (merge_beta_header E t ident (cq_headers req) (meanwhile ts1 bs1 sv1))
      (merge_beta_header E t ident (cq_headers req) (with_betas ?b sv1))"
    by (rule merge_beta_header_betas) (simp_all add: with_betas_def sim_iff meanwhile_def)
  then obtain sv2' where merged: "merge_beta_header E t ident (cq_headers req) (with_betas ?b sv1) = (hs, sv2')"
    and sim: "sim (meanwhile ts2 bs2 sv2) sv2'"
    using assms(5) by (auto simp: rel_prod_conv meanwhile_sim split: prod.splits)
  have "buffer_and_forward_known_json E req t url ip (with_betas ?b sv) = answer_request E req t url ip ident n hs body sv2'"
    using assms(1,2) floor merged by (auto simp: buffer_and_forward_known_json_def Let_def assms(3))
  moreover have "same_outcome
      (answer_request E req t url ip ident n hs body (meanwhile ts2 bs2 sv2)) (answer_request E req t url ip ident n hs body sv2')"
    by (intro rel_funD[OF answer_request_sim, THEN rel_funD, THEN rel_funD, THEN rel_funD, THEN rel_funD, THEN rel_funD,
          THEN rel_funD, THEN rel_funD, THEN rel_funD, THEN rel_funD] refl sim)
  ultimately show ?thesis by (simp add: with_betas_def)
qed

theorem answered_as_alone_witness:
  "\<exists>n sv1 hs sv2. frozen_floor (demo_env no_upstream) (Some (SessionAnthropic, ''6161616161616161'')) demo_server = (n, sv1)
     \<and> merge_beta_header (demo_env no_upstream) TargetAnthropicMessages (Some (SessionAnthropic, ''6161616161616161''))
         [(''content-type'', ''application/json'')]
         (meanwhile [MergeBetas (SessionAnthropic, ''x'') (Some ''b'')] [LookUpBatch 3 ''c''] sv1) = (hs, sv2)
     \<and> same_outcome
      (answer_request (demo_env no_upstream) (demo_request ''POST'' ''/v1/messages'' [Inr ''{}'']) TargetAnthropicMessages ''u'' None
        (Some (SessionAnthropic, ''6161616161616161'')) n hs ''{}'' (meanwhile [] [RecordBatch 4 ''c'' JNull] sv2))
      (buffer_and_forward_known_json (demo_env no_upstream) (demo_request ''POST'' ''/v1/messages'' [Inr ''{}''])
        TargetAnthropicMessages ''u'' None (demo_server\<lparr>sv_trackers := (sv_trackers demo_server)\<lparr>betas :=
          betas (sv_trackers (meanwhile [MergeBetas (SessionAnthropic, ''x'') (Some ''b'')] [LookUpBatch 3 ''c''] sv1))\<rparr>\<rparr>))"
proof -
  let ?E = "demo_env no_upstream" and ?req = "demo_request ''POST'' ''/v1/messages'' [Inr ''{}'']"
  let ?ident = "Some (SessionAnthropic, ''6161616161616161'')"
  let ?others = "meanwhile [MergeBetas (SessionAnthropic, ''x'') (Some ''b'')] [LookUpBatch 3 ''c'']"
  obtain n sv1 where floor: "frozen_floor ?E ?ident demo_server = (n, sv1)" by fastforce
  obtain hs sv2 where merged: "merge_beta_header ?E TargetAnthropicMessages ?ident (cq_headers ?req) (?others sv1) = (hs, sv2)"
    by fastforce
  have body: "read_limited_body ?E ?req = Inr ''{}''"
    by (simp add: read_limited_body_def demo_request_def header_str_def header_get_def option_filter_def demo_env_def)
  have ident: "?ident = session_identity ?E TargetAnthropicMessages (cq_headers ?req) (sd_value (ev_serde ?E) ''{}'')"
    by code_simp
  show ?thesis
    using answered_as_alone[OF body _ ident floor merged] floor merged by (auto simp: demo_request_def)
qed

end
