(* ===== verification/Spec2Isabelle.thy ===== *)
theory Spec2Isabelle
  imports Stats Ccr Splice Session Compress Live_Zone_Safety Metadata_Safety Request Sse_Safety
    Proxy_Headers_Safety Proxy_Effects Relay_Safety Codex_Safety Batch_Safety Json_Types Process_Safety Tee Program Isolation
begin

text \<open>
  A verification development for \<open>hr\<close>, a proxy between coding agents and LLM APIs that shortens
  requests: tool outputs are replaced by markers, the originals kept in a store from which the
  model (through a tool call), the client (through an endpoint) or a person (on the command
  line) gets them back.

  The program and its parts.

  A request enters at \<open>proxy_http_handler\<close> or \<open>proxy_get_handler\<close> (\<open>src/proxy.rs\<close>). It is
  classified by method and path, and passed through as a stream unless it is a JSON request to
  an API the program knows. Such a request is buffered and compressed by
  \<open>compress_json_request_ctx\<close> (\<open>src/compression.rs\<close>), which never builds a new body: it plans
  replacements of byte ranges of the old one. The session trackers (\<open>src/session.rs\<close>) say how
  many leading messages the provider holds in its cache, hence must stay as they are; the
  originals go to the store (\<open>src/ccr.rs\<close>). The reply is streamed back and observed by the SSE
  parser (\<open>src/sse.rs\<close>), or, when a marker was sent, buffered: calls of the retrieve tool are
  then answered by the proxy itself in up to three further requests. Anthropic batches do the
  same when their results are fetched. A WebSocket is relayed frame by frame, with the Codex
  \<open>response.create\<close> frames compressed. All parts count what they do (\<open>src/stats.rs\<close>).

  Theories, in the order of the code's layers. Source files are those under \<open>src/src/\<close>.

  \<^item> \<open>Prelude\<close>, \<open>Rust_Text\<close>, \<open>Json_Value\<close>, \<open>Headers\<close>, \<open>Serde\<close>: machine words and shared facts;
    \<open>str\<close> and \<open>[u8]\<close> as byte lists; \<open>serde_json::Value\<close>; header maps; the borrowed views of JSON
    text that \<open>compression.rs\<close> derives.
  \<^item> \<open>Stats\<close>: every counter, gauge and map of \<open>stats.rs\<close>, and the snapshot.
  \<^item> \<open>Ccr\<close>: hashes, markers, \<open>decompress_text\<close>, the trait \<open>CcrStore\<close> as a record of operations, its
    contract as the locale \<open>ccr_store\<close>, and the SQLite store as its interpretation. The locale
    \<open>growing_store\<close> is the weaker contract of a store that others write to.
  \<^item> \<open>Splice\<close>, \<open>Compress\<close>: \<open>apply_replacements\<close> with its panics, and \<open>compress\<close>.
  \<^item> \<open>Session\<close>: session identity, the frozen floor, sticky betas, token estimates.
  \<^item> \<open>Live_Zone\<close>, \<open>Live_Zone_Safety\<close>: which string tokens may be replaced, per API.
  \<^item> \<open>Tool_Metadata\<close>, \<open>Metadata_Safety\<close>: tool order, \<open>cache_control\<close>, the injected retrieve tool,
    \<open>prompt_cache_key\<close>.
  \<^item> \<open>Request\<close>: \<open>compress_json_request_ctx\<close>, stage by stage. \<open>Shared_Store\<close>: the same on a database
    into which others put between any two of its statements, an interpretation of \<open>growing_store\<close>.
  \<^item> \<open>Chunk_Framing\<close>, \<open>Sse\<close>, \<open>Sse_Safety\<close>: framing of a byte stream (locale \<open>chunk_framer\<close>,
    interpreted for SSE blocks here and for lines in \<open>Codex_Safety\<close>) and the telemetry state machine.
  \<^item> \<open>Proxy_Headers\<close>, \<open>Proxy_Headers_Safety\<close>: the stateless functions of \<open>proxy.rs\<close>: classification,
    authentication mode, header forwarding, base64url, request ids.
  \<^item> \<open>Server\<close>: the process state of \<open>proxy.rs\<close> (\<open>ProxyState\<close> and the statics) as the record \<open>server\<close>,
    and the libraries and configuration as the record \<open>server_env\<close>.
  \<^item> \<open>Retrieve\<close>: \<open>retrieve_*\<close>, \<open>retrieve_tool_call_handler\<close>, \<open>compress_only_handler\<close>.
  \<^item> \<open>Batch_Context\<close>, \<open>Batch_Safety\<close>: batch contexts, and what becomes of the lines of a results file.
  \<^item> \<open>Continuation\<close>, \<open>Continuation_Safety\<close>: \<open>run_ccr_continuation\<close> and what it calls; the two
    providers' formats are two interpretations of \<open>tool_call_protocol\<close>. \<open>Json_Types\<close>: the model's
    association lists stay encodings of \<open>serde_json\<close> maps.
  \<^item> \<open>Responses\<close>, \<open>Proxy_Flow\<close>, \<open>Proxy_Http\<close>: \<open>response_to_axum\<close> to \<open>forward_batch_results\<close>;
    buffering, compressing and forwarding; the handlers. \<open>Proxy_Http_Safety\<close>, \<open>Proxy_Effects\<close>: what
    they send, answer and leave of the shared state.
  \<^item> \<open>Websocket\<close>, \<open>Codex\<close>, \<open>Relay\<close>: frames, handshake, telemetry and compression of frames; the start
    of a connection and the HTTP fallback; the two loops under \<open>tokio::select!\<close>.
    \<open>Codex_Safety\<close>, \<open>Relay_Safety\<close>: their properties.
  \<^item> \<open>Tee\<close>: the body stream of a streamed reply, its bounded queue and the spawned parser, as the
    step relation \<open>tee_step\<close>.
  \<^item> \<open>Endpoints\<close>: health, readiness, statistics and metrics. \<open>Cli\<close>: what the subcommands of \<open>main.rs\<close>
    compute. \<open>Files\<close>: files, variables and databases, \<open>SqliteStore::open\<close>.
  \<^item> \<open>Process\<close>: everything the process does to its shared state, as the step relation
    \<open>process_step\<close>, in which a handler is a single step; the locale \<open>keeps_state\<close> says what an invariant of store, trackers and batch
    contexts must be kept by, and that every handler then keeps it. \<open>Process_Safety\<close>: the relation
    \<open>atomic_step\<close> of single operations, each of which the code runs under a lock; its runs are an
    interpretation of \<open>keeps_state\<close>, so a handler's effect is made of such operations, and invariants
    of all sequences of them.
    \<open>Retention\<close>: what session trackers and batch contexts still hold after any run of their
    operations, that is, between any two operations of one handler. \<open>Isolation\<close>: that a request
    is answered as if it were alone, a parametricity of every function from there to the reply.
  \<^item> \<open>Router\<close>, \<open>Startup\<close>: the route table of \<open>build_router\<close>; the configuration, \<open>ProxyState::new\<close>,
    \<open>serve_proxy\<close>. \<open>Program\<close>: \<open>main\<close>, from a parsed command to how it ends.
  \<^item> \<open>Spec2Isabelle\<close>: properties from the client's body to the retrieve endpoint.

  How code is represented.

  A function that changes shared state takes the state and returns it with its result. A
  \<open>Result\<close> is a sum, errors on the left. Where the Rust code can panic (an index, a slice, an
  \<open>expect\<close>, an assignment through \<open>IndexMut\<close>), the result is inside an outer \<open>option\<close> whose \<open>None\<close> is
  the panic; that it is not \<open>None\<close> is a theorem of its own. \<open>u64\<close>, \<open>u16\<close> and \<open>i64\<close> arithmetic is written with its
  width; lengths and indices are \<open>nat\<close>, since a buffer never reaches \<open>usize::MAX\<close>. A ratio of two
  counters is the exact quotient, not its \<open>f64\<close> rounding. A byte string is a \<open>string\<close>.

  A request body, a reply body and one direction of a WebSocket are the lists of what will
  arrive, errors included. The clocks are the sequences of their readings: \<open>sv_ticks\<close> counts the
  readings taken. The spawned SSE parser of a streamed reply is an entry of \<open>sv_tasks\<close>, which \<open>run_sse_task\<close> runs on
  the chunks that its queue took. A WebSocket relay is the step relation \<open>relay_step\<close>: a step
  takes a frame from one side, or completes the sending of the frame taken, and the two
  directions interleave at will; a run ends when one of them returns. Concurrency is treated at
  the level of the locks, which are not state of the model: what the code does under one lock is
  one operation. A handler is a function of the state, run as one step of \<open>process_step\<close>; its
  effect on the shared state is some sequence of atomic operations, and what is stated of all
  sequences of atomic operations holds for any number of handlers in flight. The database has further writers, other processes: a
  \<open>shared_store\<close> carries what they put before each statement of the request that is looked at.

  What is a parameter, and what is assumed of it.

  \<^item> \<open>serde_json\<close> (record \<open>serde\<close>): \<open>borrows_ok\<close>, raw values point into the text they were parsed from, in
    order; \<open>strings_print\<close>, a string value prints; \<open>parses_wf\<close>, parsed objects are maps.
  \<^item> SHA-256 and MD5: \<open>digest_ok\<close>, a digest has 32 bytes. Where an original has to be the one whose
    hash a marker shows, the absence of a collision is a hypothesis on the one text concerned.
  \<^item> SQLite: the table is modelled; which statements fail is a function of the store, and \<open>readable\<close>
    says that a query does not.
  \<^item> the router library: \<open>routes_ok\<close>, which of the patterns a path matches.
  \<^item> the surroundings (record \<open>os\<close>): files, standard input, variables, the database files, and which
    operations on them fail.
  \<^item> the upstreams (\<open>ev_send\<close>), the \<open>url\<close>, \<open>http\<close> and WebSocket libraries and \<open>str::to_lowercase\<close>:
    arbitrary functions. \<open>recording\<close> keeps a log of the requests sent, to speak about them.

  What the theorems show.

  \<^item> From end to end: every original hidden from the upstream can be fetched then and however the
    database goes on, what is sent is what was compressed, every request is answered but where a
    continuation would assign to a value without fields, and one not to be compressed is passed on
    verbatim. What is sent does not depend on what others do to the
    database, nor to trackers and batch contexts once floor and betas are read. However handlers
    interleave, the store is consistent and has lost nothing, and the
    memory used is bounded; so it is in every state of a process that \<open>hr proxy\<close> started.
  \<^item> Compression: it never panics, is at most four plans of in-range splices each of whose bytes is
    accounted for (tool metadata, markers, the retrieve tool, the cache key), touches only the tokens
    it may, replaces a token exactly when its gates say so, and is undone by \<open>decompress_text\<close>,
    which refines a recursive specification and counts exactly the markers the store knows and those
    it does not. The store is append-only.
  \<^item> Sessions: the floor is what the provider confirmed; frozen and protected blocks are not
    planned. Floors, betas and batch contexts survive what is done for others, up to the bounds.
  \<^item> Continuations: at most three requests, each the original with its messages extended; one
    answer per call, with what the server's store holds; no private call is shown beside the client's own; when they panic.
  \<^item> Streams: the events do not depend on the chunks; usage is counted once; the client's bytes do
    not depend on the parser, whose queue is bounded; a relay delivers every frame in order, ends
    within two steps per frame, and compresses retrievably.
  \<^item> Headers, batches, endpoints, the command line: what is forwarded under each name, what a batch
    lookup finds, which status an answer has, and the round trip from one process to another.

  Bounds and fuel. No definition has fuel: loops over buffers end by a measure on the bytes left
  (\<open>find_from\<close>, \<open>relay_buffer\<close>, \<open>decompress_loop\<close>), the continuation counts down from
  \<open>MAX_CCR_CONTINUATION_ROUNDS\<close>, which is 3, and relay and tee are relations whose runs are bounded.

  Not modelled. The argument parser, printing, logging, the loop of the HTTP server, timeouts
  other than the first-frame timeout of a Codex connection (to the model a timeout is an error of
  the upstream), the rounding and printing of \<open>f64\<close>, and how SQLite keeps its files: a database is
  its table, written at once. \<open>lib.rs\<close> only re-exports. A handler's result is
  defined on the session trackers and batch contexts as its own operations leave them; that what
  others do to them in between does not show, but for the floor and the betas, is what
  \<open>Isolation\<close> proves. Others' requests to the upstreams, and their readings of the clocks, are
  part of the arbitrary functions that stand for these.
\<close>

section \<open>From the client's body to what the upstream can ask for\<close>

text \<open>
  C13: What the upstream gets of a compressed request. Its first request has the client's
  method and URL, and its body is exactly what \<open>compress_json_request_ctx\<close> made of the
  client's, run on the store as the request found it; the store the handler leaves is the one
  the compression left, whatever continuations followed.
\<close>

theorem proxied_request_forwarded:
  assumes "ev_send E = recording send" "compressible E req t body"
    and "proxy_http_handler E req ip sv = Some (r, sv')"
  shows "\<exists>now w w' mutation. compress_json_request_ctx (ev_serde E) (ev_sha256 E) (ev_md5 E) (ev_ops E now) body
      (target_shape t) (request_ctx E req t body sv) w = Some (mutation, w') \<and> the_store w = the_store (sv_world sv)
    \<and> the_store (sv_world sv') = the_store w'
    \<and> (\<exists>q qs. sent sv' = sent sv @ q # qs \<and> hq_method q = cq_method req \<and> hq_url q = client_url E req
         \<and> hq_chunks q = [Inr (rc_body mutation)])"
  by (rule proxied_request[OF assms])

text \<open>
  What the retrieve endpoint gives for \<open>h\<close> on the database \<open>st\<close>, and what \<open>hr decompress --hash\<close>
  prints, is an original whose content hash is \<open>h\<close>.
\<close>

definition retrievable :: "('s, 'u) server_env \<Rightarrow> sqlite_store \<Rightarrow> string \<Rightarrow> bool" where
  "retrievable E st h \<longleftrightarrow> (\<exists>x. content_hash (ev_sha256 E) x = h
     \<and> (\<forall>now s pretty. json_get ''original_content'' (fst (retrieve_value (ev_lowercase E) (sqlite_ops now) h None
            \<lparr>the_store = st, the_stats = s\<rparr>)) = Some (JString x)
          \<and> fst (run_command (ev_sha256 E) (sqlite_ops now) pretty (CliDecompressHash h)
            \<lparr>the_store = st, the_stats = s\<rparr>) = Inr (line_out x)))"

lemma retrievable_entry:
  assumes "digest_ok (ev_sha256 E)" "readable st" "consistent (ev_sha256 E) st" "sqlite_entries st h = Some x"
  shows "retrievable E st h"
proof -
  have h: "h = content_hash (ev_sha256 E) x" using assms(3,4) by (simp add: consistent_def addressed_def)
  then have "valid_hash h"
    using content_hash_length[OF assms(1)] by (auto simp: valid_hash_def dest: content_hash_lower lower_hex_is_hex)
  moreover have get: "get_op (sqlite_ops now) h st = Inr (Some x)" for now
    using assms(2,4) by (simp add: sqlite_ops_def sqlite_get_def readable_def sqlite_entries_def)
  moreover have "fst (run_command sha (sqlite_ops now) pretty (CliDecompressHash h) \<lparr>the_store = st, the_stats = s\<rparr>)
      = Inr (line_out x)" for sha now pretty s
    by (simp add: run_command_def decompress_hash_def get)
  ultimately show ?thesis using h retrieve_value_full unfolding retrievable_def
    by (metis world.select_convs(1))
qed

lemma shared_put_readable: "readable (db (snd (put_op (shared_ops now) h x st))) = readable (db st)"
proof -
  have "readable (later_puts ps s) = readable s" for ps s
    using later_puts_fields[of ps s] by (simp add: readable_def)
  then show ?thesis
    using sqlite_put_fields by (auto simp: shared_ops_def shared_put_def readable_def Let_def split: prod.splits)
qed

text \<open>
  C1: Nothing is hidden for good. While other requests and other processes put what they like
  into the same database, before, between and after the statements of a compressed request,
  every hash whose marker the compression put into the body sent upstream is answered by the
  retrieve endpoint, and by the command line, with the original text, at once and however the
  database goes on, if it could be read when the request came.
\<close>

theorem proxied_request_retrievable:
  assumes "ev_send E = recording send" "ev_ops E = (\<lambda>t. shared_ops (clock t))" "digest_ok (ev_sha256 E)"
    and "compressible E req t body" "proxy_http_handler E req ip sv = Some (r, sv')"
    and "shared_sound (ev_sha256 E) (the_store (sv_world sv))"
    and "addressed (ev_sha256 E) (shared_entries (the_store (sv_world sv)))"
    and "readable (db (the_store (sv_world sv)))"
  shows "\<exists>now w w' mutation q qs. compress_json_request_ctx (ev_serde E) (ev_sha256 E) (ev_md5 E) (shared_ops now) body
      (target_shape t) (request_ctx E req t body sv) w = Some (mutation, w') \<and> the_store w = the_store (sv_world sv)
    \<and> sent sv' = sent sv @ q # qs \<and> hq_chunks q = [Inr (rc_body mutation)]
    \<and> (\<forall>st. (put_step (ev_sha256 E))\<^sup>*\<^sup>* (db (the_store (sv_world sv'))) st
          \<longrightarrow> list_all (retrievable E st) (rc_hashes mutation))"
proof -
  obtain t0 w w' mutation q qs where run:
    "compress_json_request_ctx (ev_serde E) (ev_sha256 E) (ev_md5 E) (shared_ops (clock t0)) body (target_shape t)
      (request_ctx E req t body sv) w = Some (mutation, w')"
    "the_store w = the_store (sv_world sv)" "the_store (sv_world sv') = the_store w'"
    and q: "sent sv' = sent sv @ q # qs" "hq_chunks q = [Inr (rc_body mutation)]"
    using proxied_request[OF assms(1,4,5)] unfolding assms(2) by blast
  let ?d = "db (the_store w')"
  have "shared.kept (ev_sha256 E) w w' (rc_hashes mutation)"
    by (rule shared.request_kept[OF _ _ run(1)]) (use assms(6,7) run(2) in simp_all)
  then have kept: "consistent (ev_sha256 E) ?d" "\<And>h. h \<in> set (rc_hashes mutation) \<Longrightarrow> sqlite_entries ?d h \<noteq> None"
    by (auto simp: shared.kept_def shared_entries_def shared_sound_def consistent_def)
  have readable: "readable ?d"
    by (rule request_store_inv[OF _ run(1), where P = "\<lambda>s. readable (db s)"])
      (use assms(8) run(2) shared_put_readable in simp_all)
  have "list_all (retrievable E st) (rc_hashes mutation)" if steps: "(put_step (ev_sha256 E))\<^sup>*\<^sup>* ?d st" for st
  proof -
    note later = put_steps_keep[OF steps kept(1)]
    have "sqlite_entries st h \<noteq> None" if "h \<in> set (rc_hashes mutation)" for h
      using that kept(2) later by (metis domIff map_le_def)
    then show ?thesis using later readable retrievable_entry[OF assms(3)] by (auto simp: list_all_iff)
  qed
  with run q show ?thesis by (metis (no_types, lifting))
qed

text \<open>A request to compress that the logging process answers.\<close>

definition demo_json_request :: client_request where
  "demo_json_request = demo_request ''POST'' ''/v1/messages'' [Inr ''{}'']"

lemma demo_json_request_compressible: "compressible logging_env demo_json_request TargetAnthropicMessages ''{}''"
proof -
  have "rq_target (classify_request ''POST'' ''/v1/messages'') = Some TargetAnthropicMessages" by code_simp
  moreover have "media_type ''application/json'' = ''application/json''"
    by (simp add: media_type_def, rule trim_ascii) (simp_all add: is_ascii_def is_whitespace_def byte_def Let_def)
  then have "is_application_json demo_http [(''content-type'', ''application/json'')]"
    by (simp add: is_application_json_def has_media_type_def header_str_def header_get_def demo_http_def
        eq_ignore_ascii_case_def)
  then have "bypass_reason logging_env [(''content-type'', ''application/json'')] = None"
    by (simp add: bypass_reason_def logging_env_def demo_http_def allows_compression_def
        compression_bypass_requested_def header_str_def header_get_def)
  moreover have "read_limited_body logging_env demo_json_request = Inr ''{}''"
    by (simp add: read_limited_body_def demo_json_request_def demo_request_def header_str_def header_get_def
        option_filter_def logging_env_def)
  ultimately show ?thesis by (simp add: compressible_def demo_json_request_def demo_request_def)
qed

lemma demo_json_request_answered: "\<exists>r sv'. proxy_http_handler logging_env demo_json_request None logging_server = Some (r, sv')"
proof -
  have "borrows_ok (ev_serde logging_env)" "strings_print (ev_serde logging_env)"
    using demo_printer_laws by (simp_all add: logging_env_def)
  moreover have "sd_value (ev_serde logging_env) text = Some v \<Longrightarrow> \<not> fieldless v" for "text" v
    by (auto simp: logging_env_def demo_printer_def demo_serde_def fieldless_def)
  ultimately show ?thesis by (rule proxy_answers_when) (simp_all add: logging_server_def)
qed

theorem proxied_request_forwarded_witness:
  "\<exists>r sv' q qs. proxy_http_handler logging_env demo_json_request None logging_server = Some (r, sv')
     \<and> sent sv' = q # qs \<and> hq_method q = ''POST''"
proof -
  obtain r sv' where run: "proxy_http_handler logging_env demo_json_request None logging_server = Some (r, sv')"
    using demo_json_request_answered by blast
  from proxied_request_forwarded[OF logging_env_send demo_json_request_compressible run] run show ?thesis
    by (auto simp: sent_def logging_server_def demo_json_request_def demo_request_def)
qed

section \<open>A compressed request on a busy database\<close>

text \<open>
  The process of the demonstration on a database into which another process puts the very text
  that the request holds, just before the request does.
\<close>

definition busy_env :: "(shared_store, unit \<times> http_request list) server_env" where
  "busy_env = \<lparr>ev_serde = demo_serde, ev_http = demo_http, ev_url = demo_url,
     ev_sha256 = const_digest, ev_md5 = const_digest, ev_lowercase = to_ascii_lowercase,
     ev_ser_error = (\<lambda>v. ''error''), ev_parse_error = (\<lambda>t. ''error''), ev_status_text = dec,
     ev_limit_error = ''limit'', ev_ops = (\<lambda>t. shared_ops (int t)),
     ev_instant = id, ev_wall = id, ev_send = recording no_upstream, ev_openai_upstream = ''http://o'',
     ev_anthropic_upstream = ''http://a'', ev_max_body_bytes = 1000, ev_compression_enabled = True,
     ev_compression_mode = ModeCcr, ev_compress_user_text = False\<rparr>"

definition busy_server :: "(shared_store, unit \<times> http_request list) server" where
  "busy_server = \<lparr>sv_world = busy_world, sv_trackers = inner_default, sv_batches = [], sv_counter = 1,
     sv_ticks = 0, sv_tasks = [], sv_net = ((), [])\<rparr>"

definition busy_request :: client_request where
  "busy_request = \<lparr>cq_method = ''POST'', cq_path = ''/v1/messages'', cq_query = None,
     cq_headers = [(''content-type'', ''application/json''), (''authorization'', ''Basic x'')],
     cq_chunks = [Inr (demo_body demo_text)]\<rparr>"

lemma busy_compressible: "compressible busy_env busy_request TargetAnthropicMessages (demo_body demo_text)"
proof -
  have "rq_target (classify_request ''POST'' ''/v1/messages'') = Some TargetAnthropicMessages" by code_simp
  moreover have "media_type ''application/json'' = ''application/json''"
    by (simp add: media_type_def, rule trim_ascii) (simp_all add: is_ascii_def is_whitespace_def byte_def Let_def)
  then have "is_application_json demo_http (cq_headers busy_request)"
    by (simp add: is_application_json_def has_media_type_def header_str_def header_get_def demo_http_def
        eq_ignore_ascii_case_def busy_request_def)
  then have "bypass_reason busy_env (cq_headers busy_request) = None"
    by (simp add: bypass_reason_def busy_env_def demo_http_def allows_compression_def busy_request_def
        compression_bypass_requested_def header_str_def header_get_def)
  moreover have "read_limited_body busy_env busy_request = Inr (demo_body demo_text)"
    by (simp add: read_limited_body_def busy_request_def header_str_def header_get_def option_filter_def busy_env_def
        demo_body_def demo_text_def)
  ultimately show ?thesis by (simp add: compressible_def busy_request_def)
qed

lemma fresh_floor:
  assumes "sv_trackers sv = inner_default" "frozen_floor E ident sv = (n, sv')"
  shows "n = 0 \<and> betas (sv_trackers sv') = []"
  using assms
  by (auto simp: frozen_floor_def frozen_message_count_def instant_now_def maybe_cleanup_def inner_default_def Let_def
      option_filter_def split: option.splits prod.splits if_splits)

lemma no_tokens: "comma_tokens [] = []"
  by code_simp

lemma fresh_betas:
  assumes "betas (sv_trackers sv) = []" "\<And>name. target_beta_header t = Some name \<Longrightarrow> header_str (ev_http E) name hs = None"
  shows "fst (merge_beta_header E t ident hs sv) = hs"
  using assms
  by (auto simp: merge_beta_header_def sticky_betas_def set_beta_header_def no_tokens Let_def split: option.split)

lemma busy_ctx:
  "request_ctx busy_env busy_request TargetAnthropicMessages (demo_body demo_text) busy_server = compress_context_new OAuth"
proof -
  let ?hs = "cq_headers busy_request"
  define ident where "ident = session_identity busy_env TargetAnthropicMessages ?hs (sd_value (ev_serde busy_env) (demo_body demo_text))"
  obtain n sv1 where floor: "frozen_floor busy_env ident (on_stats record_request busy_server) = (n, sv1)" by fastforce
  have "n = 0" "betas (sv_trackers sv1) = []"
    using fresh_floor[OF _ floor] by (simp_all add: busy_server_def on_stats_frame)
  moreover have "header_str (ev_http busy_env) ''anthropic-beta'' ?hs = None"
    by (simp add: header_str_def header_get_def busy_request_def)
  then have "fst (merge_beta_header busy_env TargetAnthropicMessages ident ?hs sv1) = ?hs"
    using calculation(2) by (intro fresh_betas) simp_all
  moreover have "classify_auth_mode (ev_http busy_env) ?hs = OAuth" unfolding busy_env_def by code_simp
  ultimately show ?thesis
    by (simp add: request_ctx_def ident_def[symmetric] floor split_beta target_ctx_def compress_context_new_def)
      (simp add: busy_env_def)
qed

theorem proxied_request_retrievable_witness:
  "\<exists>r sv' q qs. proxy_http_handler busy_env busy_request None busy_server = Some (r, sv')
     \<and> sent sv' = q # qs \<and> retrievable busy_env (db (the_store (sv_world sv'))) (content_hash const_digest demo_text)"
proof -
  have env: "ev_send busy_env = recording no_upstream" "ev_ops busy_env = (\<lambda>t. shared_ops (int t))"
    "digest_ok (ev_sha256 busy_env)" "ev_serde busy_env = demo_serde" "ev_sha256 busy_env = const_digest"
    "ev_md5 busy_env = const_digest"
    using digest_ok_const by (simp_all add: busy_env_def)
  have "sd_value (ev_serde busy_env) text = Some v \<Longrightarrow> \<not> fieldless v" for "text" v
    by (auto simp: env(4) demo_serde_def fieldless_def)
  then obtain r sv' where run: "proxy_http_handler busy_env busy_request None busy_server = Some (r, sv')"
    using proxy_answers_when[of busy_env busy_server busy_request None] borrows_ok_demo strings_print_demo
    unfolding env(4) by (auto simp: busy_server_def)
  have "shared_sound (ev_sha256 busy_env) (the_store (sv_world busy_server))"
    "addressed (ev_sha256 busy_env) (shared_entries (the_store (sv_world busy_server)))"
    "readable (db (the_store (sv_world busy_server)))"
    using sqlite_sound_empty
    by (simp_all add: busy_server_def busy_world_def busy_env_def shared_sound_def addressed_puts_def readable_def
        addressed_def shared_entries_def sqlite_in_memory_def sqlite_entries_def)
  from proxied_request_retrievable[OF env(1-3) busy_compressible run this, unfolded busy_ctx]
  obtain now w w' mutation q qs where spec:
    "compress_json_request_ctx demo_serde const_digest const_digest (shared_ops now) (demo_body demo_text)
       AnthropicMessages (compress_context_new OAuth) w = Some (mutation, w')" "the_store w = the_store busy_world"
    "sent sv' = q # qs" "list_all (retrievable busy_env (db (the_store (sv_world sv')))) (rc_hashes mutation)"
    by (auto simp: env busy_server_def sent_def)
  have "rc_hashes mutation = [content_hash const_digest demo_text]"
    using busy_hashes[OF spec(1,2)] .
  with spec run show ?thesis by auto
qed

end
